(* ===== verification/Go_Prelude.thy ===== *)
theory Go_Prelude
  imports Main "HOL-Library.AList"
begin

text \<open>
  The part of Go that the other theories share.  A Go function that has effects is a function from a
  state to an outcome and a new state (\<open>go\<close>).  An outcome is either the returned value or the way
  in which the process died (a nil dereference, a write to a nil map, an explicit \<open>panic\<close>, a
  \<open>Fatal\<close> log call): Go's \<open>error\<close> results are ordinary values of type \<open>go_error + 'a\<close>.
  Go maps are association lists with distinct keys; \<open>range\<close> visits them in an order that is a
  parameter.  The string functions are those of the Go standard library that the program calls.
\<close>

section \<open>Collections of facts\<close>

named_theorems keeps_intro \<open>rules for showing that an operation preserves a state invariant\<close>
named_theorems go_simps \<open>equations that run an operation of the model on a concrete state\<close>

section \<open>Outcomes and effects\<close>

datatype crash =
    NilDeref
  | NilMapWrite
  | NilFuncCall
  | IndexOutOfRange
  | GoPanic string
  | LogFatal string

datatype 'a outcome = Ret 'a | Crash crash

type_synonym ('s, 'a) go = "'s \<Rightarrow> 's \<times> 'a outcome"

definition ret :: "'a \<Rightarrow> ('s, 'a) go" where
  "ret a = (\<lambda>s. (s, Ret a))"

definition die :: "crash \<Rightarrow> ('s, 'a) go" where
  "die c = (\<lambda>s. (s, Crash c))"

definition andthen :: "('s, 'a) go \<Rightarrow> ('a \<Rightarrow> ('s, 'b) go) \<Rightarrow> ('s, 'b) go" where
  "andthen m f = (\<lambda>s. case m s of (t, Ret a) \<Rightarrow> f a t | (t, Crash c) \<Rightarrow> (t, Crash c))"

definition gets :: "('s \<Rightarrow> 'a) \<Rightarrow> ('s, 'a) go" where
  "gets f = (\<lambda>s. (s, Ret (f s)))"

definition modify :: "('s \<Rightarrow> 's) \<Rightarrow> ('s, unit) go" where
  "modify f = (\<lambda>s. (f s, Ret ()))"

text \<open>Dereferencing a Go pointer: \<open>None\<close> is nil.\<close>

definition deref :: "'a option \<Rightarrow> ('s, 'a) go" where
  "deref p = (case p of None \<Rightarrow> die NilDeref | Some a \<Rightarrow> ret a)"

text \<open>Indexing a Go slice.\<close>

definition index :: "'a list \<Rightarrow> nat \<Rightarrow> ('s, 'a) go" where
  "index xs i = (if i < length xs then ret (xs ! i) else die IndexOutOfRange)"

fun for_each :: "('a \<Rightarrow> ('s, unit) go) \<Rightarrow> 'a list \<Rightarrow> ('s, unit) go" where
  "for_each f [] = ret ()"
| "for_each f (x # xs) = andthen (f x) (\<lambda>_. for_each f xs)"

fun repeat_n :: "nat \<Rightarrow> ('s, unit) go \<Rightarrow> ('s, unit) go" where
  "repeat_n 0 m = ret ()"
| "repeat_n (Suc n) m = andthen m (\<lambda>_. repeat_n n m)"

fun collect :: "('a \<Rightarrow> ('s, 'b) go) \<Rightarrow> 'a list \<Rightarrow> ('s, 'b list) go" where
  "collect f [] = ret []"
| "collect f (x # xs) = andthen (f x) (\<lambda>y. andthen (collect f xs) (\<lambda>ys. ret (y # ys)))"

definition returns :: "('s, 'a) go \<Rightarrow> 's \<Rightarrow> bool" where
  "returns m s \<longleftrightarrow> (\<exists>a. snd (m s) = Ret a)"

lemma ret_run [go_simps]: "ret a s = (s, Ret a)"
  by (simp add: ret_def)

lemma die_run [go_simps]: "die c s = (s, Crash c)"
  by (simp add: die_def)

lemma gets_run [go_simps]: "gets f s = (s, Ret (f s))"
  by (simp add: gets_def)

lemma modify_run [go_simps]: "modify f s = (f s, Ret ())"
  by (simp add: modify_def)

lemma deref_simps [simp]: "deref None = die NilDeref" "deref (Some a) = ret a"
  by (simp_all add: deref_def)

lemma andthen_run [go_simps]:
  "andthen m f s = (case m s of (t, Ret a) \<Rightarrow> f a t | (t, Crash c) \<Rightarrow> (t, Crash c))"
  by (simp add: andthen_def)

lemma andthen_ret [simp]: "andthen (ret a) f = f a"
  by (simp add: andthen_def ret_def)

lemma andthen_die [simp]: "andthen (die c) f = die c"
  by (simp add: andthen_def die_def)

lemma andthen_gets [simp]: "andthen (gets g) f s = f (g s) s"
  by (simp add: go_simps)

lemma andthen_modify [simp]: "andthen (modify g) f s = f () (g s)"
  by (simp add: go_simps)

lemma andthen_eqI: "m s = (t, Ret a) \<Longrightarrow> andthen m f s = f a t"
  by (simp add: andthen_run)

lemma andthen_crashI: "m s = (t, Crash c) \<Longrightarrow> andthen m f s = (t, Crash c)"
  by (simp add: andthen_run)

lemma andthen_RetE:
  assumes "andthen m f s = (u, Ret b)"
  obtains a t where "m s = (t, Ret a)" and "f a t = (u, Ret b)"
  using assms by (auto simp: andthen_run split: prod.splits outcome.splits)

lemma andthen_assoc: "andthen (andthen m f) g = andthen m (\<lambda>a. andthen (f a) g)"
  by (rule ext) (simp add: andthen_run split: prod.splits outcome.splits)

lemma for_each_append: "for_each f (xs @ ys) = andthen (for_each f xs) (\<lambda>_. for_each f ys)"
  by (induction xs) (simp_all add: andthen_assoc)

lemma for_each_concat: "for_each (for_each f) xss = for_each f (concat xss)"
  by (induction xss) (simp_all add: for_each_append)

lemma for_each_same:
  "(\<And>x. x \<in> set xs \<Longrightarrow> f x s = (s, Ret ())) \<Longrightarrow> for_each f xs s = (s, Ret ())"
  by (induction xs) (simp_all add: go_simps)

lemma repeat_n_ret [simp]: "repeat_n n (ret ()) = ret ()"
  by (induction n) simp_all

section \<open>Invariants of effects\<close>

definition keeps :: "('s \<Rightarrow> bool) \<Rightarrow> ('s, 'a) go \<Rightarrow> bool" where
  "keeps I m \<longleftrightarrow> (\<forall>s. I s \<longrightarrow> I (fst (m s)))"

lemma keepsI: "(\<And>s. I s \<Longrightarrow> I (fst (m s))) \<Longrightarrow> keeps I m"
  by (simp add: keeps_def)

lemma keepsD: "keeps I m \<Longrightarrow> I s \<Longrightarrow> I (fst (m s))"
  by (simp add: keeps_def)

lemma keeps_ret [keeps_intro]: "keeps I (ret a)"
  by (simp add: keeps_def go_simps)

lemma keeps_die [keeps_intro]: "keeps I (die c)"
  by (simp add: keeps_def go_simps)

lemma keeps_gets [keeps_intro]: "keeps I (gets f)"
  by (simp add: keeps_def go_simps)

lemma keeps_deref [keeps_intro]: "keeps I (deref p)"
  by (cases p) (simp_all add: keeps_def go_simps)

lemma keeps_index [keeps_intro]: "keeps I (index xs i)"
  by (simp add: keeps_def index_def go_simps)

lemma keeps_modify: "(\<And>s. I s \<Longrightarrow> I (f s)) \<Longrightarrow> keeps I (modify f)"
  by (simp add: keeps_def go_simps)

lemma keeps_andthen [keeps_intro]:
  "keeps I m \<Longrightarrow> (\<And>a. keeps I (f a)) \<Longrightarrow> keeps I (andthen m f)"
  by (fastforce simp: keeps_def andthen_run split: prod.splits outcome.splits)

lemma keeps_for_each [keeps_intro]:
  "(\<And>x. keeps I (f x)) \<Longrightarrow> keeps I (for_each f xs)"
  by (induction xs) (auto intro: keeps_intro)

lemma keeps_repeat_n [keeps_intro]: "keeps I m \<Longrightarrow> keeps I (repeat_n n m)"
  by (induction n) (auto intro: keeps_intro)

lemma keeps_collect [keeps_intro]:
  "(\<And>x. keeps I (f x)) \<Longrightarrow> keeps I (collect f xs)"
  by (induction xs) (auto intro: keeps_intro)

lemma keeps_if [keeps_intro]:
  "(b \<Longrightarrow> keeps I m) \<Longrightarrow> (\<not> b \<Longrightarrow> keeps I n) \<Longrightarrow> keeps I (if b then m else n)"
  by simp

lemma keeps_sum [keeps_intro]:
  "(\<And>e. keeps I (f e)) \<Longrightarrow> (\<And>a. keeps I (g a)) \<Longrightarrow>
   keeps I (case x of Inl e \<Rightarrow> f e | Inr a \<Rightarrow> g a)"
  by (cases x) simp_all

lemma keeps_option [keeps_intro]:
  "keeps I m \<Longrightarrow> (\<And>a. keeps I (g a)) \<Longrightarrow>
   keeps I (case x of None \<Rightarrow> m | Some a \<Rightarrow> g a)"
  by (cases x) simp_all

lemma keeps_list [keeps_intro]:
  "keeps I m \<Longrightarrow> (\<And>a as. keeps I (g a as)) \<Longrightarrow>
   keeps I (case xs of [] \<Rightarrow> m | a # as \<Rightarrow> g a as)"
  by (cases xs) simp_all

lemma keeps_prod [keeps_intro]:
  "(\<And>a b. keeps I (g a b)) \<Longrightarrow> keeps I (case x of (a, b) \<Rightarrow> g a b)"
  by (cases x) simp

end
