(* ===== verification/Go_Strings.thy ===== *)
theory Go_Strings
  imports Go_Prelude
begin

text \<open>
  The functions of Go's packages \<open>strings\<close>, \<open>strconv\<close> and \<open>errors\<close> that the program calls.
  A Go string is its sequence of bytes.
\<close>

section \<open>Errors\<close>

text \<open>
  \<open>ErrorString\<close> is the value made by \<open>errors.New\<close> and \<open>fmt.Errorf\<close> and every error handed
  over by a library; \<open>NotFoundError\<close> is the value made by \<open>errdefs.NotFound\<close> and
  \<open>errdefs.NotFoundf\<close>, which Virtual Kubelet recognises by its type.
\<close>

datatype go_error = ErrorString string | NotFoundError string

fun Error :: "go_error \<Rightarrow> string" where
  "Error (ErrorString m) = m"
| "Error (NotFoundError m) = m"

section \<open>strings\<close>

definition trim_left :: "char \<Rightarrow> string \<Rightarrow> string" where
  "trim_left c s = dropWhile (\<lambda>x. x = c) s"

definition trim :: "char \<Rightarrow> string \<Rightarrow> string" where
  "trim c s = rev (trim_left c (rev (trim_left c s)))"

fun join :: "string \<Rightarrow> string list \<Rightarrow> string" where
  "join sep [] = []"
| "join sep [x] = x"
| "join sep (x # y # ys) = x @ sep @ join sep (y # ys)"

text \<open>
  \<open>split_on sep acc s\<close> is the loop of \<open>strings.Split\<close> for a separator that is not empty:
  \<open>acc\<close> holds, reversed, the bytes read since the last separator.
\<close>

function split_on :: "string \<Rightarrow> string \<Rightarrow> string \<Rightarrow> string list" where
  "split_on sep acc [] = [rev acc]"
| "split_on sep acc (c # cs) =
     (if sep \<noteq> [] \<and> take (length sep) (c # cs) = sep
      then rev acc # split_on sep [] (drop (length sep) (c # cs))
      else split_on sep (c # acc) cs)"
  by pat_completeness auto
termination
  by (relation "measure (\<lambda>(sep, acc, s). length s)") auto

text \<open>The number of bytes of the UTF-8 sequence a string starts with (1 for an invalid one).\<close>

definition in_range :: "nat \<Rightarrow> nat \<Rightarrow> char \<Rightarrow> bool" where
  "in_range lo hi c \<longleftrightarrow> lo \<le> (of_char c :: nat) \<and> (of_char c :: nat) \<le> hi"

fun rune_width :: "string \<Rightarrow> nat" where
  "rune_width (a # b # c # d # _) =
     (if in_range 0xC2 0xDF a \<and> in_range 0x80 0xBF b then 2
      else if (in_range 0xE0 0xE0 a \<and> in_range 0xA0 0xBF b \<or> in_range 0xE1 0xEC a \<and> in_range 0x80 0xBF b \<or>
               in_range 0xED 0xED a \<and> in_range 0x80 0x9F b \<or> in_range 0xEE 0xEF a \<and> in_range 0x80 0xBF b) \<and>
              in_range 0x80 0xBF c then 3
      else if (in_range 0xF0 0xF0 a \<and> in_range 0x90 0xBF b \<or> in_range 0xF1 0xF3 a \<and> in_range 0x80 0xBF b \<or>
               in_range 0xF4 0xF4 a \<and> in_range 0x80 0x8F b) \<and>
              in_range 0x80 0xBF c \<and> in_range 0x80 0xBF d then 4
      else 1)"
| "rune_width [a, b, c] =
     (if in_range 0xC2 0xDF a \<and> in_range 0x80 0xBF b then 2
      else if (in_range 0xE0 0xE0 a \<and> in_range 0xA0 0xBF b \<or> in_range 0xE1 0xEC a \<and> in_range 0x80 0xBF b \<or>
               in_range 0xED 0xED a \<and> in_range 0x80 0x9F b \<or> in_range 0xEE 0xEF a \<and> in_range 0x80 0xBF b) \<and>
              in_range 0x80 0xBF c then 3
      else 1)"
| "rune_width [a, b] = (if in_range 0xC2 0xDF a \<and> in_range 0x80 0xBF b then 2 else 1)"
| "rune_width _ = 1"

lemma rune_width_pos: "0 < rune_width s"
  by (cases s rule: rune_width.cases) simp_all

function explode_runes :: "string \<Rightarrow> string list" where
  "explode_runes s =
     (if s = [] then [] else take (rune_width s) s # explode_runes (drop (rune_width s) s))"
  by pat_completeness auto
termination
  by (relation "measure length") (auto simp: rune_width_pos)

declare explode_runes.simps [simp del]

definition Split :: "string \<Rightarrow> string \<Rightarrow> string list" where
  "Split s sep = (if sep = [] then explode_runes s else split_on sep [] s)"

fun contains :: "string \<Rightarrow> string \<Rightarrow> bool" where
  "contains [] sub \<longleftrightarrow> sub = []"
| "contains (c # cs) sub \<longleftrightarrow> take (length sub) (c # cs) = sub \<or> contains cs sub"

text \<open>\<open>strings.Replace(s, old, new, -1)\<close> for an \<open>old\<close> that is not empty.\<close>

function replace_all :: "string \<Rightarrow> string \<Rightarrow> string \<Rightarrow> string" where
  "replace_all old new [] = []"
| "replace_all old new (c # cs) =
     (if old \<noteq> [] \<and> take (length old) (c # cs) = old
      then new @ replace_all old new (drop (length old) (c # cs))
      else c # replace_all old new cs)"
  by pat_completeness auto
termination
  by (relation "measure (\<lambda>(old, new, s). length s)") auto

definition lower_char :: "char \<Rightarrow> char" where
  "lower_char c =
     (if in_range 65 90 c then char_of ((of_char c :: nat) + 32) else c)"

definition to_lower :: "string \<Rightarrow> string" where
  "to_lower s = map lower_char s"

section \<open>strconv\<close>

definition digit_char :: "nat \<Rightarrow> char" where
  "digit_char d = char_of (48 + d)"

fun itoa :: "nat \<Rightarrow> string" where
  "itoa n = (if n < 10 then [digit_char n] else itoa (n div 10) @ [digit_char (n mod 10)])"

declare itoa.simps [simp del]

definition itoa_int :: "int \<Rightarrow> string" where
  "itoa_int i = (if i < 0 then CHR ''-'' # itoa (nat (- i)) else itoa (nat i))"

lemma itoa_digits:
  "itoa 0 = ''0''" "itoa 1 = ''1''" "itoa (Suc 0) = ''1''" "itoa 2 = ''2''" "itoa 3 = ''3''"
  by code_simp+

section \<open>Facts about these functions\<close>

lemma join_Cons: "xs \<noteq> [] \<Longrightarrow> join sep (x # xs) = x @ sep @ join sep xs"
  by (cases xs) simp_all

lemma split_on_not_Nil [simp]: "split_on sep acc s \<noteq> []"
  by (induction sep acc s rule: split_on.induct) auto

lemma Split_not_Nil: "sep \<noteq> [] \<Longrightarrow> Split s sep \<noteq> []"
  by (simp add: Split_def)

lemma join_split_on:
  "sep \<noteq> [] \<Longrightarrow> join sep (split_on sep acc s) = rev acc @ s"
proof (induction sep acc s rule: split_on.induct)
  case (2 sep acc c cs)
  show ?case
  proof (cases "take (length sep) (c # cs) = sep")
    case True
    then have "sep @ drop (length sep) (c # cs) = c # cs"
      by (metis append_take_drop_id)
    with True 2 show ?thesis by (simp add: join_Cons)
  next
    case False
    with 2 show ?thesis by simp
  qed
qed simp

lemma join_Split: "sep \<noteq> [] \<Longrightarrow> join sep (Split s sep) = s"
  by (simp add: Split_def join_split_on)

text \<open>A separator of one byte: the pieces are what lies between its occurrences.\<close>

lemma split_on_byte_free:
  "c \<notin> set acc \<Longrightarrow> p \<in> set (split_on [c] acc s) \<Longrightarrow> c \<notin> set p"
  by (induction "[c]" acc s rule: split_on.induct) (auto split: if_splits)

lemma split_on_byte_append:
  "c \<notin> set x \<Longrightarrow> split_on [c] acc (x @ c # s) = (rev acc @ x) # split_on [c] [] s"
  by (induction x arbitrary: acc) auto

lemma split_on_byte_none:
  "c \<notin> set x \<Longrightarrow> split_on [c] acc x = [rev acc @ x]"
  by (induction x arbitrary: acc) auto

lemma split_on_byte_join:
  assumes "xs \<noteq> []" and "\<And>x. x \<in> set xs \<Longrightarrow> c \<notin> set x"
  shows "split_on [c] [] (join [c] xs) = xs"
  using assms
proof (induction xs)
  case (Cons x xs)
  show ?case
  proof (cases "xs = []")
    case True
    with Cons.prems show ?thesis by (simp add: split_on_byte_none)
  next
    case False
    with Cons show ?thesis by (simp add: join_Cons split_on_byte_append)
  qed
qed simp

lemma trim_left_none: "(s = [] \<or> hd s \<noteq> c) \<Longrightarrow> trim_left c s = s"
  by (cases s) (auto simp: trim_left_def)

lemma trim_left_replicate: "trim_left c (replicate n c @ s) = trim_left c s"
  by (induction n) (auto simp: trim_left_def)

lemma trim_left_Nil [simp]: "trim_left c [] = []"
  by (simp add: trim_left_def)

lemma trim_left_replicate_all: "trim_left c (replicate n c) = []"
  by (induction n) (auto simp: trim_left_def)

text \<open>\<open>unpadded c s\<close>: \<open>s\<close> neither starts nor ends with \<open>c\<close>.\<close>

definition unpadded :: "char \<Rightarrow> string \<Rightarrow> bool" where
  "unpadded c s \<longleftrightarrow> (s = [] \<or> hd s \<noteq> c \<and> last s \<noteq> c)"

lemma trim_padded:
  assumes "unpadded c s"
  shows "trim c (replicate m c @ s @ replicate n c) = s"
proof -
  show ?thesis
  proof (cases "s = []")
    case True
    then show ?thesis
      by (simp add: trim_def trim_left_replicate trim_left_replicate_all)
  next
    case False
    with assms have h: "hd s \<noteq> c" "last s \<noteq> c" by (auto simp: unpadded_def)
    have "trim_left c (replicate m c @ s @ replicate n c) = trim_left c (s @ replicate n c)"
      by (rule trim_left_replicate)
    also have "\<dots> = s @ replicate n c"
      by (rule trim_left_none) (simp add: False h)
    finally have 1: "trim_left c (replicate m c @ s @ replicate n c) = s @ replicate n c" .
    have "trim_left c (rev (s @ replicate n c)) = trim_left c (rev s)"
      by (simp only: rev_append rev_replicate trim_left_replicate)
    also have "\<dots> = rev s"
      by (rule trim_left_none) (simp add: False h hd_rev)
    finally show ?thesis by (simp only: trim_def 1 rev_rev_ident)
  qed
qed

lemma unpadded_trim: "unpadded c (trim c s)"
proof -
  have *: "trim_left c t = [] \<or> hd (trim_left c t) \<noteq> c" for t
    by (induction t) (auto simp: trim_left_def)
  show ?thesis
  proof (cases "trim c s = []")
    case False
    let ?t = "trim_left c s"
    let ?r = "trim_left c (rev ?t)"
    have ne: "?r \<noteq> []" using False by (auto simp: trim_def)
    have l: "last (trim c s) \<noteq> c"
      using * [of "rev ?t"] ne by (auto simp: trim_def last_rev)
    obtain pre where "rev ?t = pre @ ?r"
      unfolding trim_left_def by (metis takeWhile_dropWhile_id)
    then have "?t = rev ?r @ rev pre" by (metis rev_append rev_rev_ident)
    then have "hd (trim c s) = hd ?t" using ne
      unfolding trim_def by (metis hd_append2 rev_is_Nil_conv)
    moreover have "?t \<noteq> []" using ne by auto
    ultimately have "hd (trim c s) \<noteq> c" using * [of s] by auto
    with l show ?thesis by (simp add: unpadded_def)
  qed (simp add: unpadded_def)
qed

lemma trim_id: "unpadded c s \<Longrightarrow> trim c s = s"
  using trim_padded [of c s 0 0] by simp

end
