(* ===== verification/Go_Map.thy ===== *)
theory Go_Map
  imports Go_Prelude "HOL-Library.Multiset"
begin

text \<open>
  Go maps.  A map is an association list whose keys are distinct (\<open>go_map_ok\<close>); assignment,
  lookup, \<open>delete\<close> and \<open>len\<close> are those of the list.  Go leaves the order in which \<open>range\<close>
  visits a map open, so \<open>range_map r m\<close> is the list of entries in the order number \<open>r\<close>: every order
  has a number (\<open>permute_surj\<close>).  The locale \<open>store\<close> is the interface the program's caches rely on.
\<close>

section \<open>Orders of iteration\<close>

text \<open>\<open>permute r xs\<close> reads \<open>r\<close> in mixed radix and takes the element each digit points to.\<close>

function permute :: "nat \<Rightarrow> 'a list \<Rightarrow> 'a list" where
  "permute r [] = []"
| "permute r (x # xs) =
     (let n = length (x # xs); i = r mod n
      in ((x # xs) ! i) # permute (r div n) (take i (x # xs) @ drop (Suc i) (x # xs)))"
  by pat_completeness auto
termination
  by (relation "measure (\<lambda>(r, xs). length xs)") auto

lemma mset_take_nth_drop:
  "i < length xs \<Longrightarrow> set (take i xs @ drop (Suc i) xs) \<union> {xs ! i} = set xs"
  by (metis Un_commute Un_insert_left Un_insert_right append_take_drop_id id_take_nth_drop
      insert_is_Un list.simps(15) set_append sup_bot.right_neutral)

lemma length_permute [simp]: "length (permute r xs) = length xs"
  by (induction r xs rule: permute.induct) (auto simp: Let_def)

lemma set_permute [simp]: "set (permute r xs) = set xs"
proof (induction r xs rule: permute.induct)
  case (2 r x xs)
  let ?i = "r mod length (x # xs)"
  have "?i < length (x # xs)" by simp
  then have "set (take ?i (x # xs) @ drop (Suc ?i) (x # xs)) \<union> {(x # xs) ! ?i} = set (x # xs)"
    by (rule mset_take_nth_drop)
  moreover have "set (permute r (x # xs)) =
      insert ((x # xs) ! ?i) (set (take ?i (x # xs) @ drop (Suc ?i) (x # xs)))"
    using 2 [OF refl refl] by (simp only: permute.simps Let_def list.set)
  ultimately show ?case by blast
qed simp

lemma permute_eq_Nil [simp]: "permute r xs = [] \<longleftrightarrow> xs = []"
  by (cases xs) (simp_all add: Let_def)

lemma permute_map: "permute r (map f xs) = map f (permute r xs)"
proof (induction r xs rule: permute.induct)
  case (2 r x xs)
  let ?n = "length (x # xs)"
  let ?i = "r mod ?n"
  have "?i < ?n" by simp
  with 2 [OF refl refl] show ?case
    unfolding list.map permute.simps Let_def
    by (simp only: length_map list.size map_append take_map drop_map list.map(2) [symmetric] nth_map)
qed simp

text \<open>Every order of the elements has a number.\<close>

lemma permute_surj:
  assumes "mset ys = mset xs"
  shows "\<exists>r. permute r xs = ys"
  using assms
proof (induction ys arbitrary: xs)
  case (Cons y ys)
  then obtain i where i: "i < length xs" "xs ! i = y"
    by (metis in_set_conv_nth list.set_intros(1) set_mset_mset)
  let ?rest = "take i xs @ drop (Suc i) xs"
  have "xs = take i xs @ y # drop (Suc i) xs"
    using i by (metis id_take_nth_drop)
  then have "mset xs = add_mset y (mset ?rest)"
    by (metis mset.simps(2) mset_append union_mset_add_mset_right)
  with Cons.prems have "mset ys = mset ?rest"
    by simp
  then obtain r where r: "permute r ?rest = ys" using Cons.IH by blast
  obtain x xs' where xs: "xs = x # xs'" using i by (cases xs) auto
  have ne: "length xs \<noteq> 0" using i by auto
  have "(i + length xs * r) mod length xs = i" using i(1) by simp
  moreover have "(i + length xs * r) div length xs = r"
    using div_mult_self2 [OF ne, of i r] i(1) by simp
  ultimately have "permute (i + length xs * r) xs = y # permute r ?rest"
    using i unfolding xs permute.simps Let_def by presburger
  with r show ?case by blast
qed simp

section \<open>Maps\<close>

type_synonym ('k, 'v) go_map = "('k \<times> 'v) list"

definition make_map :: "('k, 'v) go_map" where
  "make_map = []"

definition go_map_ok :: "('k, 'v) go_map \<Rightarrow> bool" where
  "go_map_ok m \<longleftrightarrow> distinct (map fst m)"

definition lookup :: "('k, 'v) go_map \<Rightarrow> 'k \<Rightarrow> 'v option" where
  "lookup m k = map_of m k"

definition assign :: "'k \<Rightarrow> 'v \<Rightarrow> ('k, 'v) go_map \<Rightarrow> ('k, 'v) go_map" where
  "assign k v m = AList.update k v m"

definition delete_key :: "'k \<Rightarrow> ('k, 'v) go_map \<Rightarrow> ('k, 'v) go_map" where
  "delete_key k m = AList.delete k m"

definition range_map :: "nat \<Rightarrow> ('k, 'v) go_map \<Rightarrow> ('k \<times> 'v) list" where
  "range_map r m = permute r m"

text \<open>The interface: what a lookup returns after each operation, and what \<open>len\<close> counts.\<close>

locale store =
  fixes empty :: 'm
    and look :: "'m \<Rightarrow> 'k \<Rightarrow> 'v option"
    and put :: "'k \<Rightarrow> 'v \<Rightarrow> 'm \<Rightarrow> 'm"
    and del :: "'k \<Rightarrow> 'm \<Rightarrow> 'm"
    and entries :: "nat \<Rightarrow> 'm \<Rightarrow> ('k \<times> 'v) list"
    and ok :: "'m \<Rightarrow> bool"
  assumes ok_empty: "ok empty"
    and look_empty: "look empty k = None"
    and ok_put: "ok m \<Longrightarrow> ok (put k v m)"
    and look_put: "ok m \<Longrightarrow> look (put k v m) k' = (if k' = k then Some v else look m k')"
    and ok_del: "ok m \<Longrightarrow> ok (del k m)"
    and look_del: "ok m \<Longrightarrow> look (del k m) k' = (if k' = k then None else look m k')"
    and set_entries: "ok m \<Longrightarrow> set (entries r m) = {(k, v). look m k = Some v}"
    and distinct_entries: "ok m \<Longrightarrow> distinct (map fst (entries r m))"
begin

lemma ok_fold_put: "ok m \<Longrightarrow> ok (fold (\<lambda>x. put (key x) (val x)) xs m)"
  by (induction xs arbitrary: m) (auto simp: ok_put)

lemma look_fold_put_last:
  "ok m \<Longrightarrow>
   look (fold (\<lambda>x. put (key x) (val x)) xs m) k =
     (case find (\<lambda>x. key x = k) (rev xs) of Some x \<Rightarrow> Some (val x) | None \<Rightarrow> look m k)"
proof (induction xs rule: rev_induct)
  case (snoc x xs)
  then show ?case by (simp add: ok_fold_put look_put)
qed simp

lemma put_del: "ok m \<Longrightarrow> look (del k (put k v m)) = (look m)(k := None)"
  by (rule ext) (simp add: look_del ok_put look_put)

lemma entries_eq_Nil: "ok m \<Longrightarrow> entries r m = [] \<longleftrightarrow> (\<forall>k. look m k = None)"
  using set_entries [of m r] by (cases "entries r m") (auto, force)

lemma length_entries: "ok m \<Longrightarrow> length (entries r m) = card {k. look m k \<noteq> None}"
proof -
  assume m: "ok m"
  have "fst ` set (entries r m) = {k. look m k \<noteq> None}"
    using set_entries [OF m, of r] by force
  then show ?thesis
    using distinct_card [OF distinct_entries [OF m, of r]] by simp
qed

end

lemma map_of_permute: "distinct (map fst m) \<Longrightarrow> distinct (map fst (permute r m))"
  by (metis card_distinct distinct_card length_permute length_map permute_map set_permute)

interpretation gm: store make_map lookup assign delete_key range_map go_map_ok
proof unfold_locales
  fix m :: "('a, 'b) go_map" and r :: nat
  assume "go_map_ok m"
  then show "set (range_map r m) = {(k, v). lookup m k = Some v}"
    by (auto simp: go_map_ok_def range_map_def lookup_def)
next
  fix m :: "('a, 'b) go_map" and r :: nat
  assume "go_map_ok m"
  then show "distinct (map fst (range_map r m))"
    by (simp add: go_map_ok_def range_map_def map_of_permute)
qed (simp_all add: make_map_def go_map_ok_def lookup_def assign_def delete_key_def
      update_conv' distinct_update delete_conv' distinct_delete)

lemma length_assign:
  "length (assign k v m) = (if lookup m k = None then Suc (length m) else length m)"
  unfolding assign_def lookup_def by (induction m) auto

lemma length_delete_key:
  "go_map_ok m \<Longrightarrow> length (delete_key k m) = (if lookup m k = None then length m else length m - 1)"
  unfolding delete_key_def lookup_def go_map_ok_def
proof (induction m)
  case (Cons p m)
  show ?case
  proof (cases "fst p = k")
    case True
    with Cons.prems have "k \<notin> fst ` set m" by auto
    then have "AList.delete k m = m" by (simp add: delete_id)
    with True show ?thesis by (cases p) simp
  next
    case False
    have "map_of m k \<noteq> None \<Longrightarrow> length m \<noteq> 0" by (cases m) auto
    with False Cons show ?thesis by (cases p) (auto)
  qed
qed simp

lemma lookup_maps:
  assumes "go_map_ok m"
  shows "lookup (assign k v m) = (lookup m)(k \<mapsto> v)" and "lookup (delete_key k m) = (lookup m)(k := None)"
    and "lookup (delete_key k (assign k v m)) = (lookup m)(k := None)"
  using gm.look_put [OF assms] gm.look_del [OF assms] gm.look_del [OF gm.ok_put [OF assms]]
  by (auto simp: fun_eq_iff)

lemma range_map_eq_Nil [simp]: "range_map r m = [] \<longleftrightarrow> m = []"
  by (simp add: range_map_def)

lemma set_range_map [simp]: "set (range_map r m) = set m"
  by (simp add: range_map_def)

lemma length_range_map [simp]: "length (range_map r m) = length m"
  by (simp add: range_map_def)

lemma lookup_in_set: "go_map_ok m \<Longrightarrow> lookup m k = Some v \<longleftrightarrow> (k, v) \<in> set m"
  by (simp add: lookup_def go_map_ok_def)

end
