(* ===== verification/Metrics.thy ===== *)
theory Metrics
  imports Go_Strings
begin

text \<open>
  \<open>internal/metrics/vk_metrics.go\<close>: the Prometheus counters of the provider.  A counter is a
  constructor of \<open>metric\<close>; \<open>declared_counters\<close> are the package variables in declaration order with
  the options given to \<open>promauto.NewCounter\<close>; \<open>init_registered\<close> are the counters that \<open>init\<close> adds to
  the controller-runtime registry.
\<close>

section \<open>The counters\<close>

datatype metric =
    PodsLaunched | EC2Launched | PodsDeleted | GRPCConnectionErrors
  | GRPCConnectionTimeouts | EC2LaunchErrors | EC2TerminationErrors | EC2Terminated
  | CreateENIErrors | DeleteENIErrors | DescribeENIErrors | ENICreated | ENIDeleted
  | ENIDescribed | DescribeEC2Errors | LaunchApplicationErrors
  | TerminateApplicationErrors | GetAapplicationHealthErrors | NodeNameErrors
  | HealthCheckPodCacheError | HealthCheckGRPCError | MissingHealthCheckResponse
  | HealthCheckPodsDeleted | GetAgentIdentityErrors | CreateCACertErrors
  | CreateCertSignedByCACertErrors | GetSecretErrors | CreateSecretErrors
  | UpdateSecretErrors | SecretCreated | SecretUpdated | EmptyCACertCache
  | EmptyClientCertCache | EmptyCACertSecret | ExpiredCACert | ExpiredClientCert
  | HealthCheckStateUnhealthy | EC2TagCreationErrors | WarmEC2TerminationErrors
  | WarmEC2Launched | WarmEC2Terminated | WarmEC2LaunchErrors | GRPCAppClientErrors
  | CheckApplicationHealthErrors | WatchApplicationHealthErrors
  | WatchApplicationHealthStreamErrors | HealthCheckStateReset

definition provider_counters :: "(metric \<times> string \<times> string) list" where
  "provider_counters =
    [(PodsLaunched, ''vkec2_pods_created_total'',
        ''The total number of pods created''),
     (EC2Launched, ''vkec2_ec2_launched_total'',
        ''The total number of EC2 instances created using create pod function''),
     (PodsDeleted, ''vkec2_pods_deleted_total'',
        ''The total number of pods deleted''),
     (GRPCConnectionErrors, ''vkec2_grpc_connection_errors_total'',
        ''The total number of GRPC connection errors''),
     (GRPCConnectionTimeouts, ''vkec2_grpc_connection_timeout_errors_total'',
        ''The total number of GRPC connection timeout errors''),
     (EC2LaunchErrors, ''vkec2_ec2_launch_errors_total'',
        ''The total number of errors during EC2 launch''),
     (EC2TerminationErrors, ''vkec2_ec2_termination_errors_total'',
        ''The total number of errors during EC2 termination''),
     (EC2Terminated, ''vkec2_ec2_ec2_terminated_total'',
        ''The total number of EC2 instances terminated using delete pod function''),
     (CreateENIErrors, ''vkec2_create_eni_errors_total'',
        ''The total number of errors during network interface creation''),
     (DeleteENIErrors, ''vkec2_delete_eni_errors_total'',
        ''The total number of errors during network interface deletion''),
     (DescribeENIErrors, ''vkec2_describe_eni_errors_total'',
        ''The total number of errors during describe network interface''),
     (ENICreated, ''vkec2_eni_created_total'',
        ''The total number of network interfaces created''),
     (ENIDeleted, ''vkec2_eni_deleted_total'',
        ''The total number of network interfaces deleted''),
     (ENIDescribed, ''vkec2_eni_described_total'',
        ''The total number of times describe network interfaces invoked''),
     (DescribeEC2Errors, ''vkec2_describe_ec2_errors_total'',
        ''The total number of errors during describe EC2'')]"

definition health_counters :: "(metric \<times> string \<times> string) list" where
  "health_counters =
    [(LaunchApplicationErrors, ''vkec2_launch_application_grpc_errors_total'',
        ''The total number of grpc errors during launch application''),
     (TerminateApplicationErrors, ''vkec2_terminate_application_grpc_errors_total'',
        ''The total number of grpc errors during terminate application''),
     (GetAapplicationHealthErrors, ''vkec2_get_application_health_grpc_errors_total'',
        ''The total number of grpc errors during get application health''),
     (NodeNameErrors, ''vkec2_get_nodename_errors_total'',
        ''The total number of errors during get nodeName operation''),
     (HealthCheckPodCacheError, ''vkec2_get_pod_from_local_cache_errors_total'',
        ''The total number of errors during get pod from local vk cache''),
     (HealthCheckGRPCError, ''vkec2_check_pod_health_grpc_errors_total'',
        ''The total number of errors during check pod health grpc fun''),
     (MissingHealthCheckResponse, ''vkec2_check_pod_health_nil_response_total'',
        ''The total number of nil responses from check pod health grpc call''),
     (HealthCheckPodsDeleted, ''vkec2_pods_deleted_from_health_checks_total'',
        ''The total number of unhealthy pods deleted from health checks routine''),
     (GetAgentIdentityErrors, ''vkec2_get_agent_identity_grpc_errors_total'',
        ''The total number of grpc errors during get agent idenity''),
     (CreateCACertErrors, ''vkec2_create_ca_cert_errors_total'',
        ''The total number of errors during CA cert creation''),
     (CreateCertSignedByCACertErrors, ''vkec2_create_cert_signed_by_ca_errors_total'',
        ''The total number of errors during creation of server and client certs''),
     (GetSecretErrors, ''vkec2_retrieve_secret_from_k8s_total'',
        ''The total number of errors during get secret operation''),
     (CreateSecretErrors, ''vkec2_create_secret_errors_total'',
        ''The total number of errors during create secret operation''),
     (UpdateSecretErrors, ''vkec2_update_secret_errors_total'',
        ''The total number of errors during update secret operation''),
     (SecretCreated, ''vkec2_create_secret_from_k8s_total'',
        ''The total number of a secret is created''),
     (SecretUpdated, ''vkec2_update_secret_from_k8s_total'',
        ''The total number times a secret is updated'')]"

definition cache_and_pool_counters :: "(metric \<times> string \<times> string) list" where
  "cache_and_pool_counters =
    [(EmptyCACertCache, ''vkec2_ca_certs_missing_in_cache_total'',
        ''The total number times CA cert not found in VK cache''),
     (EmptyClientCertCache, ''vkec2_client_certs_missing_in_cache_total'',
        ''The total number times client cert not found in VK cache''),
     (EmptyCACertSecret, ''vkec2_ca_certs_missing_in_secret_total'',
        ''The total number times CA cert not found in k8s secret''),
     (ExpiredCACert, ''vkec2_expired_ca_certs_total'',
        ''The total number times CA cert is expired''),
     (ExpiredClientCert, ''vkec2_expired_client_certs_total'',
        ''The total number times client cert is expired''),
     (HealthCheckStateUnhealthy, ''vkec2_health_checks_unhealthy_pod_status'',
        ''The total number of unhealthy pods identified by health checks monitor''),
     (EC2TagCreationErrors, ''vkec2_ec2_create_tag_errors_total'',
        ''The total number of errors creating ec2 tags''),
     (WarmEC2TerminationErrors, ''vkec2_warm_ec2_termination_errors_total'',
        ''The total number of errors during warm EC2 instances termination''),
     (WarmEC2Launched, ''vkec2_warm_ec2_launched_total'',
        ''The total number of warm EC2 instances created''),
     (WarmEC2Terminated, ''vkec2_warm_ec2_terminated_total'',
        ''The total number of warm EC2 instances terminated''),
     (WarmEC2LaunchErrors, ''vkec2_warm_ec2_launch_errors_total'',
        ''The total number of errors during warmpool EC2 launch''),
     (GRPCAppClientErrors, ''vkec2_grpc_client_errors_total'',
        ''The total number of errors getting gRPC connection to application lifecycle client''),
     (CheckApplicationHealthErrors, ''vkec2_check_application_health_errors_total'',
        ''The total number of grpc errors during check application health''),
     (WatchApplicationHealthErrors, ''vkec2_watch_application_health_errors_total'',
        ''The total number of grpc errors during watch application health''),
     (WatchApplicationHealthStreamErrors, ''vkec2_watch_application_health_stream_errors_total'',
        ''The total number of grpc errors during watch application health stream''),
     (HealthCheckStateReset, ''vkec2_health_checks_reset_pod_status'',
        ''The total number of times pod unhealthy count is reset to zero'')]"

definition declared_counters :: "(metric \<times> string \<times> string) list" where
  "declared_counters = provider_counters @ health_counters @ cache_and_pool_counters"

definition init_registered :: "metric list" where
  "init_registered =
    [PodsLaunched, PodsDeleted, GRPCConnectionErrors, GRPCConnectionTimeouts,
     EC2LaunchErrors, EC2TerminationErrors, CreateENIErrors, DeleteENIErrors,
     DescribeENIErrors, DescribeEC2Errors, LaunchApplicationErrors,
     TerminateApplicationErrors, CheckApplicationHealthErrors,
     WatchApplicationHealthErrors, WatchApplicationHealthStreamErrors, EC2Terminated,
     EC2Launched, NodeNameErrors, HealthCheckGRPCError, HealthCheckStateReset,
     MissingHealthCheckResponse, GetAgentIdentityErrors, CreateCACertErrors,
     CreateCertSignedByCACertErrors, GetSecretErrors, CreateSecretErrors, ENICreated,
     ENIDeleted, ENIDescribed, GRPCAppClientErrors, WarmEC2LaunchErrors, WarmEC2Launched,
     WarmEC2Terminated, WarmEC2TerminationErrors, EC2TagCreationErrors,
     HealthCheckStateUnhealthy]"

definition counter_name :: "metric \<Rightarrow> string" where
  "counter_name m = (case map_of declared_counters m of Some (n, h) \<Rightarrow> n | None \<Rightarrow> [])"

section \<open>Registration\<close>

text \<open>
  The two registries, as the names they hold: Prometheus's default registry, which
  \<open>promauto.NewCounter\<close> registers with and the metrics endpoint serves, and the registry of
  controller-runtime, which \<open>GetMetricsData\<close> gathers from.  Registering a name twice panics.
\<close>

record registries =
  default_registry :: "string list"
  runtime_registry :: "string list"

definition promauto_register :: "metric \<times> string \<times> string \<Rightarrow> (registries, unit) go" where
  "promauto_register d = (case d of (m, n, h) \<Rightarrow>
     andthen (gets default_registry) (\<lambda>ns.
     if n \<in> set ns then die (GoPanic ''duplicate metrics collector registration attempted'')
     else modify (\<lambda>r. r\<lparr>default_registry := ns @ [n]\<rparr>)))"

definition MustRegister :: "metric \<Rightarrow> (registries, unit) go" where
  "MustRegister m =
     andthen (gets runtime_registry) (\<lambda>ns.
     if counter_name m \<in> set ns then die (GoPanic ''duplicate metrics collector registration attempted'')
     else modify (\<lambda>r. r\<lparr>runtime_registry := ns @ [counter_name m]\<rparr>))"

definition init_metrics :: "(registries, unit) go" where
  "init_metrics =
     andthen (for_each promauto_register declared_counters) (\<lambda>_.
     for_each MustRegister init_registered)"

definition GetMetricsData :: "(registries, string list) go" where
  "GetMetricsData = gets runtime_registry"

section \<open>The endpoint\<close>

text \<open>
  \<open>promhttp.Handler\<close> serves the default registry.  \<open>listen_and_serve\<close> is the network, with the error that
  \<open>ListenAndServe\<close> ends with, and \<open>quote\<close> the verb \<open>%q\<close>.
\<close>

datatype handler = PromHandler | Writes string

record http_server =
  Addr :: string
  Handler :: "(string \<times> handler) list"
  ReadTimeout :: int
  WriteTimeout :: int

definition metricsAddr :: string where
  "metricsAddr = '':10256''"

definition ErrServerClosed :: go_error where
  "ErrServerClosed = ErrorString ''http: Server closed''"

definition metricsServer :: http_server where
  "metricsServer = \<lparr>Addr = metricsAddr,
     Handler = [(''/metrics'', PromHandler), (''/healthz'', Writes ''ok'')],
     ReadTimeout = 5 * 1000000000, WriteTimeout = 5 * 1000000000\<rparr>"

definition ExposeMetrics ::
  "(http_server \<Rightarrow> go_error) \<Rightarrow> (go_error \<Rightarrow> string) \<Rightarrow> (registries, unit) go" where
  "ExposeMetrics listen_and_serve quote =
     (let err = listen_and_serve metricsServer in
      if err \<noteq> ErrServerClosed then die (LogFatal (''Error listening: '' @ quote err)) else ret ())"

text \<open>The counters that a request to \<open>path\<close> shows.\<close>

definition shown :: "string \<Rightarrow> registries \<Rightarrow> string list option" where
  "shown path r = (case map_of (Handler metricsServer) path of
     Some PromHandler \<Rightarrow> Some (default_registry r)
   | _ \<Rightarrow> None)"

section \<open>Facts\<close>

lemma for_each_promauto:
  "distinct (default_registry r @ map (\<lambda>d. fst (snd d)) ds) \<Longrightarrow>
   for_each promauto_register ds r =
     (r\<lparr>default_registry := default_registry r @ map (\<lambda>d. fst (snd d)) ds\<rparr>, Ret ())"
proof (induction ds arbitrary: r)
  case (Cons d ds)
  then show ?case by (cases d) (auto simp: promauto_register_def go_simps)
qed (simp add: go_simps)

lemma for_each_MustRegister:
  "distinct (runtime_registry r @ map counter_name ms) \<Longrightarrow>
   for_each MustRegister ms r =
     (r\<lparr>runtime_registry := runtime_registry r @ map counter_name ms\<rparr>, Ret ())"
proof (induction ms arbitrary: r)
  case (Cons m ms)
  then show ?case by (auto simp: MustRegister_def go_simps)
qed (simp add: go_simps)

lemma distinct_declared_names: "distinct (map (\<lambda>d. fst (snd d)) declared_counters)"
  by code_simp

lemma distinct_registered_names: "distinct (map counter_name init_registered)"
  by code_simp

text \<open>
  Package initialisation never panics: no two counters share a Prometheus name, every declared
  counter is served by the default registry, and the controller-runtime registry that
  \<open>GetMetricsData\<close> reads holds exactly the counters listed in \<open>init\<close>.
\<close>

theorem init_metrics_registers:
  "init_metrics \<lparr>default_registry = [], runtime_registry = []\<rparr> =
     (\<lparr>default_registry = map (\<lambda>d. fst (snd d)) declared_counters,
       runtime_registry = map counter_name init_registered\<rparr>, Ret ())"
  using distinct_declared_names distinct_registered_names
  by (simp add: init_metrics_def andthen_run for_each_promauto for_each_MustRegister)

text \<open>
  The endpoint shows every declared counter, those that \<open>GetMetricsData\<close> leaves out included; when its port
  is taken, the whole provider dies.
\<close>

theorem endpoint_shows_all:
  "shown ''/metrics'' (fst (init_metrics \<lparr>default_registry = [], runtime_registry = []\<rparr>)) =
    Some (map (\<lambda>d. fst (snd d)) declared_counters)"
  using distinct_declared_names distinct_registered_names
  by (simp add: init_metrics_def andthen_run for_each_promauto for_each_MustRegister shown_def metricsServer_def)

theorem ExposeMetrics_port_taken:
  assumes "listen_and_serve metricsServer = ErrorString (''listen tcp :10256: '' @ why)"
  shows "ExposeMetrics listen_and_serve quote r =
    (r, Crash (LogFatal (''Error listening: '' @ quote (ErrorString (''listen tcp :10256: '' @ why)))))"
  using assms by (simp add: ExposeMetrics_def ErrServerClosed_def go_simps)

text \<open>
  Eleven declared counters are missing from \<open>init\<close>, so \<open>GetMetricsData\<close> never reports them.
\<close>

theorem init_metrics_omits:
  "filter (\<lambda>m. m \<notin> set init_registered) (map fst declared_counters) =
     [GetAapplicationHealthErrors, HealthCheckPodCacheError, HealthCheckPodsDeleted,
      UpdateSecretErrors, SecretCreated, SecretUpdated, EmptyCACertCache,
      EmptyClientCertCache, EmptyCACertSecret, ExpiredCACert, ExpiredClientCert]"
  by code_simp

end
