(* ===== verification/Config.thy ===== *)
theory Config
  imports Complex_Main Go_Strings
begin

text \<open>
  \<open>internal/config/config.go\<close> and the pure part of \<open>manager.go\<close> and \<open>loaders.go\<close>: the configuration
  structures, what \<open>defaults.Set\<close> makes of the \<open>default\<close> tags of their fields, and \<open>validate\<close>.  Go's
  \<open>int\<close> is \<open>int\<close>; the two float fields, which are only passed on, are rationals; a slice that may be
  nil and whose nil-ness the code observes is an option.
\<close>

section \<open>Constants and structures\<close>

definition DefaultOperatingSystem :: string where "DefaultOperatingSystem = ''Linux''"
definition DefaultCpuCapacity :: string where "DefaultCpuCapacity = ''20''"
definition DefaultMemoryCapacity :: string where "DefaultMemoryCapacity = ''40Gi''"
definition DefaultStorageCapacity :: string where "DefaultStorageCapacity = ''40Gi''"
definition DefaultPodCapacity :: string where "DefaultPodCapacity = ''200''"
definition DefaultConfigLocation :: string where
  "DefaultConfigLocation = ''/etc/config/config.json''"

lemmas default_constants =
  DefaultOperatingSystem_def DefaultCpuCapacity_def DefaultMemoryCapacity_def
  DefaultStorageCapacity_def DefaultPodCapacity_def DefaultConfigLocation_def

record ExtendedConfig =
  KubeConfigPath :: string

record VMConfig =
  DefaultAMI :: string
  VMInitData :: string

record BootstrapAgent =
  S3Bucket :: string
  S3Key :: string
  GRPCPort :: int
  AgentInitData :: string

record WarmPoolConfig =
  DesiredCount :: int
  IamInstanceProfile :: string
  SecurityGroups :: "string list"
  KeyPair :: string
  ImageID :: string
  InstanceType :: string
  Subnets :: "string list"

record HealthConfig =
  UnhealthyThresholdCount :: int
  HealthCheckIntervalSeconds :: int
  StreamRetryIntervalSeconds :: int

record BackoffConfig =
  BaseDelaySeconds :: int
  Multiplier :: rat
  Jitter :: rat
  MaxDelaySeconds :: int

record KeepaliveConfig =
  KeepaliveTimeSeconds :: int
  KeepaliveTimeoutSeconds :: int

record VkvmaConfig =
  Port :: int
  TimeoutSeconds :: int
  MinConnectTimeoutSeconds :: int
  VkvmaHealthCheckIntervalSeconds :: int
  Backoff :: BackoffConfig
  KeepaliveEnabled :: bool
  Keepalive :: KeepaliveConfig

record ProviderConfig =
  Region :: string
  ClusterName :: string
  ManagementSubnet :: string
  AWSClientTimeoutSeconds :: int
  AWSClientDialerTimeoutSeconds :: int
  StatusIntervalSeconds :: int
  HealthConf :: HealthConfig
  VKVMAgentConnectionConfig :: VkvmaConfig
  VMConf :: VMConfig
  BootstrapConf :: BootstrapAgent
  WarmPoolConf :: "WarmPoolConfig list option"

text \<open>Go's zero value of \<open>ProviderConfig\<close>, the composite literal \<open>ProviderConfig{}\<close>.\<close>

definition empty_config :: ProviderConfig where
  "empty_config = \<lparr>Region = [], ClusterName = [], ManagementSubnet = [],
     AWSClientTimeoutSeconds = 0, AWSClientDialerTimeoutSeconds = 0, StatusIntervalSeconds = 0,
     HealthConf = \<lparr>UnhealthyThresholdCount = 0, HealthCheckIntervalSeconds = 0,
       StreamRetryIntervalSeconds = 0\<rparr>,
     VKVMAgentConnectionConfig = \<lparr>Port = 0, TimeoutSeconds = 0, MinConnectTimeoutSeconds = 0,
       VkvmaHealthCheckIntervalSeconds = 0,
       Backoff = \<lparr>BaseDelaySeconds = 0, Multiplier = 0, Jitter = 0, MaxDelaySeconds = 0\<rparr>,
       KeepaliveEnabled = False,
       Keepalive = \<lparr>KeepaliveTimeSeconds = 0, KeepaliveTimeoutSeconds = 0\<rparr>\<rparr>,
     VMConf = \<lparr>DefaultAMI = [], VMInitData = []\<rparr>,
     BootstrapConf = \<lparr>S3Bucket = [], S3Key = [], GRPCPort = 0, AgentInitData = []\<rparr>,
     WarmPoolConf = None\<rparr>"

text \<open>The warm pools, as \<open>len\<close> and \<open>range\<close> see a slice that may be nil.\<close>

definition warm_pools :: "ProviderConfig \<Rightarrow> WarmPoolConfig list" where
  "warm_pools pc = (case WarmPoolConf pc of None \<Rightarrow> [] | Some ws \<Rightarrow> ws)"

section \<open>Defaults\<close>

text \<open>
  \<open>defaults.Set\<close> gives a field with a \<open>default\<close> tag that value when the field is zero, descends into
  the fields of a structure whatever its tag, and leaves a field alone whose tag is empty or \<open>-\<close>.
  \<open>WarmPoolConfig\<close> is tagged \<open>-\<close>.
\<close>

definition default_to :: "'a \<Rightarrow> 'a \<Rightarrow> 'a \<Rightarrow> 'a" where
  "default_to zero d v = (if v = zero then d else v)"

definition set_HealthConfig :: "HealthConfig \<Rightarrow> HealthConfig" where
  "set_HealthConfig h = \<lparr>
     UnhealthyThresholdCount = default_to 0 5 (UnhealthyThresholdCount h),
     HealthCheckIntervalSeconds = default_to 0 60 (HealthCheckIntervalSeconds h),
     StreamRetryIntervalSeconds = default_to 0 10 (StreamRetryIntervalSeconds h)\<rparr>"

definition set_VkvmaConfig :: "VkvmaConfig \<Rightarrow> VkvmaConfig" where
  "set_VkvmaConfig v = \<lparr>
     Port = default_to 0 8200 (Port v),
     TimeoutSeconds = default_to 0 300 (TimeoutSeconds v),
     MinConnectTimeoutSeconds = default_to 0 60 (MinConnectTimeoutSeconds v),
     VkvmaHealthCheckIntervalSeconds = default_to 0 60 (VkvmaHealthCheckIntervalSeconds v),
     Backoff = \<lparr>
       BaseDelaySeconds = default_to 0 1 (BaseDelaySeconds (Backoff v)),
       Multiplier = default_to 0 (3/2) (Multiplier (Backoff v)),
       Jitter = default_to 0 (1/2) (Jitter (Backoff v)),
       MaxDelaySeconds = default_to 0 120 (MaxDelaySeconds (Backoff v))\<rparr>,
     KeepaliveEnabled = default_to False False (KeepaliveEnabled v),
     Keepalive = \<lparr>
       KeepaliveTimeSeconds = default_to 0 60 (KeepaliveTimeSeconds (Keepalive v)),
       KeepaliveTimeoutSeconds = default_to 0 120 (KeepaliveTimeoutSeconds (Keepalive v))\<rparr>\<rparr>"

definition set_BootstrapAgent :: "BootstrapAgent \<Rightarrow> BootstrapAgent" where
  "set_BootstrapAgent b = b\<lparr>GRPCPort := default_to 0 8200 (GRPCPort b)\<rparr>"

definition set_defaults :: "ProviderConfig \<Rightarrow> ProviderConfig" where
  "set_defaults pc = pc\<lparr>
     Region := default_to [] ''us-west-2'' (Region pc),
     ClusterName := default_to [] ''aws-virtual-kubelet'' (ClusterName pc),
     AWSClientTimeoutSeconds := default_to 0 30 (AWSClientTimeoutSeconds pc),
     AWSClientDialerTimeoutSeconds := default_to 0 5 (AWSClientDialerTimeoutSeconds pc),
     StatusIntervalSeconds := default_to 0 15 (StatusIntervalSeconds pc),
     HealthConf := set_HealthConfig (HealthConf pc),
     VKVMAgentConnectionConfig := set_VkvmaConfig (VKVMAgentConnectionConfig pc),
     BootstrapConf := set_BootstrapAgent (BootstrapConf pc)\<rparr>"

lemmas defaults_defs = set_defaults_def set_HealthConfig_def set_VkvmaConfig_def
  set_BootstrapAgent_def default_to_def

section \<open>Validation\<close>

definition warm_pool_error :: "string \<Rightarrow> nat \<Rightarrow> string" where
  "warm_pool_error what i = ''WarmPoolConfig.'' @ what @ '' for WarmPoolConfig['' @ itoa i @ '']''"

definition warm_pool_entry_errors :: "nat \<Rightarrow> WarmPoolConfig \<Rightarrow> string list" where
  "warm_pool_entry_errors i wpc =
     (if ImageID wpc = [] then [warm_pool_error ''ImageID is required'' i] else []) @
     (if InstanceType wpc = [] then [warm_pool_error ''InstanceType is required'' i] else []) @
     (if Subnets wpc = [] then [warm_pool_error ''Subnets can't be empty'' i] else [])"

fun warm_pool_errors :: "nat \<Rightarrow> WarmPoolConfig list \<Rightarrow> string list \<Rightarrow> string list" where
  "warm_pool_errors i [] errs = errs"
| "warm_pool_errors i (wpc # rest) errs =
     warm_pool_errors (Suc i) rest (errs @ warm_pool_entry_errors i wpc)"

definition validateWarmPoolConfig :: "ProviderConfig \<Rightarrow> string list \<Rightarrow> string list" where
  "validateWarmPoolConfig pc errs =
     (if WarmPoolConf pc \<noteq> None \<and> 0 < length (warm_pools pc)
      then warm_pool_errors 0 (warm_pools pc) errs else errs)"

definition validate :: "ProviderConfig \<Rightarrow> go_error option" where
  "validate pc =
     (if pc = empty_config then Some (ErrorString ''config is empty'')
      else
        (let errs = (if ManagementSubnet pc = [] then [''ManagementSubnet is required''] else []);
             errs = validateWarmPoolConfig pc errs
         in if 0 < length errs
            then Some (ErrorString (''config validation failed: '' @ join '', '' errs))
            else None))"

section \<open>Facts\<close>

definition pool_ok :: "WarmPoolConfig \<Rightarrow> bool" where
  "pool_ok wpc \<longleftrightarrow> ImageID wpc \<noteq> [] \<and> InstanceType wpc \<noteq> [] \<and> Subnets wpc \<noteq> []"

lemma warm_pool_errors_append:
  "warm_pool_errors i ws errs = errs @ warm_pool_errors i ws []"
proof (induction ws arbitrary: i errs)
  case (Cons w ws)
  show ?case
    by (simp, subst Cons.IH, subst (2) Cons.IH) simp
qed simp

lemma warm_pool_entry_errors_Nil: "warm_pool_entry_errors i wpc = [] \<longleftrightarrow> pool_ok wpc"
  by (simp add: warm_pool_entry_errors_def pool_ok_def)

lemma warm_pool_errors_Nil:
  "warm_pool_errors i ws errs = [] \<longleftrightarrow> errs = [] \<and> (\<forall>w \<in> set ws. pool_ok w)"
  by (induction ws arbitrary: i errs) (auto simp: warm_pool_entry_errors_Nil)

lemma validateWarmPoolConfig_Nil:
  "validateWarmPoolConfig pc errs = [] \<longleftrightarrow> errs = [] \<and> (\<forall>w \<in> set (warm_pools pc). pool_ok w)"
  by (auto simp: validateWarmPoolConfig_def warm_pool_errors_Nil warm_pools_def
      split: option.splits)

lemma set_defaults_idem: "set_defaults (set_defaults pc) = set_defaults pc"
  by (simp add: defaults_defs)

lemma set_defaults_not_empty: "set_defaults pc \<noteq> empty_config"
proof
  assume "set_defaults pc = empty_config"
  then have "Region (set_defaults pc) = Region empty_config" by simp
  then show False by (simp add: defaults_defs empty_config_def split: if_splits)
qed

text \<open>
  What \<open>InitConfig\<close> promises of the defaults, as tables of the tagged fields: the numbers, the fractions,
  the texts, each with the value it has when the loaded configuration leaves it out; every other field is
  the loaded one.
\<close>

definition int_defaults :: "((ProviderConfig \<Rightarrow> int) \<times> int) list" where
  "int_defaults =
     [(AWSClientTimeoutSeconds, 30), (AWSClientDialerTimeoutSeconds, 5), (StatusIntervalSeconds, 15),
      (UnhealthyThresholdCount \<circ> HealthConf, 5), (HealthCheckIntervalSeconds \<circ> HealthConf, 60),
      (StreamRetryIntervalSeconds \<circ> HealthConf, 10),
      (Port \<circ> VKVMAgentConnectionConfig, 8200), (TimeoutSeconds \<circ> VKVMAgentConnectionConfig, 300),
      (MinConnectTimeoutSeconds \<circ> VKVMAgentConnectionConfig, 60),
      (VkvmaHealthCheckIntervalSeconds \<circ> VKVMAgentConnectionConfig, 60),
      (BaseDelaySeconds \<circ> Backoff \<circ> VKVMAgentConnectionConfig, 1),
      (MaxDelaySeconds \<circ> Backoff \<circ> VKVMAgentConnectionConfig, 120),
      (KeepaliveTimeSeconds \<circ> Keepalive \<circ> VKVMAgentConnectionConfig, 60),
      (KeepaliveTimeoutSeconds \<circ> Keepalive \<circ> VKVMAgentConnectionConfig, 120),
      (GRPCPort \<circ> BootstrapConf, 8200)]"

definition rat_defaults :: "((ProviderConfig \<Rightarrow> rat) \<times> rat) list" where
  "rat_defaults =
     [(Multiplier \<circ> Backoff \<circ> VKVMAgentConnectionConfig, 3/2), (Jitter \<circ> Backoff \<circ> VKVMAgentConnectionConfig, 1/2)]"

definition string_defaults :: "((ProviderConfig \<Rightarrow> string) \<times> string) list" where
  "string_defaults = [(Region, ''us-west-2''), (ClusterName, ''aws-virtual-kubelet'')]"

definition fills :: "'a \<Rightarrow> ((ProviderConfig \<Rightarrow> 'a) \<times> 'a) list \<Rightarrow> ProviderConfig \<Rightarrow> ProviderConfig \<Rightarrow> bool" where
  "fills zero table pc pc' \<longleftrightarrow>
     list_all (\<lambda>(field, d). field pc' = (if field pc = zero then d else field pc)) table"

definition same_untagged :: "ProviderConfig \<Rightarrow> ProviderConfig \<Rightarrow> bool" where
  "same_untagged pc pc' \<longleftrightarrow> ManagementSubnet pc' = ManagementSubnet pc \<and> VMConf pc' = VMConf pc \<and>
     WarmPoolConf pc' = WarmPoolConf pc \<and> S3Bucket (BootstrapConf pc') = S3Bucket (BootstrapConf pc) \<and>
     S3Key (BootstrapConf pc') = S3Key (BootstrapConf pc) \<and>
     AgentInitData (BootstrapConf pc') = AgentInitData (BootstrapConf pc) \<and>
     KeepaliveEnabled (VKVMAgentConnectionConfig pc') = KeepaliveEnabled (VKVMAgentConnectionConfig pc)"

definition defaulted :: "ProviderConfig \<Rightarrow> ProviderConfig \<Rightarrow> bool" where
  "defaulted pc pc' \<longleftrightarrow> fills 0 int_defaults pc pc' \<and> fills 0 rat_defaults pc pc' \<and>
     fills [] string_defaults pc pc' \<and> same_untagged pc pc'"

lemma set_defaults_defaulted: "defaulted pc (set_defaults pc)"
  by (simp add: defaulted_def fills_def int_defaults_def rat_defaults_def string_defaults_def
      same_untagged_def defaults_defs)

text \<open>The tables leave no field open.\<close>

lemma defaulted_unique:
  assumes "defaulted pc a" and "defaulted pc b"
  shows "a = b"
  using assms
  by (simp add: defaulted_def fills_def int_defaults_def rat_defaults_def string_defaults_def
      same_untagged_def ProviderConfig.equality HealthConfig.equality VkvmaConfig.equality
      BackoffConfig.equality KeepaliveConfig.equality BootstrapAgent.equality)

lemma set_defaults_keeps:
  "ManagementSubnet (set_defaults pc) = ManagementSubnet pc"
  "WarmPoolConf (set_defaults pc) = WarmPoolConf pc"
  "warm_pools (set_defaults pc) = warm_pools pc"
  by (simp_all add: defaults_defs warm_pools_def)

lemma validate_None:
  "validate pc = None \<longleftrightarrow>
     pc \<noteq> empty_config \<and> ManagementSubnet pc \<noteq> [] \<and> (\<forall>w \<in> set (warm_pools pc). pool_ok w)"
  by (auto simp: validate_def Let_def validateWarmPoolConfig_Nil)

lemma validate_set_defaults:
  "validate (set_defaults pc) = None \<longleftrightarrow>
     ManagementSubnet pc \<noteq> [] \<and> (\<forall>w \<in> set (warm_pools pc). pool_ok w)"
  by (simp add: validate_None set_defaults_not_empty set_defaults_keeps)

end
