(* ===== verification/Go_Time.thy ===== *)
theory Go_Time
  imports Go_Prelude "HOL-Library.Word"
begin

text \<open>
  Durations.  Go's \<open>int\<close> and \<open>time.Duration\<close> have 64 bits here, and a product that leaves that range wraps
  around.  The configuration counts in seconds; the program multiplies by \<open>time.Second\<close>.
\<close>

definition int64 :: "int \<Rightarrow> int" where
  "int64 n = sint (word_of_int n :: 64 word)"

text \<open>\<open>time.Duration(n) * time.Second\<close>, in nanoseconds.\<close>

definition Seconds :: "int \<Rightarrow> int" where
  "Seconds n = int64 (n * 1000000000)"

text \<open>\<open>time.NewTicker\<close> panics unless the interval is positive.\<close>

definition NewTicker :: "int \<Rightarrow> ('s, int) go" where
  "NewTicker d = (if d \<le> 0 then die (GoPanic ''non-positive interval for NewTicker'') else ret d)"

section \<open>Range\<close>

lemma int64_mod: "int64 n = (n + 2 ^ 63) mod 2 ^ 64 - 2 ^ 63"
  by (simp add: int64_def int_word_sint)

lemma int64_range: "- (2 ^ 63) \<le> int64 n \<and> int64 n < 2 ^ 63"
  unfolding int64_mod by (simp add: pos_mod_bound)

lemma int64_exact: "int64 n = n \<longleftrightarrow> - (2 ^ 63) \<le> n \<and> n < 2 ^ 63"
proof
  assume "int64 n = n"
  then show "- (2 ^ 63) \<le> n \<and> n < 2 ^ 63" using int64_range [of n] by simp
next
  assume "- (2 ^ 63) \<le> n \<and> n < 2 ^ 63"
  then have "(n + 2 ^ 63) mod 2 ^ 64 = n + 2 ^ 63" by (intro mod_pos_pos_trivial) auto
  then show "int64 n = n" by (simp add: int64_mod)
qed

text \<open>The number as two's complement reads it.\<close>

lemma int64_signed: "int64 n = (if n mod 2 ^ 64 < 2 ^ 63 then n mod 2 ^ 64 else n mod 2 ^ 64 - 2 ^ 64)"
proof -
  let ?m = "n mod 2 ^ 64"
  have m: "0 \<le> ?m" "?m < 2 ^ 64" by simp_all
  have eq: "(n + 2 ^ 63) mod 2 ^ 64 = (?m + 2 ^ 63) mod 2 ^ 64" by (rule mod_add_left_eq [symmetric])
  show ?thesis
  proof (cases "?m < 2 ^ 63")
    case True
    then have "(?m + 2 ^ 63) mod 2 ^ 64 = ?m + 2 ^ 63" using m by (intro mod_pos_pos_trivial) auto
    then show ?thesis unfolding int64_mod eq using True by simp
  next
    case False
    have "(?m + 2 ^ 63) mod 2 ^ 64 = (?m + 2 ^ 63 - 2 ^ 64) mod 2 ^ 64"
      by (rule minus_mod_self2 [symmetric])
    also have "\<dots> = ?m + 2 ^ 63 - 2 ^ 64" using m False by (intro mod_pos_pos_trivial) auto
    finally show ?thesis unfolding int64_mod eq using False by simp
  qed
qed

lemma Seconds_positive:
  "n * 1000000000 mod 2 ^ 64 \<in> {1 .. 2 ^ 63 - 1} \<Longrightarrow> Seconds n = n * 1000000000 mod 2 ^ 64"
  "0 < Seconds n \<longleftrightarrow> n * 1000000000 mod 2 ^ 64 \<in> {1 .. 2 ^ 63 - 1}"
proof -
  let ?m = "n * 1000000000 mod 2 ^ 64"
  have "0 \<le> ?m" "?m < 2 ^ 64" by simp_all
  then show "?m \<in> {1 .. 2 ^ 63 - 1} \<Longrightarrow> Seconds n = ?m" "0 < Seconds n \<longleftrightarrow> ?m \<in> {1 .. 2 ^ 63 - 1}"
    unfolding Seconds_def int64_signed by auto
qed

text \<open>A number of seconds is exact as a duration up to a little over 292 years.\<close>

lemma Seconds_exact: "Seconds n = n * 1000000000 \<longleftrightarrow> - 9223372036 \<le> n \<and> n \<le> 9223372036"
  unfolding Seconds_def int64_exact by auto

lemma Seconds_wraps:
  assumes "9223372036 < n" and "n \<le> 18446744073"
  shows "Seconds n < 0"
proof -
  have "(n * 1000000000 + 2 ^ 63) mod 2 ^ 64 = (n * 1000000000 + 2 ^ 63 - 2 ^ 64) mod 2 ^ 64"
    by (rule minus_mod_self2 [symmetric])
  also have "\<dots> = n * 1000000000 + 2 ^ 63 - 2 ^ 64"
    using assms by (intro mod_pos_pos_trivial) auto
  finally have "(n * 1000000000 + 2 ^ 63) mod 2 ^ 64 = n * 1000000000 + 2 ^ 63 - 2 ^ 64" .
  then show ?thesis using assms by (simp add: Seconds_def int64_mod)
qed

end
