(* ===== verification/Base.thy ===== *)
theory Base
  imports Config Metrics Go_Time
begin

text \<open>
  The process state that every component shares (\<open>base\<close>): the outside world \<open>'w\<close> that AWS, Kubernetes
  and the agents live in, the package variable \<open>config\<close>, the Prometheus counters, the choices Go's
  runtime makes (map order, random numbers) and the clock; and \<open>InitConfig\<close> of
  \<open>internal/config/manager.go\<close> with the loaders of \<open>loaders.go\<close>.  Each component extends the record
  with its own variables, so its operations run on the state of any component above it.
\<close>

section \<open>The shared state\<close>

record 'w base =
  world :: 'w
  config :: "ProviderConfig option"
  counters :: "metric \<Rightarrow> nat"
  choices :: "nat list"
  clock :: nat

definition Inc :: "metric \<Rightarrow> (('w, 'z) base_scheme, unit) go" where
  "Inc m = modify (\<lambda>s. s\<lparr>counters := (counters s)(m := Suc (counters s m))\<rparr>)"

text \<open>A choice left to Go's runtime: the next number of the list (0 once it is used up).\<close>

definition next_choice :: "(('w, 'z) base_scheme, nat) go" where
  "next_choice =
     andthen (gets choices) (\<lambda>cs. case cs of
         [] \<Rightarrow> ret 0
       | c # rest \<Rightarrow> andthen (modify (\<lambda>s. s\<lparr>choices := rest\<rparr>)) (\<lambda>_. ret c))"

text \<open>A call to the outside world.\<close>

definition call :: "('w \<Rightarrow> 'r \<times> 'w) \<Rightarrow> (('w, 'z) base_scheme, 'r) go" where
  "call f =
     andthen (gets world) (\<lambda>w. case f w of (r, w') \<Rightarrow>
     andthen (modify (\<lambda>s. s\<lparr>world := w'\<rparr>)) (\<lambda>_. ret r))"

definition Now :: "(('w, 'z) base_scheme, nat) go" where
  "Now = gets clock"

lemmas base_ops = Inc_def next_choice_def call_def Now_def

lemma Inc_run [go_simps]:
  "Inc m s = (s\<lparr>counters := (counters s)(m := Suc (counters s m))\<rparr>, Ret ())"
  by (simp add: Inc_def go_simps)

lemma call_run [go_simps]: "call f s = (s\<lparr>world := snd (f (world s))\<rparr>, Ret (fst (f (world s))))"
  by (simp add: call_def go_simps split: prod.splits)

lemma Now_run [go_simps]: "Now s = (s, Ret (clock s))"
  by (simp add: Now_def go_simps)

lemma next_choice_run [go_simps]:
  "next_choice s = (s\<lparr>choices := tl (choices s)\<rparr>, Ret (case choices s of [] \<Rightarrow> 0 | c # _ \<Rightarrow> c))"
  by (cases "choices s") (simp_all add: next_choice_def go_simps)

section \<open>Loading the configuration\<close>

text \<open>
  Reading a file and decoding JSON into the structure are arguments: \<open>read_file\<close> is
  \<open>ioutil.ReadFile\<close>, and \<open>unmarshal text pc\<close> is \<open>json.Unmarshal\<close>, which may leave the structure
  partly filled when it fails.
\<close>

datatype Loader = FileLoader string | DirectLoader ProviderConfig

type_synonym 'w reader = "string \<Rightarrow> 'w \<Rightarrow> (go_error + string) \<times> 'w"
type_synonym decoder = "string \<Rightarrow> ProviderConfig \<Rightarrow> ProviderConfig \<times> go_error option"

definition set_config :: "ProviderConfig \<Rightarrow> (('w, 'z) base_scheme, unit) go" where
  "set_config pc = modify (\<lambda>s. s\<lparr>config := Some pc\<rparr>)"

definition load_file ::
  "'w reader \<Rightarrow> decoder \<Rightarrow> string \<Rightarrow> (('w, 'z) base_scheme, go_error option) go" where
  "load_file read_file unmarshal path =
     andthen (call (read_file path)) (\<lambda>r. case r of
         Inl err \<Rightarrow> ret (Some err)
       | Inr text \<Rightarrow>
           andthen (set_config empty_config) (\<lambda>_.
           (case unmarshal text empty_config of (pc, err) \<Rightarrow>
           andthen (set_config pc) (\<lambda>_.
           case err of Some e \<Rightarrow> ret (Some e) | None \<Rightarrow> ret None))))"

definition load_direct :: "ProviderConfig \<Rightarrow> (('w, 'z) base_scheme, go_error option) go" where
  "load_direct pc = andthen (set_config pc) (\<lambda>_. ret None)"

fun load ::
  "'w reader \<Rightarrow> decoder \<Rightarrow> Loader \<Rightarrow> (('w, 'z) base_scheme, go_error option) go" where
  "load read_file unmarshal (FileLoader path) = load_file read_file unmarshal path"
| "load read_file unmarshal (DirectLoader pc) = load_direct pc"

text \<open>\<open>Config()\<close> returns the pointer; a caller that reads a field of it dereferences it.\<close>

definition Config :: "(('w, 'z) base_scheme, ProviderConfig) go" where
  "Config = andthen (gets config) deref"

definition InitConfig ::
  "'w reader \<Rightarrow> decoder \<Rightarrow> Loader option \<Rightarrow> (('w, 'z) base_scheme, go_error option) go" where
  "InitConfig read_file unmarshal loader =
     (case loader of
        None \<Rightarrow> ret (Some (ErrorString ''loader cannot be nil''))
      | Some l \<Rightarrow>
          andthen (load read_file unmarshal l) (\<lambda>err. case err of
              Some e \<Rightarrow> ret (Some e)
            | None \<Rightarrow>
                andthen Config (\<lambda>pc.
                andthen (set_config (set_defaults pc)) (\<lambda>_.
                ret (validate (set_defaults pc))))))"

section \<open>Facts\<close>

lemma Config_run: "config s = Some pc \<Longrightarrow> Config s = (s, Ret pc)"
  by (simp add: Config_def go_simps)

lemma Config_nil: "config s = None \<Longrightarrow> Config s = (s, Crash NilDeref)"
  by (simp add: Config_def go_simps)

lemma andthen_Config: "config s = Some pc \<Longrightarrow> andthen Config f s = f pc s"
  by (rule andthen_eqI) (rule Config_run)

lemma set_config_run [go_simps]: "set_config pc s = (s\<lparr>config := Some pc\<rparr>, Ret ())"
  by (simp add: set_config_def go_simps)

text \<open>
  C33: \<open>InitConfig\<close> on a configuration handed over directly: it never crashes; the stored configuration
  is, even when validation fails, the given one with every tagged field that was zero set to its default
  (\<open>defaulted\<close> lists them with their values and determines the result), the warm pools' own fields
  aside; and it returns nil exactly when the management subnet is set and every warm pool names an image,
  an instance type and a subnet: the ``config is empty'' answer of \<open>validate\<close> is out of reach, because the
  defaults come first.
\<close>

theorem InitConfig_direct:
  fixes s :: "('w, 'z) base_scheme"
  shows "\<exists>err pc'. InitConfig rf um (Some (DirectLoader pc)) s = (s\<lparr>config := Some pc'\<rparr>, Ret err) \<and>
    defaulted pc pc' \<and>
    (err = None \<longleftrightarrow> ManagementSubnet pc \<noteq> [] \<and> list_all pool_ok (warm_pools pc)) \<and>
    err \<noteq> Some (ErrorString ''config is empty'')"
proof -
  have "validate (set_defaults pc) \<noteq> Some (ErrorString ''config is empty'')"
    by (simp add: validate_def set_defaults_not_empty Let_def)
  moreover have "InitConfig rf um (Some (DirectLoader pc)) s =
      (s\<lparr>config := Some (set_defaults pc)\<rparr>, Ret (validate (set_defaults pc)))"
    by (simp add: InitConfig_def load_direct_def go_simps Config_run andthen_Config)
  moreover have "validate (set_defaults pc) = None \<longleftrightarrow>
      ManagementSubnet pc \<noteq> [] \<and> list_all pool_ok (warm_pools pc)"
    by (simp add: validate_set_defaults list_all_iff)
  ultimately show ?thesis
    by (intro exI [of _ "validate (set_defaults pc)"] exI [of _ "set_defaults pc"] conjI
        set_defaults_defaulted)
qed

text \<open>
  The \<open>default\<close> tag on \<open>WarmPoolConfig.DesiredCount\<close> has no effect: the warm pools of the stored
  configuration have the counts that were loaded, so a pool that leaves \<open>DesiredCount\<close> out keeps 0 and
  does not get the documented 10.
\<close>

theorem InitConfig_pools_undefaulted:
  fixes s :: "('w, 'z) base_scheme"
  shows "\<exists>pc'. config (fst (InitConfig rf um (Some (DirectLoader pc)) s)) = Some pc' \<and>
    map DesiredCount (warm_pools pc') = map DesiredCount (warm_pools pc)"
  by (simp add: InitConfig_def load_direct_def go_simps Config_run andthen_Config
      set_defaults_keeps)

text \<open>
  Loading from a file: an unreadable file leaves the package variable as it was (nil at start-up,
  so the next \<open>Config()\<close> field read crashes); a file that does not parse leaves a configuration
  without defaults behind; in both cases \<open>InitConfig\<close> returns the loader's error.
\<close>

theorem InitConfig_file_errors:
  fixes s :: "('w, 'z) base_scheme"
  shows "(rf path (world s) = (Inl e, w) \<longrightarrow>
      InitConfig rf um (Some (FileLoader path)) s = (s\<lparr>world := w\<rparr>, Ret (Some e)) \<and>
      (config s = None \<longrightarrow> Config (s\<lparr>world := w\<rparr>) = (s\<lparr>world := w\<rparr>, Crash NilDeref))) \<and>
    (rf path (world s) = (Inr text, w) \<and> um text empty_config = (pc, Some e) \<longrightarrow>
      InitConfig rf um (Some (FileLoader path)) s =
        (s\<lparr>world := w, config := Some pc\<rparr>, Ret (Some e)))"
  by (simp add: InitConfig_def load_file_def go_simps Config_nil)

theorem InitConfig_file_errors_witness:
  "let s = \<lparr>world = (), config = None, counters = (\<lambda>_. 0), choices = [], clock = 0\<rparr>
   in InitConfig (\<lambda>_ w. (Inl (ErrorString ''no such file''), w)) (\<lambda>_ c. (c, None))
        (Some (FileLoader ''/etc/config/config.json'')) s
      = (s, Ret (Some (ErrorString ''no such file'')))"
  using InitConfig_file_errors [of "\<lambda>_ w. (Inl (ErrorString ''no such file''), w)"
      "''/etc/config/config.json''"
      "\<lparr>world = (), config = None, counters = (\<lambda>_. 0), choices = [], clock = 0\<rparr>"
      "ErrorString ''no such file''" "()" "\<lambda>_ c. (c, None)" undefined undefined]
  by (simp add: Let_def)

end
