(* ===== verification/K8s.thy ===== *)
theory K8s
  imports Base Go_Map
begin

text \<open>
  The Kubernetes objects the provider reads and writes (\<open>k8s.io/api/core/v1\<close>), with the fields the
  program uses, and the heap they live in: pods are passed by pointer, so a pod is an address, and two
  holders of the same address see each other's changes.  The notifier callbacks that
  \<open>NotifyPods\<close> installs are numbered; a call is recorded in \<open>notified\<close> with the pod as it was.
  A nil map is \<open>None\<close>.
\<close>

section \<open>Pods\<close>

record pod_condition =
  ConditionType :: string
  ConditionStatus :: string
  LastProbeTime :: nat
  LastTransitionTime :: nat
  ConditionMessage :: string

record container_terminated =
  TerminatedMessage :: string
  FinishedAt :: nat
  TerminatedReason :: string

record container_state =
  Waiting :: "(string \<times> string) option"
  Running :: "nat option"
  Terminated :: "container_terminated option"

record container_status =
  ContainerName :: string
  ContainerState :: container_state
  Ready :: bool
  RestartCount :: int
  Image :: string
  ContainerImageID :: string
  ContainerID :: string

record pod_status =
  Phase :: string
  Conditions :: "pod_condition list"
  StatusMessage :: string
  Reason :: string
  HostIP :: string
  PodIP :: string
  PodIPs :: "string list"
  ContainerStatuses :: "container_status list"

record pod =
  PodName :: string
  Namespace :: string
  UID :: string
  Annotations :: "(string, string) go_map option"
  Status :: pod_status

definition empty_status :: pod_status where
  "empty_status = \<lparr>Phase = [], Conditions = [], StatusMessage = [], Reason = [], HostIP = [],
     PodIP = [], PodIPs = [], ContainerStatuses = []\<rparr>"

text \<open>\<open>corev1.Pod{}\<close>.\<close>

definition empty_pod :: pod where
  "empty_pod = \<lparr>PodName = [], Namespace = [], UID = [], Annotations = None, Status = empty_status\<rparr>"

text \<open>Reading \<open>pod.Annotations[key]\<close>: the empty string when the key or the whole map is missing.\<close>

definition annotation :: "pod \<Rightarrow> string \<Rightarrow> string" where
  "annotation p key =
     (case Annotations p of
        None \<Rightarrow> []
      | Some m \<Rightarrow> (case lookup m key of None \<Rightarrow> [] | Some v \<Rightarrow> v))"

section \<open>The heap of pods and the notifiers\<close>

type_synonym pod_ref = nat

record 'w kube = "'w base" +
  pods_at :: "pod_ref \<Rightarrow> pod option"
  notified :: "(nat \<times> pod_ref \<times> pod) list"
  utilsNotifier :: "nat option"

definition load_pod :: "pod_ref \<Rightarrow> (('w, 'z) kube_scheme, pod) go" where
  "load_pod r = andthen (gets (\<lambda>s. pods_at s r)) deref"

definition store_pod :: "pod_ref \<Rightarrow> pod \<Rightarrow> (('w, 'z) kube_scheme, unit) go" where
  "store_pod r p = modify (\<lambda>s. s\<lparr>pods_at := (pods_at s)(r \<mapsto> p)\<rparr>)"

definition update_pod :: "pod_ref \<Rightarrow> (pod \<Rightarrow> pod) \<Rightarrow> (('w, 'z) kube_scheme, unit) go" where
  "update_pod r f = andthen (load_pod r) (\<lambda>p. store_pod r (f p))"

text \<open>\<open>pod.Annotations[key] = value\<close>: a write to a nil map panics.\<close>

definition set_annotation :: "pod_ref \<Rightarrow> string \<Rightarrow> string \<Rightarrow> (('w, 'z) kube_scheme, unit) go" where
  "set_annotation r key value =
     andthen (load_pod r) (\<lambda>p. case Annotations p of
         None \<Rightarrow> die NilMapWrite
       | Some m \<Rightarrow> store_pod r (p\<lparr>Annotations := Some (assign key value m)\<rparr>))"

text \<open>Calling a notifier variable with a pod; \<open>None\<close> is a nil function value.\<close>

definition call_notifier :: "nat option \<Rightarrow> pod_ref \<Rightarrow> (('w, 'z) kube_scheme, unit) go" where
  "call_notifier f r =
     (case f of
        None \<Rightarrow> die NilFuncCall
      | Some cb \<Rightarrow>
          andthen (load_pod r) (\<lambda>p.
          modify (\<lambda>s. s\<lparr>notified := notified s @ [(cb, r, p)]\<rparr>)))"

lemmas heap_ops = load_pod_def store_pod_def update_pod_def set_annotation_def call_notifier_def

lemma load_pod_run: "pods_at s r = Some p \<Longrightarrow> load_pod r s = (s, Ret p)"
  by (simp add: load_pod_def go_simps)

lemma andthen_load_pod: "pods_at s r = Some p \<Longrightarrow> andthen (load_pod r) f s = f p s"
  by (rule andthen_eqI) (rule load_pod_run)

lemma store_pod_run [go_simps]:
  "store_pod r p s = (s\<lparr>pods_at := (pods_at s)(r \<mapsto> p)\<rparr>, Ret ())"
  by (simp add: store_pod_def go_simps)

lemma update_pod_run:
  "pods_at s r = Some p \<Longrightarrow> update_pod r f s = (s\<lparr>pods_at := (pods_at s)(r \<mapsto> f p)\<rparr>, Ret ())"
  by (simp add: update_pod_def andthen_load_pod store_pod_run)

lemma set_annotation_run:
  "pods_at s r = Some p \<Longrightarrow>
   set_annotation r k v s =
     (case Annotations p of
        None \<Rightarrow> (s, Crash NilMapWrite)
      | Some m \<Rightarrow>
          (s\<lparr>pods_at := (pods_at s)(r \<mapsto> p\<lparr>Annotations := Some (assign k v m)\<rparr>)\<rparr>, Ret ()))"
  by (simp add: set_annotation_def load_pod_run go_simps split: option.splits)

lemma call_notifier_run:
  "pods_at s r = Some p \<Longrightarrow>
   call_notifier (Some cb) r s = (s\<lparr>notified := notified s @ [(cb, r, p)]\<rparr>, Ret ())"
  by (simp add: call_notifier_def load_pod_run go_simps)

lemma annotation_assign:
  "annotation (p\<lparr>Annotations := Some (assign k v m)\<rparr>) k = v"
  by (simp add: annotation_def lookup_def assign_def update_conv')

section \<open>A concrete state\<close>

definition sample_pod :: pod where
  "sample_pod = \<lparr>PodName = ''web'', Namespace = ''default'', UID = ''u-1'', Annotations = Some [],
     Status = empty_status\<lparr>PodIP := ''10.0.0.7'', PodIPs := [''10.0.0.7''], HostIP := ''10.0.0.7''\<rparr>\<rparr>"

definition sample_config :: ProviderConfig where
  "sample_config = set_defaults (empty_config\<lparr>ManagementSubnet := ''subnet-1''\<rparr>)"

definition sample_kube :: "'w \<Rightarrow> 'w kube" where
  "sample_kube w = \<lparr>world = w, config = Some sample_config, counters = (\<lambda>_. 0), choices = [],
     clock = 5, pods_at = [0 \<mapsto> sample_pod], notified = [], utilsNotifier = Some 9\<rparr>"

end
