(* ===== verification/Utils.thy ===== *)
theory Utils
  imports K8s
begin

text \<open>
  \<open>internal/utils\<close>: string splitting, pod cache keys, pod conditions, the warm pool test and the
  package-level notifier.
\<close>

section \<open>Definitions\<close>

definition CertManagerNamespace :: string where "CertManagerNamespace = ''cert-manager''"
definition VKCaCert :: string where "VKCaCert = ''vk-ca-cert''"
definition VKCaCertKey :: string where "VKCaCertKey = ''vk-ca-cert-key''"
definition VKClientCert :: string where "VKClientCert = ''vk-client-cert''"
definition VKClientCertKey :: string where "VKClientCertKey = ''vk-client-cert-key''"
definition VKClientCertData :: string where "VKClientCertData = ''vk-client-cert-data''"
definition VKCaCertData :: string where "VKCaCertData = ''vk-ca-cert-data''"

definition TrimmedStringSplit :: "string \<Rightarrow> string \<Rightarrow> string list" where
  "TrimmedStringSplit input sep = map (trim (CHR '' '')) (Split input sep)"

definition GetPodCacheKey :: "string \<Rightarrow> string \<Rightarrow> string" where
  "GetPodCacheKey namespace name = namespace @ ''-'' @ name"

definition PodIsWarmPool :: "pod \<Rightarrow> nat \<Rightarrow> bool" where
  "PodIsWarmPool p configLength = (if configLength > 0 then True else False)"

definition GetPodCondition ::
  "string \<Rightarrow> string \<Rightarrow> string \<Rightarrow> (('w, 'z) base_scheme, pod_condition) go" where
  "GetPodCondition conditionType conditionStatus message =
     andthen Now (\<lambda>t1. andthen Now (\<lambda>t2.
     ret \<lparr>ConditionType = conditionType, ConditionStatus = conditionStatus, LastProbeTime = t1,
       LastTransitionTime = t2, ConditionMessage = message\<rparr>))"

text \<open>The loop of \<open>UpdateOrAppendPodCondition\<close>: \<open>updated\<close> and the conditions after it.\<close>

fun update_conditions ::
  "pod_condition \<Rightarrow> bool \<Rightarrow> pod_condition list \<Rightarrow> bool \<times> pod_condition list" where
  "update_conditions new updated [] = (updated, [])"
| "update_conditions new updated (c # cs) =
     (if ConditionType c = ConditionType new
      then (case update_conditions new True cs of (u, cs') \<Rightarrow>
              (u, c\<lparr>ConditionStatus := ConditionStatus new,
                    ConditionMessage := ConditionMessage new\<rparr> # cs'))
      else (case update_conditions new updated cs of (u, cs') \<Rightarrow> (u, c # cs')))"

definition update_or_append :: "pod_condition \<Rightarrow> pod_condition list \<Rightarrow> pod_condition list" where
  "update_or_append new cs =
     (case update_conditions new False cs of (updated, cs') \<Rightarrow>
        if \<not> updated then cs' @ [new] else cs')"

definition UpdateOrAppendPodCondition ::
  "pod_ref \<Rightarrow> pod_condition \<Rightarrow> (('w, 'z) kube_scheme, unit) go" where
  "UpdateOrAppendPodCondition r new =
     update_pod r (\<lambda>p. p\<lparr>Status := (Status p)\<lparr>Conditions :=
       update_or_append new (Conditions (Status p))\<rparr>\<rparr>)"

definition ReplaceCompute :: "pod_ref \<Rightarrow> (('w, 'z) kube_scheme, go_error option) go" where
  "ReplaceCompute r = ret None"

definition GetNotifier :: "(('w, 'z) kube_scheme, nat option) go" where
  "GetNotifier = gets utilsNotifier"

definition SetNotifier :: "nat option \<Rightarrow> (('w, 'z) kube_scheme, unit) go" where
  "SetNotifier f = modify (\<lambda>s. s\<lparr>utilsNotifier := f\<rparr>)"

section \<open>Facts\<close>

text \<open>How a list of values is written with separator \<open>c\<close>, each padded with blanks on both sides.\<close>

definition padded :: "nat \<Rightarrow> nat \<Rightarrow> string \<Rightarrow> string" where
  "padded m n s = replicate m (CHR '' '') @ s @ replicate n (CHR '' '')"

text \<open>
  Splitting undoes joining: a non-empty list of values that neither contain the separator nor
  start or end with a blank, written with any number of blanks around each value, is read back
  unchanged.
\<close>

theorem TrimmedStringSplit_roundtrip:
  assumes "xs \<noteq> []" and "c \<noteq> CHR '' ''"
    and "\<forall>x \<in> set xs. c \<notin> set x \<and> unpadded (CHR '' '') x"
  shows "TrimmedStringSplit (join [c] (map (\<lambda>x. padded (m x) (n x) x) xs)) [c] = xs"
proof -
  have "split_on [c] [] (join [c] (map (\<lambda>x. padded (m x) (n x) x) xs)) =
      map (\<lambda>x. padded (m x) (n x) x) xs"
    using assms by (intro split_on_byte_join) (auto simp: padded_def)
  moreover have "trim (CHR '' '') (padded (m x) (n x) x) = x" if "x \<in> set xs" for x
    using assms(3) that by (simp add: padded_def trim_padded)
  ultimately show ?thesis
    by (simp add: TrimmedStringSplit_def Split_def map_idI)
qed

theorem TrimmedStringSplit_roundtrip_witness:
  "TrimmedStringSplit '' sg-1 , sg-2'' '','' = [''sg-1'', ''sg-2'']"
  using TrimmedStringSplit_roundtrip [of "[''sg-1'', ''sg-2'']" "CHR '',''" "\<lambda>_. 1"
      "\<lambda>x. if x = ''sg-1'' then 1 else 0"]
  by (simp add: padded_def unpadded_def)

text \<open>An annotation that is missing gives one empty value, not none.\<close>

lemma TrimmedStringSplit_empty: "TrimmedStringSplit [] '','' = [[]]"
  by (simp add: TrimmedStringSplit_def Split_def trim_def)

lemma TrimmedStringSplit_pieces:
  "p \<in> set (TrimmedStringSplit s [c]) \<Longrightarrow> unpadded (CHR '' '') p"
  by (auto simp: TrimmedStringSplit_def unpadded_trim)

text \<open>Keys of the pod cache.\<close>

lemma GetPodCacheKey_inj:
  assumes "GetPodCacheKey ns n = GetPodCacheKey ns' n'"
    and "CHR ''-'' \<notin> set ns" and "CHR ''-'' \<notin> set ns'"
  shows "ns = ns' \<and> n = n'"
proof -
  have "split_on ''-'' [] (ns @ CHR ''-'' # n) = split_on ''-'' [] (ns' @ CHR ''-'' # n')"
    using assms(1) by (simp add: GetPodCacheKey_def)
  then have "ns = ns'"
    using assms(2,3) by (simp add: split_on_byte_append)
  with assms(1) show ?thesis by (simp add: GetPodCacheKey_def)
qed

text \<open>
  The cache key of a pod does not determine the pod: it is unique among namespaces without a dash,
  but two different pods whose names or namespaces hold dashes can share one.
\<close>

theorem GetPodCacheKey_ambiguous:
  "(\<exists>ns n ns' n'. (ns, n) \<noteq> (ns', n') \<and> GetPodCacheKey ns n = GetPodCacheKey ns' n') \<and>
   inj_on (\<lambda>(ns, n). GetPodCacheKey ns n) {(ns, n). CHR ''-'' \<notin> set ns}"
proof
  have "GetPodCacheKey ''team'' ''a-web'' = GetPodCacheKey ''team-a'' ''web''"
    by (simp add: GetPodCacheKey_def)
  moreover have "(''team'', ''a-web'') \<noteq> (''team-a'', ''web'')"
    by simp
  ultimately show "\<exists>ns n ns' n'. (ns, n) \<noteq> (ns', n') \<and> GetPodCacheKey ns n = GetPodCacheKey ns' n'"
    by (intro exI conjI)
  show "inj_on (\<lambda>(ns, n). GetPodCacheKey ns n) {(ns, n). CHR ''-'' \<notin> set ns}"
    by (rule inj_onI) (auto dest: GetPodCacheKey_inj)
qed

text \<open>Conditions.\<close>

text \<open>The update of one condition by a new one of its type.\<close>

definition renew :: "pod_condition \<Rightarrow> pod_condition \<Rightarrow> pod_condition" where
  "renew new c =
     (if ConditionType c = ConditionType new
      then c\<lparr>ConditionStatus := ConditionStatus new, ConditionMessage := ConditionMessage new\<rparr>
      else c)"

lemma renew_type [simp]: "ConditionType (renew new c) = ConditionType c"
  by (simp add: renew_def)

lemma update_conditions_eq:
  "update_conditions new u cs =
     (u \<or> ConditionType new \<in> ConditionType ` set cs, map (renew new) cs)"
  by (induction new u cs rule: update_conditions.induct) (auto simp: renew_def)

lemma update_or_append_eq:
  "update_or_append new cs =
     (if ConditionType new \<in> ConditionType ` set cs then map (renew new) cs else cs @ [new])"
proof -
  have "map (renew new) cs = cs" if "ConditionType new \<notin> ConditionType ` set cs"
    using that by (intro map_idI) (force simp: renew_def image_iff)
  then show ?thesis
    by (auto simp: update_or_append_def update_conditions_eq)
qed

lemma filter_renew_other:
  "filter (\<lambda>c. ConditionType c \<noteq> ConditionType new) (map (renew new) cs) =
     filter (\<lambda>c. ConditionType c \<noteq> ConditionType new) cs"
  by (induction cs) (simp_all add: renew_def)

lemma filter_type_unique:
  assumes "distinct (map ConditionType cs)" and "t \<in> ConditionType ` set cs"
  shows "\<exists>c. ConditionType c = t \<and> filter (\<lambda>c. ConditionType c = t) cs = [c]"
  using assms
proof (induction cs)
  case (Cons c cs)
  show ?case
  proof (cases "ConditionType c = t")
    case True
    with Cons.prems have "filter (\<lambda>c. ConditionType c = t) cs = []"
      by (force simp: filter_empty_conv image_iff)
    with True show ?thesis by simp
  next
    case False
    with Cons show ?thesis by auto
  qed
qed simp

text \<open>
  \<open>UpdateOrAppendPodCondition\<close> leaves exactly one condition per type when there was at most one
  before, that of the new type then has the new status and message, and every condition of another
  type is untouched and in its place.
\<close>

theorem update_or_append_correct:
  assumes "distinct (map ConditionType cs)"
  shows "distinct (map ConditionType (update_or_append new cs)) \<and>
    filter (\<lambda>c. ConditionType c \<noteq> ConditionType new) (update_or_append new cs) =
      filter (\<lambda>c. ConditionType c \<noteq> ConditionType new) cs \<and>
    map (\<lambda>c. (ConditionStatus c, ConditionMessage c))
        (filter (\<lambda>c. ConditionType c = ConditionType new) (update_or_append new cs)) =
      [(ConditionStatus new, ConditionMessage new)]"
proof (cases "ConditionType new \<in> ConditionType ` set cs")
  case True
  then obtain c where c: "ConditionType c = ConditionType new"
      "filter (\<lambda>c. ConditionType c = ConditionType new) cs = [c]"
    using filter_type_unique [OF assms] by metis
  have "filter (\<lambda>c. ConditionType c = ConditionType new) (map (renew new) cs) =
      map (renew new) (filter (\<lambda>c. ConditionType c = ConditionType new) cs)"
    by (simp add: filter_map comp_def)
  with True c assms show ?thesis
    by (simp add: update_or_append_eq filter_renew_other comp_def) (simp add: renew_def)
next
  case False
  then have "filter (\<lambda>c. ConditionType c = ConditionType new) cs = []"
    by (force simp: filter_empty_conv image_iff)
  with False assms show ?thesis by (simp add: update_or_append_eq)
qed

theorem update_or_append_correct_witness:
  "let old = \<lparr>ConditionType = ''Ready'', ConditionStatus = ''False'', LastProbeTime = 1,
        LastTransitionTime = 1, ConditionMessage = ''booting''\<rparr>;
       new = \<lparr>ConditionType = ''Ready'', ConditionStatus = ''True'', LastProbeTime = 2,
        LastTransitionTime = 2, ConditionMessage = ''ok''\<rparr>
   in map ConditionStatus (update_or_append new [old]) = [''True'']"
  using update_or_append_correct [of
      "[\<lparr>ConditionType = ''Ready'', ConditionStatus = ''False'', LastProbeTime = 1,
        LastTransitionTime = 1, ConditionMessage = ''booting''\<rparr>]"
      "\<lparr>ConditionType = ''Ready'', ConditionStatus = ''True'', LastProbeTime = 2,
        LastTransitionTime = 2, ConditionMessage = ''ok''\<rparr>"]
  by (simp add: update_or_append_eq renew_def)

end
