(* ===== verification/Health.thy ===== *)
theory Health
  imports Utils
begin

text \<open>
  \<open>internal/health\<close>, the sequential part: monitors and their failure counters (\<open>monitor.go\<close>), the
  check handler (\<open>handler.go\<close>) and pod monitors (\<open>health.go\<close>).  Monitors, handlers and pod monitors
  are reached through pointers, so they live in heaps; \<open>fresh_ref\<close> is the next free address.  The
  goroutines that produce and consume check results are in \<open>Health_Loops\<close>.
\<close>

section \<open>Data\<close>

datatype Subject = SubjectUnknown | SubjectVkvma | SubjectApp

datatype MonitoringState =
  MonitoringStateUnknown | MonitoringStateHealthy | MonitoringStateUnhealthy

text \<open>
  The stream a monitor's \<open>getStream\<close> opens: \<open>Watch\<close> of the health service or
  \<open>WatchApplicationHealth\<close> of the application service.
\<close>

datatype stream_kind = HealthWatch | ApplicationWatch

record monitor =
  Resource :: pod_ref
  MonSubject :: Subject
  MonName :: string
  Failures :: int
  MonState :: MonitoringState
  IsMonitoring :: bool
  isWatcher :: bool
  getStream :: "stream_kind option"
  handlerReceiver :: "nat option"

text \<open>
  The \<open>Data\<close> of a check result, an interface value: nil, a \<open>*PodStatus\<close> (which may be a nil
  pointer), or a pointer to a health response.
\<close>

datatype check_data = NoData | PodStatusData "pod_status option" | HealthResponseData

record checkResult =
  ResultMonitor :: nat
  Failed :: bool
  Message :: string
  Timestamp :: nat
  Data :: check_data

record CheckHandler =
  in_chan :: nat
  IsReceiving :: bool

record PodMonitor =
  Monitors :: "nat list"
  pm_config :: HealthConfig
  pm_pod :: pod_ref
  pm_handler :: nat
  pm_cancel :: "nat option"

record 'w health = "'w kube" +
  monitors_at :: "nat \<Rightarrow> monitor option"
  handlers_at :: "nat \<Rightarrow> CheckHandler option"
  podmons_at :: "nat \<Rightarrow> PodMonitor option"
  cancelled_ctxs :: "nat list"
  fresh_ref :: nat

definition new_ref :: "(('w, 'z) health_scheme, nat) go" where
  "new_ref =
     andthen (gets fresh_ref) (\<lambda>r.
     andthen (modify (\<lambda>s. s\<lparr>fresh_ref := Suc r\<rparr>)) (\<lambda>_. ret r))"

definition load_monitor :: "nat \<Rightarrow> (('w, 'z) health_scheme, monitor) go" where
  "load_monitor r = andthen (gets (\<lambda>s. monitors_at s r)) deref"

definition store_monitor :: "nat \<Rightarrow> monitor \<Rightarrow> (('w, 'z) health_scheme, unit) go" where
  "store_monitor r m = modify (\<lambda>s. s\<lparr>monitors_at := (monitors_at s)(r \<mapsto> m)\<rparr>)"

definition load_handler :: "nat \<Rightarrow> (('w, 'z) health_scheme, CheckHandler) go" where
  "load_handler r = andthen (gets (\<lambda>s. handlers_at s r)) deref"

definition store_handler :: "nat \<Rightarrow> CheckHandler \<Rightarrow> (('w, 'z) health_scheme, unit) go" where
  "store_handler r h = modify (\<lambda>s. s\<lparr>handlers_at := (handlers_at s)(r \<mapsto> h)\<rparr>)"

definition load_podmon :: "nat \<Rightarrow> (('w, 'z) health_scheme, PodMonitor) go" where
  "load_podmon r = andthen (gets (\<lambda>s. podmons_at s r)) deref"

definition store_podmon :: "nat \<Rightarrow> PodMonitor \<Rightarrow> (('w, 'z) health_scheme, unit) go" where
  "store_podmon r pm = modify (\<lambda>s. s\<lparr>podmons_at := (podmons_at s)(r \<mapsto> pm)\<rparr>)"

lemmas health_heap = new_ref_def load_monitor_def store_monitor_def load_handler_def
  store_handler_def load_podmon_def store_podmon_def

section \<open>Monitors\<close>

text \<open>\<open>resetFailures\<close> and \<open>incrementFailures\<close>: the change to the monitor, then with the metric.\<close>

definition reset_monitor :: "monitor \<Rightarrow> monitor" where
  "reset_monitor m = m\<lparr>Failures := 0, MonState := MonitoringStateHealthy\<rparr>"

definition resetFailures :: "nat \<Rightarrow> (('w, 'z) health_scheme, unit) go" where
  "resetFailures r =
     andthen (load_monitor r) (\<lambda>m.
     andthen (store_monitor r (reset_monitor m)) (\<lambda>_.
     Inc HealthCheckStateReset))"

definition increment_monitor :: "int \<Rightarrow> monitor \<Rightarrow> monitor" where
  "increment_monitor unhealthyThreshold m =
     (let m = m\<lparr>Failures := Failures m + 1\<rparr>
      in if Failures m \<ge> unhealthyThreshold then m\<lparr>MonState := MonitoringStateUnhealthy\<rparr> else m)"

definition incrementFailures :: "int \<Rightarrow> nat \<Rightarrow> (('w, 'z) health_scheme, unit) go" where
  "incrementFailures unhealthyThreshold r =
     andthen (load_monitor r) (\<lambda>m.
     andthen (store_monitor r (increment_monitor unhealthyThreshold m)) (\<lambda>_.
     if Failures m + 1 \<ge> unhealthyThreshold then Inc HealthCheckStateUnhealthy else ret ()))"

definition getState :: "nat \<Rightarrow> (('w, 'z) health_scheme, MonitoringState) go" where
  "getState r = andthen (load_monitor r) (\<lambda>m. ret (MonState m))"

text \<open>The coloured circles of \<open>String\<close>: the four bytes of their UTF-8 encoding.\<close>

definition orb :: "nat \<Rightarrow> nat \<Rightarrow> string" where
  "orb b3 b4 = [char_of (0xF0::nat), char_of (0x9F::nat), char_of b3, char_of b4]"

definition orange_orb :: string where "orange_orb = orb 0x9F 0xA0"
definition green_orb :: string where "green_orb = orb 0x9F 0xA2"
definition red_orb :: string where "red_orb = orb 0x94 0xB4"
definition blue_orb :: string where "blue_orb = orb 0x94 0xB5"

definition monitor_String :: "monitor \<Rightarrow> string" where
  "monitor_String m = (let mString = MonName m @ '':'' in
     case MonState m of
       MonitoringStateHealthy \<Rightarrow>
         (if Failures m > 0 then mString @ orange_orb else mString @ green_orb)
     | MonitoringStateUnhealthy \<Rightarrow> mString @ red_orb
     | MonitoringStateUnknown \<Rightarrow> mString @ blue_orb)"

definition NewCheckResult ::
  "nat \<Rightarrow> bool \<Rightarrow> string \<Rightarrow> check_data \<Rightarrow> (('w, 'z) health_scheme, checkResult) go" where
  "NewCheckResult r failed message data =
     andthen Now (\<lambda>t.
     andthen Config (\<lambda>cfg.
     andthen (if failed then incrementFailures (UnhealthyThresholdCount (HealthConf cfg)) r
              else resetFailures r) (\<lambda>_.
     ret \<lparr>ResultMonitor = r, Failed = failed, Message = message, Timestamp = t, Data = data\<rparr>)))"

definition NewMonitor ::
  "pod_ref \<Rightarrow> Subject \<Rightarrow> string \<Rightarrow> (('w, 'z) health_scheme, nat) go" where
  "NewMonitor resource subject name =
     andthen new_ref (\<lambda>r.
     andthen (store_monitor r \<lparr>Resource = resource, MonSubject = subject, MonName = name,
       Failures = 0, MonState = MonitoringStateUnknown, IsMonitoring = False, isWatcher = False,
       getStream = None, handlerReceiver = None\<rparr>) (\<lambda>_.
     ret r))"

section \<open>The check handler\<close>

definition NewCheckHandler :: "(('w, 'z) health_scheme, nat) go" where
  "NewCheckHandler =
     andthen new_ref (\<lambda>ch.
     andthen new_ref (\<lambda>r.
     andthen (store_handler r \<lparr>in_chan = ch, IsReceiving = False\<rparr>) (\<lambda>_.
     ret r)))"

text \<open>
  The states and subjects of the inner switches only choose what is logged, so those branches do
  nothing here.
\<close>

definition handleCheckResult :: "checkResult \<Rightarrow> (('w, 'z) health_scheme, unit) go" where
  "handleCheckResult result =
     andthen (load_monitor (ResultMonitor result)) (\<lambda>monitor.
     andthen (load_pod (Resource monitor)) (\<lambda>_.
     andthen (getState (ResultMonitor result)) (\<lambda>st.
     andthen
       (case st of
          MonitoringStateHealthy \<Rightarrow> ret ()
        | MonitoringStateUnhealthy \<Rightarrow>
            (case MonSubject monitor of
               SubjectVkvma \<Rightarrow> ret () | SubjectApp \<Rightarrow> ret () | _ \<Rightarrow> ret ())
        | MonitoringStateUnknown \<Rightarrow> ret ()) (\<lambda>_.
     case Data result of
       NoData \<Rightarrow> ret ()
     | HealthResponseData \<Rightarrow> ret ()
     | PodStatusData ptr \<Rightarrow>
         andthen (deref ptr) (\<lambda>podStatus.
         andthen (update_pod (Resource monitor) (\<lambda>p. p\<lparr>Status := podStatus\<lparr>
             PodIP := PodIP (Status p), PodIPs := PodIPs (Status p),
             HostIP := HostIP (Status p)\<rparr>\<rparr>)) (\<lambda>_.
         andthen GetNotifier (\<lambda>notifier.
         if notifier \<noteq> None then call_notifier notifier (Resource monitor) else ret ())))))))"

section \<open>Pod monitors\<close>

definition setPodHandler :: "pod_ref \<Rightarrow> nat \<Rightarrow> nat" where
  "setPodHandler p handler = handler"

text \<open>One of the two monitors \<open>createMonitors\<close> makes.\<close>

definition create_watcher ::
  "pod_ref \<Rightarrow> nat \<Rightarrow> Subject \<Rightarrow> string \<Rightarrow> stream_kind \<Rightarrow> (('w, 'z) health_scheme, nat) go" where
  "create_watcher p chan subject name kind =
     andthen (NewMonitor p subject name) (\<lambda>r.
     andthen (load_monitor r) (\<lambda>m.
     andthen (store_monitor r (m\<lparr>handlerReceiver := Some chan, isWatcher := True,
       getStream := Some kind\<rparr>)) (\<lambda>_.
     ret r)))"

definition createMonitors :: "nat \<Rightarrow> (('w, 'z) health_scheme, unit) go" where
  "createMonitors pmr =
     andthen (load_podmon pmr) (\<lambda>pm.
     andthen (load_handler (pm_handler pm)) (\<lambda>h.
     andthen (create_watcher (pm_pod pm) (in_chan h) SubjectVkvma ''vkvma.watch'' HealthWatch) (\<lambda>v.
     andthen (create_watcher (pm_pod pm) (in_chan h) SubjectApp ''app.watch'' ApplicationWatch) (\<lambda>a.
     store_podmon pmr (pm\<lparr>Monitors := [v, a]\<rparr>)))))"

definition NewPodMonitor ::
  "pod_ref \<Rightarrow> nat \<Rightarrow> (('w, 'z) health_scheme, go_error + nat) go" where
  "NewPodMonitor p handler =
     andthen Config (\<lambda>cfg.
     andthen new_ref (\<lambda>pmr.
     andthen (store_podmon pmr \<lparr>Monitors = [], pm_config = HealthConf cfg, pm_pod = p,
       pm_handler = setPodHandler p handler, pm_cancel = None\<rparr>) (\<lambda>_.
     andthen (createMonitors pmr) (\<lambda>_.
     ret (Inr pmr)))))"

text \<open>The part of \<open>receive\<close> and of \<open>Run\<close> that runs before their goroutines are on their own.\<close>

definition receive :: "nat \<Rightarrow> (('w, 'z) health_scheme, unit) go" where
  "receive h = andthen (load_handler h) (\<lambda>ch. store_handler h (ch\<lparr>IsReceiving := True\<rparr>))"

definition Run :: "nat \<Rightarrow> (('w, 'z) health_scheme, unit) go" where
  "Run r =
     andthen (load_monitor r) (\<lambda>m.
     andthen (store_monitor r (m\<lparr>IsMonitoring := True\<rparr>)) (\<lambda>_.
     andthen Config (\<lambda>cfg. ret ())))"

definition Start :: "nat \<Rightarrow> (('w, 'z) health_scheme, unit) go" where
  "Start pmr =
     andthen new_ref (\<lambda>ctx.
     andthen (load_podmon pmr) (\<lambda>pm.
     andthen (store_podmon pmr (pm\<lparr>pm_cancel := Some ctx\<rparr>)) (\<lambda>_.
     andthen (receive (pm_handler pm)) (\<lambda>_.
     for_each Run (Monitors pm)))))"

text \<open>
  \<open>stop_receiver\<close> and \<open>stop_monitor\<close> are what the handler's and a monitor's goroutine do when they see
  the cancelled context, before they leave the wait group.  The code's \<open>Stop\<close> only cancels and waits for
  them: \<open>Stop\<close> here is the run in which \<open>waitGroup.Wait\<close> returns, with the marks all of them have made by then.
  \<open>Health_Loops\<close> shows that every run in which the wait is over leaves these marks, and that there are runs
  in which it never is.
\<close>

definition stop_receiver :: "nat \<Rightarrow> (('w, 'z) health_scheme, unit) go" where
  "stop_receiver h = andthen (load_handler h) (\<lambda>ch. store_handler h (ch\<lparr>IsReceiving := False\<rparr>))"

definition stop_monitor :: "nat \<Rightarrow> (('w, 'z) health_scheme, unit) go" where
  "stop_monitor r =
     andthen (load_monitor r) (\<lambda>m.
     store_monitor r (m\<lparr>MonState := MonitoringStateUnknown, IsMonitoring := False\<rparr>))"

definition Stop :: "nat \<Rightarrow> (('w, 'z) health_scheme, unit) go" where
  "Stop pmr =
     andthen (load_podmon pmr) (\<lambda>pm.
     case pm_cancel pm of
       None \<Rightarrow> die NilFuncCall
     | Some ctx \<Rightarrow>
         andthen (modify (\<lambda>s. s\<lparr>cancelled_ctxs := ctx # cancelled_ctxs s\<rparr>)) (\<lambda>_.
         andthen (stop_receiver (pm_handler pm)) (\<lambda>_.
         for_each stop_monitor (Monitors pm))))"

section \<open>Running the operations\<close>

lemma load_monitor_run: "monitors_at s r = Some m \<Longrightarrow> load_monitor r s = (s, Ret m)"
  by (simp add: load_monitor_def go_simps)

lemma load_handler_run: "handlers_at s r = Some h \<Longrightarrow> load_handler r s = (s, Ret h)"
  by (simp add: load_handler_def go_simps)

lemma load_podmon_run: "podmons_at s r = Some pm \<Longrightarrow> load_podmon r s = (s, Ret pm)"
  by (simp add: load_podmon_def go_simps)

lemma store_runs [go_simps]:
  "store_monitor r m s = (s\<lparr>monitors_at := (monitors_at s)(r \<mapsto> m)\<rparr>, Ret ())"
  "store_handler r h s = (s\<lparr>handlers_at := (handlers_at s)(r \<mapsto> h)\<rparr>, Ret ())"
  "store_podmon r pm s = (s\<lparr>podmons_at := (podmons_at s)(r \<mapsto> pm)\<rparr>, Ret ())"
  by (simp_all add: health_heap go_simps)

lemma new_ref_run [go_simps]: "new_ref s = (s\<lparr>fresh_ref := Suc (fresh_ref s)\<rparr>, Ret (fresh_ref s))"
  by (simp add: new_ref_def go_simps)

lemmas heap_runs = load_monitor_run load_handler_run load_podmon_run load_pod_run
  update_pod_run call_notifier_run Config_run set_annotation_run

section \<open>Failure counting\<close>

text \<open>What one observation does to a monitor.\<close>

definition observe :: "int \<Rightarrow> bool \<Rightarrow> monitor \<Rightarrow> monitor" where
  "observe thr failed m = (if failed then increment_monitor thr m else reset_monitor m)"

definition observe_metric :: "int \<Rightarrow> bool \<Rightarrow> monitor \<Rightarrow> metric option" where
  "observe_metric thr failed m =
     (if \<not> failed then Some HealthCheckStateReset
      else if thr \<le> Failures m + 1 then Some HealthCheckStateUnhealthy else None)"

definition bump :: "metric option \<Rightarrow> (metric \<Rightarrow> nat) \<Rightarrow> metric \<Rightarrow> nat" where
  "bump x c = (case x of None \<Rightarrow> c | Some k \<Rightarrow> c(k := Suc (c k)))"

lemma NewCheckResult_run:
  assumes "config s = Some cfg" and "monitors_at s r = Some m"
  shows "NewCheckResult r failed message data s =
    (s\<lparr>monitors_at := (monitors_at s)(r \<mapsto>
         observe (UnhealthyThresholdCount (HealthConf cfg)) failed m),
       counters := bump (observe_metric (UnhealthyThresholdCount (HealthConf cfg)) failed m)
         (counters s)\<rparr>,
     Ret \<lparr>ResultMonitor = r, Failed = failed, Message = message, Timestamp = clock s,
       Data = data\<rparr>)"
  using assms
  by (simp add: NewCheckResult_def incrementFailures_def resetFailures_def go_simps heap_runs
      observe_def observe_metric_def bump_def)

text \<open>The number of failures at the end of a history of observations (\<open>True\<close> is a failure).\<close>

definition trailing_failures :: "bool list \<Rightarrow> nat" where
  "trailing_failures bs = length (takeWhile (\<lambda>b. b) (rev bs))"

definition health_of :: "int \<Rightarrow> bool list \<Rightarrow> MonitoringState" where
  "health_of thr bs =
     (let k = trailing_failures bs
      in if 0 < k \<and> thr \<le> int k then MonitoringStateUnhealthy
         else if False \<in> set bs then MonitoringStateHealthy
         else MonitoringStateUnknown)"

lemma trailing_failures_snoc:
  "trailing_failures (bs @ [b]) = (if b then Suc (trailing_failures bs) else 0)"
  by (simp add: trailing_failures_def)

lemma fold_observe:
  assumes "Failures m = 0" and "MonState m = MonitoringStateUnknown"
  shows "fold (observe thr) bs m =
    m\<lparr>Failures := int (trailing_failures bs), MonState := health_of thr bs\<rparr>"
proof (induction bs rule: rev_induct)
  case Nil
  from assms show ?case by (simp add: trailing_failures_def health_of_def)
next
  case (snoc b bs)
  then show ?case
    by (auto simp: observe_def increment_monitor_def reset_monitor_def Let_def health_of_def
        trailing_failures_snoc)
qed

text \<open>A run of check results on one monitor, as its goroutine produces them.\<close>

definition check_history :: "nat \<Rightarrow> bool list \<Rightarrow> (('w, 'z) health_scheme, unit) go" where
  "check_history r bs =
     for_each (\<lambda>b. andthen (NewCheckResult r b [] NoData) (\<lambda>_. ret ())) bs"

lemma check_history_run:
  assumes "config s = Some cfg" and "monitors_at s r = Some m"
    and "thr = UnhealthyThresholdCount (HealthConf cfg)"
  shows "\<exists>c. check_history r bs s =
    (s\<lparr>monitors_at := (monitors_at s)(r \<mapsto> fold (observe thr) bs m), counters := c\<rparr>, Ret ())"
  using assms
proof (induction bs arbitrary: s m)
  case Nil
  then have "s\<lparr>monitors_at := (monitors_at s)(r \<mapsto> m), counters := counters s\<rparr> = s"
    by (cases s) (simp add: map_upd_triv)
  then have "check_history r [] s = (s\<lparr>monitors_at := (monitors_at s)(r \<mapsto> fold (observe thr) [] m),
      counters := counters s\<rparr>, Ret ())"
    by (simp add: check_history_def ret_run)
  then show ?case by blast
next
  case (Cons b bs)
  let ?s = "s\<lparr>monitors_at := (monitors_at s)(r \<mapsto> observe thr b m),
      counters := bump (observe_metric thr b m) (counters s)\<rparr>"
  have step: "check_history r (b # bs) s = check_history r bs ?s"
    using Cons.prems by (simp add: check_history_def go_simps NewCheckResult_run)
  have "config ?s = Some cfg" "monitors_at ?s r = Some (observe thr b m)"
    using Cons.prems by simp_all
  from Cons.IH [OF this Cons.prems(3)] obtain c where
    "check_history r bs ?s = (?s\<lparr>monitors_at := (monitors_at ?s)(r \<mapsto>
        fold (observe thr) bs (observe thr b m)), counters := c\<rparr>, Ret ())" ..
  then show ?case
    by (intro exI [of _ c], subst step, simp only: fold_simps) simp
qed

text \<open>
  C13: a monitor's health is a function of its history: after any sequence of check results on a new
  monitor, \<open>Failures\<close> is the length of the run of failures at the end, the state is unhealthy exactly
  when that run is not empty and reaches the threshold, otherwise healthy if any check ever
  succeeded and unknown if none did; no other monitor changes.
\<close>

theorem monitor_health_of_history:
  fixes s :: "('w, 'z) health_scheme"
  assumes "config s = Some cfg" and "monitors_at s r = Some m"
    and "Failures m = 0" and "MonState m = MonitoringStateUnknown"
  shows "\<exists>c. check_history r bs s =
    (s\<lparr>monitors_at := (monitors_at s)(r \<mapsto>
        m\<lparr>Failures := int (trailing_failures bs),
          MonState := health_of (UnhealthyThresholdCount (HealthConf cfg)) bs\<rparr>),
      counters := c\<rparr>, Ret ())"
  using check_history_run [OF assms(1,2) refl, of bs] by (simp add: fold_observe [OF assms(3,4)])

text \<open>A concrete state: \<open>sample_pod\<close> at address 0, a handler at address 1, a monitor at address 2.\<close>

definition sample_monitor :: monitor where
  "sample_monitor = \<lparr>Resource = 0, MonSubject = SubjectApp, MonName = ''app.watch'', Failures = 0,
     MonState = MonitoringStateUnknown, IsMonitoring = False, isWatcher = True,
     getStream = Some ApplicationWatch, handlerReceiver = Some 0\<rparr>"

definition sample_health :: "unit health" where
  "sample_health = \<lparr>world = (), config = Some sample_config, counters = (\<lambda>_. 0), choices = [],
     clock = 5, pods_at = [0 \<mapsto> sample_pod], notified = [], utilsNotifier = Some 9,
     monitors_at = [2 \<mapsto> sample_monitor], handlers_at = [1 \<mapsto> \<lparr>in_chan = 0, IsReceiving = False\<rparr>],
     podmons_at = Map.empty, cancelled_ctxs = [], fresh_ref = 3\<rparr>"

lemmas health_samples = sample_pod_def sample_config_def sample_monitor_def sample_health_def
  empty_status_def

theorem monitor_health_of_history_witness:
  "\<exists>c. check_history 2 [False, True, True, True, True, True] sample_health =
    (sample_health\<lparr>monitors_at := (monitors_at sample_health)(2 \<mapsto>
       sample_monitor\<lparr>Failures := 5, MonState := MonitoringStateUnhealthy\<rparr>), counters := c\<rparr>, Ret ())"
proof -
  have "health_of (UnhealthyThresholdCount (HealthConf sample_config))
      [False, True, True, True, True, True] = MonitoringStateUnhealthy"
    and "trailing_failures [False, True, True, True, True, True] = 5"
    by (simp_all add: health_of_def trailing_failures_def sample_config_def empty_config_def
        defaults_defs)
  then show ?thesis
    using monitor_health_of_history [of sample_health sample_config 2 sample_monitor
        "[False, True, True, True, True, True]"]
    by (simp add: sample_health_def sample_monitor_def)
qed

section \<open>Handling results\<close>

text \<open>The pod status the handler stores: the reported one with the pod's own addresses.\<close>

definition merged_status :: "pod_status \<Rightarrow> pod_status \<Rightarrow> pod_status" where
  "merged_status old reported =
     reported\<lparr>PodIP := PodIP old, PodIPs := PodIPs old, HostIP := HostIP old\<rparr>"

lemma handleCheckResult_run:
  assumes "monitors_at s (ResultMonitor result) = Some m" and "pods_at s (Resource m) = Some p"
  shows "handleCheckResult result s =
    (case Data result of
       PodStatusData None \<Rightarrow> (s, Crash NilDeref)
     | PodStatusData (Some st) \<Rightarrow>
         (let p' = p\<lparr>Status := merged_status (Status p) st\<rparr>;
              s' = s\<lparr>pods_at := (pods_at s)(Resource m \<mapsto> p')\<rparr>
          in (case utilsNotifier s of
                None \<Rightarrow> s'
              | Some cb \<Rightarrow> s'\<lparr>notified := notified s @ [(cb, Resource m, p')]\<rparr>, Ret ()))
     | _ \<Rightarrow> (s, Ret ()))"
  using assms
  by (auto simp: handleCheckResult_def getState_def GetNotifier_def go_simps heap_runs
      merged_status_def Let_def
      split: check_data.splits option.splits MonitoringState.splits Subject.splits)

text \<open>
  C21: a check result that carries a pod status replaces the status of exactly the monitored pod, keeps
  that pod's own addresses (\<open>PodIP\<close>, \<open>PodIPs\<close>, \<open>HostIP\<close>) whatever the agent sent, and notifies the
  installed notifier exactly once, with the updated pod.
\<close>

theorem handleCheckResult_pod_status:
  fixes s :: "('w, 'z) health_scheme"
  assumes "monitors_at s (ResultMonitor result) = Some m" and "pods_at s (Resource m) = Some p"
    and "Data result = PodStatusData (Some st)" and "utilsNotifier s = Some cb"
  shows "\<exists>p'. handleCheckResult result s =
      (s\<lparr>pods_at := (pods_at s)(Resource m \<mapsto> p'),
         notified := notified s @ [(cb, Resource m, p')]\<rparr>, Ret ()) \<and>
    p' = p\<lparr>Status := merged_status (Status p) st\<rparr> \<and>
    (PodIP (Status p'), PodIPs (Status p'), HostIP (Status p')) =
      (PodIP (Status p), PodIPs (Status p), HostIP (Status p)) \<and>
    (Phase (Status p'), Conditions (Status p'), ContainerStatuses (Status p')) =
      (Phase st, Conditions st, ContainerStatuses st)"
  using assms by (simp add: handleCheckResult_run Let_def merged_status_def)

definition sample_result :: checkResult where
  "sample_result = \<lparr>ResultMonitor = 2, Failed = False, Message = [], Timestamp = 0,
     Data = PodStatusData (Some (empty_status\<lparr>Phase := ''Running'', PodIP := ''1.2.3.4''\<rparr>))\<rparr>"

theorem handleCheckResult_pod_status_witness:
  "\<exists>p'. handleCheckResult sample_result sample_health =
      (sample_health\<lparr>pods_at := (pods_at sample_health)(0 \<mapsto> p'),
         notified := [(9, 0, p')]\<rparr>, Ret ()) \<and>
    Phase (Status p') = ''Running'' \<and> PodIP (Status p') = ''10.0.0.7''"
  using handleCheckResult_pod_status [of sample_health sample_result sample_monitor sample_pod
      "empty_status\<lparr>Phase := ''Running'', PodIP := ''1.2.3.4''\<rparr>" 9]
  by (simp add: health_samples sample_result_def)

text \<open>
  An application health response without a pod status kills the provider: the handler
  dereferences the nil \<open>*PodStatus\<close>, since the interface value that wraps it is not nil.
\<close>

theorem handleCheckResult_nil_status_crashes:
  fixes s :: "('w, 'z) health_scheme"
  assumes "monitors_at s (ResultMonitor result) = Some m" and "pods_at s (Resource m) = Some p"
    and "Data result = PodStatusData None"
  shows "handleCheckResult result s = (s, Crash NilDeref)"
  using assms by (simp add: handleCheckResult_run)

theorem handleCheckResult_nil_status_crashes_witness:
  "handleCheckResult (sample_result\<lparr>Data := PodStatusData None\<rparr>) sample_health =
    (sample_health, Crash NilDeref)"
  using handleCheckResult_nil_status_crashes [of sample_health
      "sample_result\<lparr>Data := PodStatusData None\<rparr>" sample_monitor sample_pod]
  by (simp add: health_samples sample_result_def)

text \<open>
  The handler does not act on an unhealthy monitor: a result without a pod status changes nothing
  at all, whatever the state of the monitor, its subject and whether the check failed.
\<close>

theorem handleCheckResult_ignores_health:
  fixes s :: "('w, 'z) health_scheme"
  assumes "monitors_at s (ResultMonitor result) = Some m" and "pods_at s (Resource m) = Some p"
    and "Data result = NoData \<or> Data result = HealthResponseData"
  shows "handleCheckResult result s = (s, Ret ())"
  using assms by (auto simp: handleCheckResult_run)

theorem handleCheckResult_ignores_health_witness:
  "let s = sample_health\<lparr>monitors_at := [2 \<mapsto> sample_monitor\<lparr>Failures := 7,
         MonState := MonitoringStateUnhealthy\<rparr>]\<rparr>
   in handleCheckResult (sample_result\<lparr>Failed := True, Data := NoData\<rparr>) s = (s, Ret ())"
  using handleCheckResult_ignores_health [of "sample_health\<lparr>monitors_at := [2 \<mapsto>
      sample_monitor\<lparr>Failures := 7, MonState := MonitoringStateUnhealthy\<rparr>]\<rparr>"
      "sample_result\<lparr>Failed := True, Data := NoData\<rparr>"
      "sample_monitor\<lparr>Failures := 7, MonState := MonitoringStateUnhealthy\<rparr>" sample_pod]
  by (simp add: health_samples sample_result_def)

section \<open>Life of a pod monitor\<close>

definition new_watcher :: "pod_ref \<Rightarrow> nat \<Rightarrow> Subject \<Rightarrow> string \<Rightarrow> stream_kind \<Rightarrow> monitor" where
  "new_watcher p chan subject name kind =
     \<lparr>Resource = p, MonSubject = subject, MonName = name, Failures = 0,
      MonState = MonitoringStateUnknown, IsMonitoring = False, isWatcher = True,
      getStream = Some kind, handlerReceiver = Some chan\<rparr>"

lemma create_watcher_run:
  "create_watcher p chan subject name kind s =
     (s\<lparr>monitors_at := (monitors_at s)(fresh_ref s \<mapsto> new_watcher p chan subject name kind),
        fresh_ref := Suc (fresh_ref s)\<rparr>, Ret (fresh_ref s))"
  by (simp add: create_watcher_def NewMonitor_def go_simps heap_runs new_watcher_def)

definition new_podmon :: "ProviderConfig \<Rightarrow> pod_ref \<Rightarrow> nat \<Rightarrow> nat \<Rightarrow> PodMonitor" where
  "new_podmon cfg p h v =
     \<lparr>Monitors = [v, Suc v], pm_config = HealthConf cfg, pm_pod = p, pm_handler = h, pm_cancel = None\<rparr>"

text \<open>The state after \<open>NewPodMonitor\<close>.\<close>

definition with_podmon ::
  "ProviderConfig \<Rightarrow> pod_ref \<Rightarrow> nat \<Rightarrow> nat \<Rightarrow> ('w, 'z) health_scheme \<Rightarrow> ('w, 'z) health_scheme" where
  "with_podmon cfg p h chan s = (let f = fresh_ref s in
     s\<lparr>monitors_at := (monitors_at s)
         (Suc f \<mapsto> new_watcher p chan SubjectVkvma ''vkvma.watch'' HealthWatch,
          Suc (Suc f) \<mapsto> new_watcher p chan SubjectApp ''app.watch'' ApplicationWatch),
       podmons_at := (podmons_at s)(f \<mapsto> new_podmon cfg p h (Suc f)),
       fresh_ref := Suc (Suc (Suc f))\<rparr>)"

lemma NewPodMonitor_run:
  assumes "config s = Some cfg" and "handlers_at s h = Some ch"
  shows "NewPodMonitor p h s = (with_podmon cfg p h (in_chan ch) s, Ret (Inr (fresh_ref s)))"
  using assms
  by (simp add: NewPodMonitor_def createMonitors_def go_simps heap_runs create_watcher_run
      setPodHandler_def with_podmon_def new_podmon_def Let_def)

lemma Start_run:
  assumes "podmons_at s r = Some pm" and "handlers_at s (pm_handler pm) = Some ch"
    and "Monitors pm = [v, a]" and "v \<noteq> a"
    and "monitors_at s v = Some mv" and "monitors_at s a = Some ma" and "config s = Some cfg"
  shows "Start r s =
    (s\<lparr>monitors_at := (monitors_at s)(v \<mapsto> mv\<lparr>IsMonitoring := True\<rparr>, a \<mapsto> ma\<lparr>IsMonitoring := True\<rparr>),
       handlers_at := (handlers_at s)(pm_handler pm \<mapsto> ch\<lparr>IsReceiving := True\<rparr>),
       podmons_at := (podmons_at s)(r \<mapsto> pm\<lparr>pm_cancel := Some (fresh_ref s)\<rparr>),
       fresh_ref := Suc (fresh_ref s)\<rparr>, Ret ())"
  using assms by (simp add: Start_def receive_def Run_def go_simps heap_runs)

lemma Stop_run:
  assumes "podmons_at s r = Some pm" and "handlers_at s (pm_handler pm) = Some ch"
    and "Monitors pm = [v, a]" and "v \<noteq> a"
    and "monitors_at s v = Some mv" and "monitors_at s a = Some ma"
    and "pm_cancel pm = Some ctx"
  shows "Stop r s =
    (s\<lparr>monitors_at := (monitors_at s)
         (v \<mapsto> mv\<lparr>MonState := MonitoringStateUnknown, IsMonitoring := False\<rparr>,
          a \<mapsto> ma\<lparr>MonState := MonitoringStateUnknown, IsMonitoring := False\<rparr>),
       handlers_at := (handlers_at s)(pm_handler pm \<mapsto> ch\<lparr>IsReceiving := False\<rparr>),
       cancelled_ctxs := ctx # cancelled_ctxs s\<rparr>, Ret ())"
  using assms by (simp add: Stop_def stop_receiver_def stop_monitor_def go_simps heap_runs)

lemma Stop_unstarted:
  "podmons_at s r = Some pm \<Longrightarrow> pm_cancel pm = None \<Longrightarrow> Stop r s = (s, Crash NilFuncCall)"
  by (simp add: Stop_def go_simps heap_runs)

text \<open>
  The life of a pod monitor, in the run in which the wait of \<open>Stop\<close> ends: creating it makes two distinct watchers of the pod, for the agent and
  for the application, both in state unknown and connected to the handler's channel; starting and then
  stopping it returns, cancels the context it was started with, and leaves both watchers unknown and
  not monitoring and the handler not receiving; stopping it before it was started crashes on the nil
  cancel function.
\<close>

theorem pod_monitor_life:
  fixes s :: "('w, 'z) health_scheme"
  assumes "config s = Some cfg" and "handlers_at s h = Some ch"
  shows "\<exists>s1 pm s2 s3.
    NewPodMonitor p h s = (s1, Ret (Inr pm)) \<and>
    monitors_at s1 (Suc pm) = Some (new_watcher p (in_chan ch) SubjectVkvma ''vkvma.watch'' HealthWatch) \<and>
    monitors_at s1 (Suc (Suc pm)) =
      Some (new_watcher p (in_chan ch) SubjectApp ''app.watch'' ApplicationWatch) \<and>
    Stop pm s1 = (s1, Crash NilFuncCall) \<and>
    Start pm s1 = (s2, Ret ()) \<and> Stop pm s2 = (s3, Ret ()) \<and>
    map_option IsMonitoring (monitors_at s2 (Suc pm)) = Some True \<and>
    map_option IsReceiving (handlers_at s2 h) = Some True \<and>
    cancelled_ctxs s3 = fresh_ref s1 # cancelled_ctxs s \<and>
    map_option IsReceiving (handlers_at s3 h) = Some False \<and>
    list_all (\<lambda>r. map_option (\<lambda>m. (MonState m, IsMonitoring m)) (monitors_at s3 r) =
        Some (MonitoringStateUnknown, False)) [Suc pm, Suc (Suc pm)]"
proof -
  let ?f = "fresh_ref s"
  let ?s1 = "with_podmon cfg p h (in_chan ch) s"
  let ?v = "new_watcher p (in_chan ch) SubjectVkvma ''vkvma.watch'' HealthWatch"
  let ?a = "new_watcher p (in_chan ch) SubjectApp ''app.watch'' ApplicationWatch"
  have at1: "podmons_at ?s1 ?f = Some (new_podmon cfg p h (Suc ?f))"
    "handlers_at ?s1 (pm_handler (new_podmon cfg p h (Suc ?f))) = Some ch"
    "Monitors (new_podmon cfg p h (Suc ?f)) = [Suc ?f, Suc (Suc ?f)]"
    "monitors_at ?s1 (Suc ?f) = Some ?v" "monitors_at ?s1 (Suc (Suc ?f)) = Some ?a"
    "config ?s1 = Some cfg"
    using assms by (simp_all add: with_podmon_def Let_def new_podmon_def)
  note start = Start_run [OF at1(1-3) _ at1(4-6)]
  let ?s2 = "fst (Start ?f ?s1)"
  have at2: "podmons_at ?s2 ?f = Some ((new_podmon cfg p h (Suc ?f))\<lparr>pm_cancel := Some (fresh_ref ?s1)\<rparr>)"
    "handlers_at ?s2 (pm_handler ((new_podmon cfg p h (Suc ?f))\<lparr>pm_cancel := Some (fresh_ref ?s1)\<rparr>))
       = Some (ch\<lparr>IsReceiving := True\<rparr>)"
    "Monitors ((new_podmon cfg p h (Suc ?f))\<lparr>pm_cancel := Some (fresh_ref ?s1)\<rparr>)
       = [Suc ?f, Suc (Suc ?f)]"
    "monitors_at ?s2 (Suc ?f) = Some (?v\<lparr>IsMonitoring := True\<rparr>)"
    "monitors_at ?s2 (Suc (Suc ?f)) = Some (?a\<lparr>IsMonitoring := True\<rparr>)"
    "cancelled_ctxs ?s2 = cancelled_ctxs s"
    by (simp_all add: start new_podmon_def) (simp add: with_podmon_def Let_def)
  note stop = Stop_run [OF at2(1-3) _ at2(4,5)]
  have "NewPodMonitor p h s = (?s1, Ret (Inr ?f))" by (rule NewPodMonitor_run [OF assms])
  moreover have "Stop ?f ?s1 = (?s1, Crash NilFuncCall)"
    by (rule Stop_unstarted [OF at1(1)]) (simp add: new_podmon_def)
  moreover have "Start ?f ?s1 = (?s2, Ret ())" by (simp add: start)
  moreover have "Stop ?f ?s2 = (fst (Stop ?f ?s2), Ret ())" by (simp add: stop)
  moreover have "map_option IsMonitoring (monitors_at ?s2 (Suc ?f)) = Some True"
    by (simp add: at2)
  moreover have "map_option IsReceiving (handlers_at ?s2 h) = Some True"
    using at2(2) by (simp add: new_podmon_def)
  moreover have "cancelled_ctxs (fst (Stop ?f ?s2)) = fresh_ref ?s1 # cancelled_ctxs s"
    by (simp add: stop at2(6))
  moreover have "map_option IsReceiving (handlers_at (fst (Stop ?f ?s2)) h) = Some False"
    by (simp add: stop) (simp add: new_podmon_def)
  moreover have "list_all (\<lambda>r. map_option (\<lambda>m. (MonState m, IsMonitoring m))
      (monitors_at (fst (Stop ?f ?s2)) r) = Some (MonitoringStateUnknown, False))
      [Suc ?f, Suc (Suc ?f)]"
    by (simp add: stop)
  ultimately show ?thesis
    using at1(4,5) by blast
qed

theorem pod_monitor_life_witness:
  "\<exists>s1 pm s2 s3. NewPodMonitor 0 1 sample_health = (s1, Ret (Inr pm)) \<and>
     Stop pm s1 = (s1, Crash NilFuncCall) \<and>
     Start pm s1 = (s2, Ret ()) \<and> Stop pm s2 = (s3, Ret ()) \<and>
     cancelled_ctxs s3 = [fresh_ref s1]"
proof -
  have "config sample_health = Some sample_config"
    and "handlers_at sample_health 1 = Some \<lparr>in_chan = 0, IsReceiving = False\<rparr>"
    and c: "cancelled_ctxs sample_health = []"
    by (simp_all add: sample_health_def)
  from pod_monitor_life [OF this(1,2), of 0] show ?thesis unfolding c by blast
qed

end
