(* ===== verification/Health_Loops.thy ===== *)
theory Health_Loops
  imports Health
begin

text \<open>
  \<open>internal/health\<close>, the concurrent part: the goroutines that \<open>PodMonitor.Start\<close> leaves behind, one per
  monitor (\<open>startWatchLoop\<close>, \<open>startCheckLoop\<close>) and one per started pod monitor for the handler
  (\<open>receive\<close>), the unbuffered channel between them and the context that stops them.  A goroutine is a
  program counter; \<open>turn\<close> is what a monitor's goroutine does up to its next blocking point.  The rules of
  \<open>step\<close> interleave the goroutines in every order: a send and a receive on the channel happen together,
  and a \<open>select\<close> with two ready cases may take either.
\<close>

section \<open>Goroutines\<close>

datatype stream = NilStream | OpenStream stream_kind | OtherStream

text \<open>
  What a blocking call comes back with: \<open>getStream\<close>'s stream, \<open>Recv\<close>'s error or response (with the pod
  status an application health response carries), or nothing for a sleep that is over.
\<close>

datatype input =
    Opened stream
  | RecvError string
  | RecvResponse "pod_status option"
  | Elapsed

text \<open>What a watch loop does once its result has been sent.\<close>

datatype after_send = LoopWith stream | SleepFor int

datatype pc =
    AtTop stream
  | AtSelect stream
  | AtRecv stream_kind
  | AtSend checkResult after_send
  | AtSleep int stream
  | CheckTop
  | CheckSelect checkResult
  | CheckSleep int
  | Exited

record goroutine =
  g_monitor :: nat
  g_ctx :: nat
  g_pc :: pc

datatype receive_pc = Receiving | Handling checkResult | ReceiverExited

record receiver =
  r_handler :: nat
  r_ctx :: nat
  r_pc :: receive_pc

record 's system =
  heap :: 's
  goroutines :: "goroutine list"
  receivers :: "receiver list"

definition ctx_done :: "nat \<Rightarrow> (('w, 'z) health_scheme, bool) go" where
  "ctx_done ctx = gets (\<lambda>s. ctx \<in> set (cancelled_ctxs s))"

definition stop_and_exit :: "nat \<Rightarrow> (('w, 'z) health_scheme, pc) go" where
  "stop_and_exit r = andthen (stop_monitor r) (\<lambda>_. ret Exited)"

section \<open>The watch loop\<close>

text \<open>The top of the loop: reconnect when there is no stream.\<close>

definition watch_top :: "nat \<Rightarrow> input \<Rightarrow> stream \<Rightarrow> (('w, 'z) health_scheme, pc) go" where
  "watch_top r i stream =
     (if stream = NilStream
      then andthen (load_monitor r) (\<lambda>m.
           case getStream m of
             None \<Rightarrow> die NilFuncCall
           | Some k \<Rightarrow> ret (AtSelect (case i of Opened st \<Rightarrow> st | _ \<Rightarrow> NilStream)))
      else ret (AtSelect stream))"

text \<open>The cancellation check of the \<open>select\<close>, and what its \<open>default\<close> case does for each type of stream.\<close>

definition watch_select ::
  "nat \<Rightarrow> nat \<Rightarrow> stream \<Rightarrow> (('w, 'z) health_scheme, pc) go" where
  "watch_select r ctx stream =
     andthen (ctx_done ctx) (\<lambda>done.
     if done then stop_and_exit r
     else case stream of
         OpenStream k \<Rightarrow> ret (AtRecv k)
       | NilStream \<Rightarrow>
           andthen Config (\<lambda>cfg.
           andthen (NewCheckResult r True ''Health check stream is nil'' NoData) (\<lambda>result.
           ret (AtSend result (SleepFor (Seconds (StreamRetryIntervalSeconds (HealthConf cfg)))))))
       | OtherStream \<Rightarrow>
           andthen Config (\<lambda>cfg.
           ret (AtSleep (Seconds (HealthCheckIntervalSeconds (HealthConf cfg))) OtherStream)))"

fun receive_error_text :: "stream_kind \<Rightarrow> string" where
  "receive_error_text HealthWatch = ''Error receiving VKVMAgent Health stream for pod ''"
| "receive_error_text ApplicationWatch = ''Error receiving Application Health stream for pod ''"

fun receive_error_data :: "stream_kind \<Rightarrow> check_data" where
  "receive_error_data HealthWatch = HealthResponseData"
| "receive_error_data ApplicationWatch = NoData"

fun receive_error_metric :: "stream_kind \<Rightarrow> metric" where
  "receive_error_metric HealthWatch = WatchApplicationHealthErrors"
| "receive_error_metric ApplicationWatch = WatchApplicationHealthStreamErrors"

fun response_data :: "stream_kind \<Rightarrow> pod_status option \<Rightarrow> check_data" where
  "response_data HealthWatch st = NoData"
| "response_data ApplicationWatch st = PodStatusData st"

text \<open>What follows when \<open>Recv\<close> returns.\<close>

definition watch_recv ::
  "nat \<Rightarrow> nat \<Rightarrow> input \<Rightarrow> stream_kind \<Rightarrow> (('w, 'z) health_scheme, pc) go" where
  "watch_recv r ctx i k =
     (case i of
        RecvError err \<Rightarrow>
          andthen (ctx_done ctx) (\<lambda>done.
          if done then stop_and_exit r
          else
            andthen (load_monitor r) (\<lambda>m.
            andthen (load_pod (Resource m)) (\<lambda>p.
            andthen (NewCheckResult r True
              (receive_error_text k @ PodName p @ ''('' @ Namespace p @ ''): '' @ err)
              (receive_error_data k)) (\<lambda>result.
            andthen (Inc (receive_error_metric k)) (\<lambda>_.
            andthen Config (\<lambda>cfg.
            ret (AtSend result (SleepFor (Seconds (StreamRetryIntervalSeconds (HealthConf cfg)))))))))))
      | RecvResponse st \<Rightarrow>
          andthen (NewCheckResult r False ''application health stream received status''
            (response_data k st)) (\<lambda>result.
          ret (AtSend result (LoopWith (OpenStream k))))
      | _ \<Rightarrow> ret (AtRecv k))"

fun sent :: "after_send \<Rightarrow> pc" where
  "sent (LoopWith stream) = AtTop stream"
| "sent (SleepFor ns) = AtSleep ns NilStream"

section \<open>The check loop\<close>

text \<open>
  \<open>check\<close> is the monitor's check function.  A check loop waits for the cancellation and for the channel
  in the same \<open>select\<close>; its sleep is \<open>time.Duration(n)\<close>, that is \<open>n\<close> nanoseconds.
\<close>

definition check_top ::
  "(nat \<Rightarrow> (('w, 'z) health_scheme, checkResult) go) \<Rightarrow> nat \<Rightarrow> (('w, 'z) health_scheme, pc) go" where
  "check_top check r = andthen (check r) (\<lambda>result. ret (CheckSelect result))"

definition check_sent :: "ProviderConfig \<Rightarrow> pc" where
  "check_sent cfg = CheckSleep (HealthCheckIntervalSeconds (HealthConf cfg))"

section \<open>Steps\<close>

definition turn ::
  "(nat \<Rightarrow> (('w, 'z) health_scheme, checkResult) go) \<Rightarrow> nat \<Rightarrow> nat \<Rightarrow> input \<Rightarrow> pc \<Rightarrow>
   (('w, 'z) health_scheme, pc) go" where
  "turn check r ctx i pc =
     (case pc of
        AtTop stream \<Rightarrow> watch_top r i stream
      | AtSelect stream \<Rightarrow> watch_select r ctx stream
      | AtRecv k \<Rightarrow> watch_recv r ctx i k
      | AtSend result after \<Rightarrow> ret (AtSend result after)
      | AtSleep ns stream \<Rightarrow> ret (AtTop stream)
      | CheckTop \<Rightarrow> check_top check r
      | CheckSelect result \<Rightarrow>
          andthen (ctx_done ctx) (\<lambda>done. if done then stop_and_exit r else ret (CheckSelect result))
      | CheckSleep ns \<Rightarrow> ret CheckTop
      | Exited \<Rightarrow> ret Exited)"

definition chan_of :: "('w, 'z) health_scheme \<Rightarrow> goroutine \<Rightarrow> nat option" where
  "chan_of s g = (case monitors_at s (g_monitor g) of None \<Rightarrow> None | Some m \<Rightarrow> handlerReceiver m)"

text \<open>What a goroutine offers to the channel, and where it is once the offer is taken.\<close>

fun offered :: "ProviderConfig \<Rightarrow> pc \<Rightarrow> (checkResult \<times> pc) option" where
  "offered cfg (AtSend result after) = Some (result, sent after)"
| "offered cfg (CheckSelect result) = Some (result, check_sent cfg)"
| "offered cfg _ = None"

definition cancel_ctx :: "nat \<Rightarrow> ('w, 'z) health_scheme \<Rightarrow> ('w, 'z) health_scheme" where
  "cancel_ctx ctx s = s\<lparr>cancelled_ctxs := ctx # cancelled_ctxs s\<rparr>"

inductive step ::
  "(nat \<Rightarrow> (('w, 'z) health_scheme, checkResult) go) \<Rightarrow>
   ('w, 'z) health_scheme system \<Rightarrow> ('w, 'z) health_scheme system \<Rightarrow> bool"
  for check where
  step_turn:
    "j < length (goroutines u) \<Longrightarrow> goroutines u ! j = g \<Longrightarrow>
     turn check (g_monitor g) (g_ctx g) i (g_pc g) (heap u) = (s, Ret pc) \<Longrightarrow>
     step check u (u\<lparr>heap := s, goroutines := (goroutines u)[j := g\<lparr>g_pc := pc\<rparr>]\<rparr>)"
| step_deliver:
    "j < length (goroutines u) \<Longrightarrow> goroutines u ! j = g \<Longrightarrow>
     config (heap u) = Some cfg \<Longrightarrow> offered cfg (g_pc g) = Some (result, pc) \<Longrightarrow>
     n < length (receivers u) \<Longrightarrow> receivers u ! n = h \<Longrightarrow> r_pc h = Receiving \<Longrightarrow>
     handlers_at (heap u) (r_handler h) = Some ch \<Longrightarrow> chan_of (heap u) g = Some (in_chan ch) \<Longrightarrow>
     step check u (u\<lparr>goroutines := (goroutines u)[j := g\<lparr>g_pc := pc\<rparr>],
       receivers := (receivers u)[n := h\<lparr>r_pc := Handling result\<rparr>]\<rparr>)"
| step_handle:
    "n < length (receivers u) \<Longrightarrow> receivers u ! n = h \<Longrightarrow> r_pc h = Handling result \<Longrightarrow>
     handleCheckResult result (heap u) = (s, Ret ()) \<Longrightarrow>
     step check u (u\<lparr>heap := s, receivers := (receivers u)[n := h\<lparr>r_pc := Receiving\<rparr>]\<rparr>)"
| step_receiver_stops:
    "n < length (receivers u) \<Longrightarrow> receivers u ! n = h \<Longrightarrow> r_pc h = Receiving \<Longrightarrow>
     r_ctx h \<in> set (cancelled_ctxs (heap u)) \<Longrightarrow>
     stop_receiver (r_handler h) (heap u) = (s, Ret ()) \<Longrightarrow>
     step check u (u\<lparr>heap := s, receivers := (receivers u)[n := h\<lparr>r_pc := ReceiverExited\<rparr>]\<rparr>)"
| step_cancel:
    "step check u (u\<lparr>heap := cancel_ctx ctx (heap u)\<rparr>)"

inductive steps ::
  "(nat \<Rightarrow> (('w, 'z) health_scheme, checkResult) go) \<Rightarrow>
   ('w, 'z) health_scheme system \<Rightarrow> ('w, 'z) health_scheme system \<Rightarrow> bool"
  for check where
  steps_refl: "steps check u u"
| steps_step: "steps check u v \<Longrightarrow> step check v w \<Longrightarrow> steps check u w"

text \<open>
  The goroutines \<open>Start\<close> has started when it returns, for the provider's only pod: one receiver.  In the
  provider all pods share \<open>defaultHandler\<close> and its channel, and each start adds a receiver of its own to it;
  with more pods, a result may be taken by the receiver of another one.
\<close>

definition started :: "nat \<Rightarrow> nat \<Rightarrow> nat list \<Rightarrow> ('w, 'z) health_scheme \<Rightarrow> ('w, 'z) health_scheme system" where
  "started h ctx ms s = \<lparr>heap = s,
     goroutines = map (\<lambda>r. \<lparr>g_monitor = r, g_ctx = ctx,
       g_pc = (case monitors_at s r of
                 Some m \<Rightarrow> if isWatcher m then AtTop NilStream else CheckTop
               | None \<Rightarrow> Exited)\<rparr>) ms,
     receivers = [\<lparr>r_handler = h, r_ctx = ctx, r_pc = Receiving\<rparr>]\<rparr>"

text \<open>\<open>waitGroup.Wait\<close> of a context can return: all the goroutines started under it have left.\<close>

definition wait_returns :: "nat \<Rightarrow> 's system \<Rightarrow> bool" where
  "wait_returns ctx u \<longleftrightarrow>
     list_all (\<lambda>g. g_ctx g = ctx \<longrightarrow> g_pc g = Exited) (goroutines u) \<and>
     list_all (\<lambda>h. r_ctx h = ctx \<longrightarrow> r_pc h = ReceiverExited) (receivers u)"

section \<open>Monitors and their goroutines\<close>

inductive_cases step_elim: "step check u v"

lemma turn_simps [simp]:
  "turn check r ctx i (AtTop stream) = watch_top r i stream"
  "turn check r ctx i (AtSelect stream) = watch_select r ctx stream"
  "turn check r ctx i (AtRecv k) = watch_recv r ctx i k"
  "turn check r ctx i (AtSend result after) = ret (AtSend result after)"
  "turn check r ctx i (AtSleep ns stream) = ret (AtTop stream)"
  "turn check r ctx i CheckTop = check_top check r"
  "turn check r ctx i (CheckSelect result) =
     andthen (ctx_done ctx) (\<lambda>done. if done then stop_and_exit r else ret (CheckSelect result))"
  "turn check r ctx i (CheckSleep ns) = ret CheckTop"
  "turn check r ctx i Exited = ret Exited"
  by (simp_all add: turn_def)

text \<open>The program counters of a watch loop, and how they show in the monitor.\<close>

fun watch_pc :: "pc \<Rightarrow> bool" where
  "watch_pc CheckTop \<longleftrightarrow> False"
| "watch_pc (CheckSelect result) \<longleftrightarrow> False"
| "watch_pc (CheckSleep ns) \<longleftrightarrow> False"
| "watch_pc _ \<longleftrightarrow> True"

definition shows_pc :: "monitor \<Rightarrow> pc \<Rightarrow> bool" where
  "shows_pc m pc \<longleftrightarrow>
     (if pc = Exited then MonState m = MonitoringStateUnknown \<and> \<not> IsMonitoring m else IsMonitoring m)"

lemma NewCheckResult_nil_config:
  "config s = None \<Longrightarrow> NewCheckResult r failed msg data s \<noteq> (t, Ret x)"
  by (simp add: NewCheckResult_def go_simps Config_nil)

lemma NewCheckResult_Ret:
  assumes "NewCheckResult r failed msg data s = (t, Ret x)" and "monitors_at s r = Some m"
  obtains cfg where "config s = Some cfg"
    and "monitors_at t = (monitors_at s)(r \<mapsto>
      observe (UnhealthyThresholdCount (HealthConf cfg)) failed m)"
    and "cancelled_ctxs t = cancelled_ctxs s" and "config t = config s"
proof (cases "config s")
  case None
  with assms show ?thesis by (simp add: NewCheckResult_nil_config)
next
  case (Some cfg)
  with assms that show ?thesis by (auto simp: NewCheckResult_run)
qed

lemma observe_fields [simp]:
  "IsMonitoring (observe thr failed m) = IsMonitoring m"
  "handlerReceiver (observe thr failed m) = handlerReceiver m"
  "Resource (observe thr failed m) = Resource m"
  by (simp_all add: observe_def increment_monitor_def reset_monitor_def Let_def)

lemma stop_and_exit_run:
  "monitors_at s r = Some m \<Longrightarrow> stop_and_exit r s =
     (s\<lparr>monitors_at := (monitors_at s)(r \<mapsto>
        m\<lparr>MonState := MonitoringStateUnknown, IsMonitoring := False\<rparr>)\<rparr>, Ret Exited)"
  by (simp add: stop_and_exit_def stop_monitor_def go_simps heap_runs)

lemma ctx_done_run [go_simps]: "ctx_done ctx s = (s, Ret (ctx \<in> set (cancelled_ctxs s)))"
  by (simp add: ctx_done_def go_simps)

lemma andthen_ctx_done [simp]:
  "andthen (ctx_done ctx) f s = f (ctx \<in> set (cancelled_ctxs s)) s"
  by (simp add: go_simps)

text \<open>What a turn may change: its own monitor, so that it still shows where the goroutine is.\<close>

definition monitor_change ::
  "nat \<Rightarrow> monitor \<Rightarrow> pc \<Rightarrow> ('w, 'z) health_scheme \<Rightarrow> ('w, 'z) health_scheme \<Rightarrow> bool" where
  "monitor_change r m pc s t \<longleftrightarrow>
     (\<exists>m'. monitors_at t = (monitors_at s)(r \<mapsto> m') \<and> shows_pc m' pc \<and> watch_pc pc)"

lemma monitor_changeI:
  "monitors_at t = (monitors_at s)(r \<mapsto> m') \<Longrightarrow> shows_pc m' pc \<Longrightarrow> watch_pc pc \<Longrightarrow>
   monitor_change r m pc s t"
  by (auto simp: monitor_change_def)

lemma monitor_change_same:
  "monitors_at t = monitors_at s \<Longrightarrow> monitors_at s r = Some m \<Longrightarrow> shows_pc m pc \<Longrightarrow> watch_pc pc \<Longrightarrow>
   monitor_change r m pc s t"
  unfolding monitor_change_def by (intro exI [of _ m]) (simp add: fun_upd_idem)

lemma watch_top_change:
  assumes "watch_top r i stream s = (t, Ret pc)" and "monitors_at s r = Some m" and "IsMonitoring m"
  shows "monitor_change r m pc s t"
  using assms
  by (auto simp: watch_top_def go_simps heap_runs shows_pc_def intro!: monitor_change_same
      split: if_splits option.splits)

lemma stop_and_exit_change:
  "stop_and_exit r s = (t, Ret pc) \<Longrightarrow> monitors_at s r = Some m \<Longrightarrow> monitor_change r m pc s t"
  by (auto simp: stop_and_exit_run monitor_change_def shows_pc_def)

lemma load_pod_Ret: "load_pod r s = (t, Ret p) \<longleftrightarrow> t = s \<and> pods_at s r = Some p"
  by (cases "pods_at s r") (auto simp: load_pod_def go_simps)

lemma Config_Ret: "Config s = (t, Ret cfg) \<longleftrightarrow> t = s \<and> config s = Some cfg"
  by (cases "config s") (auto simp: Config_def go_simps)

lemma watch_select_change:
  assumes "watch_select r ctx stream s = (t, Ret pc)" and "monitors_at s r = Some m"
    and "IsMonitoring m"
  shows "monitor_change r m pc s t"
proof (cases "ctx \<in> set (cancelled_ctxs s)")
  case True
  with assms show ?thesis by (simp add: watch_select_def stop_and_exit_change)
next
  case out: False
  show ?thesis
  proof (cases stream)
    case NilStream
    with assms out show ?thesis
      by (auto simp: watch_select_def Config_Ret ret_run shows_pc_def
          elim!: andthen_RetE NewCheckResult_Ret intro!: monitor_changeI)
  qed (use assms out in \<open>auto simp: watch_select_def Config_Ret ret_run shows_pc_def
        intro!: monitor_change_same elim!: andthen_RetE\<close>)
qed

lemma watch_recv_change:
  assumes "watch_recv r ctx i k s = (t, Ret pc)" and "monitors_at s r = Some m" and "IsMonitoring m"
  shows "monitor_change r m pc s t"
proof (cases i)
  case (RecvError err)
  show ?thesis
  proof (cases "ctx \<in> set (cancelled_ctxs s)")
    case True
    with assms RecvError show ?thesis by (simp add: watch_recv_def stop_and_exit_change)
  next
    case False
    with assms RecvError show ?thesis
      by (auto simp: watch_recv_def heap_runs Inc_run Config_Ret load_pod_Ret ret_run
          shows_pc_def elim!: andthen_RetE NewCheckResult_Ret intro!: monitor_changeI)
  qed
next
  case (RecvResponse st)
  with assms show ?thesis
    by (auto simp: watch_recv_def ret_run shows_pc_def
        elim!: andthen_RetE NewCheckResult_Ret intro!: monitor_changeI)
qed (use assms in \<open>auto simp: watch_recv_def ret_run shows_pc_def intro!: monitor_change_same\<close>)

lemma turn_change:
  assumes "turn check r ctx i pc s = (t, Ret pc')" and "monitors_at s r = Some m"
    and "shows_pc m pc" and "watch_pc pc"
  shows "monitor_change r m pc' s t"
proof (cases pc)
  case (AtTop stream)
  with assms show ?thesis by (auto simp: shows_pc_def intro: watch_top_change)
next
  case (AtSelect stream)
  with assms show ?thesis by (auto simp: shows_pc_def intro: watch_select_change)
next
  case (AtRecv k)
  with assms show ?thesis by (auto simp: shows_pc_def intro: watch_recv_change)
qed (use assms in \<open>auto simp: ret_run shows_pc_def intro!: monitor_change_same\<close>)

section \<open>An invariant of the running system\<close>

definition goroutine_ok :: "('w, 'z) health_scheme \<Rightarrow> goroutine \<Rightarrow> bool" where
  "goroutine_ok s g \<longleftrightarrow>
     (case monitors_at s (g_monitor g) of
        None \<Rightarrow> False
      | Some m \<Rightarrow> shows_pc m (g_pc g) \<and> watch_pc (g_pc g))"

definition system_ok :: "('w, 'z) health_scheme system \<Rightarrow> bool" where
  "system_ok u \<longleftrightarrow>
     distinct (map g_monitor (goroutines u)) \<and> list_all (goroutine_ok (heap u)) (goroutines u)"

lemma goroutine_ok_cong: "monitors_at t = monitors_at s \<Longrightarrow> goroutine_ok t g = goroutine_ok s g"
  by (simp add: goroutine_ok_def)

lemma system_ok_heap:
  "system_ok u \<Longrightarrow> monitors_at s = monitors_at (heap u) \<Longrightarrow> goroutines v = goroutines u \<Longrightarrow>
   heap v = s \<Longrightarrow> system_ok v"
  by (simp add: system_ok_def list_all_iff goroutine_ok_cong [of s])

lemma handleCheckResult_keeps_monitors:
  "keeps (\<lambda>s. monitors_at s = M) (handleCheckResult result)"
  unfolding handleCheckResult_def load_monitor_def load_pod_def getState_def GetNotifier_def
    update_pod_def store_pod_def call_notifier_def
  by (intro keeps_intro keeps_modify; simp split: MonitoringState.splits Subject.splits
      check_data.splits; intro keeps_intro conjI impI allI keeps_modify; simp)

lemma stop_receiver_keeps_monitors:
  "keeps (\<lambda>s. monitors_at s = M) (stop_receiver h)"
  unfolding stop_receiver_def load_handler_def store_handler_def
  by (intro keeps_intro keeps_modify; simp)

lemma keeps_runD: "keeps I m \<Longrightarrow> I s \<Longrightarrow> m s = (t, x) \<Longrightarrow> I t"
  using keepsD [of I m s] by simp

lemma goroutine_update_ok:
  assumes ok: "system_ok u" and j: "j < length (goroutines u)" and g: "goroutines u ! j = g"
    and m: "monitors_at s = (monitors_at (heap u))(g_monitor g \<mapsto> m')"
    and m': "shows_pc m' pc" "watch_pc pc"
    and gs: "goroutines v = (goroutines u)[j := g\<lparr>g_pc := pc\<rparr>]" and hp: "heap v = s"
  shows "system_ok v"
proof -
  let ?gs = "goroutines u"
  have dist: "distinct (map g_monitor ?gs)" using ok by (simp add: system_ok_def)
  have "map g_monitor (?gs[j := g\<lparr>g_pc := pc\<rparr>]) = map g_monitor ?gs"
    using g j by (auto intro: nth_equalityI simp: nth_list_update)
  moreover have "goroutine_ok s (?gs[j := g\<lparr>g_pc := pc\<rparr>] ! i)" if i: "i < length ?gs" for i
  proof (cases "i = j")
    case True
    with j m m' show ?thesis by (simp add: goroutine_ok_def)
  next
    case False
    then have "g_monitor (?gs ! i) \<noteq> g_monitor g"
      using dist i j g nth_eq_iff_index_eq [of "map g_monitor ?gs" i j] by auto
    moreover have "goroutine_ok (heap u) (?gs ! i)"
      using ok i by (simp add: system_ok_def list_all_length)
    ultimately show ?thesis using False m by (simp add: goroutine_ok_def)
  qed
  ultimately show ?thesis
    using dist gs hp by (simp add: system_ok_def list_all_length)
qed

lemma step_ok: "step check u v \<Longrightarrow> system_ok u \<Longrightarrow> system_ok v"
proof (induction rule: step.induct)
  case (step_turn j u g i s pc)
  then have "goroutine_ok (heap u) g" by (auto simp: system_ok_def list_all_length)
  then obtain m where m: "monitors_at (heap u) (g_monitor g) = Some m"
    "shows_pc m (g_pc g)" "watch_pc (g_pc g)"
    by (auto simp: goroutine_ok_def split: option.splits)
  from turn_change [OF step_turn(3) m] obtain m' where
    "monitors_at s = (monitors_at (heap u))(g_monitor g \<mapsto> m')" "shows_pc m' pc" "watch_pc pc"
    by (auto simp: monitor_change_def)
  from goroutine_update_ok [OF step_turn(4,1,2) this] show ?case by simp
next
  case (step_deliver j u g cfg result pc n h ch)
  then have "goroutine_ok (heap u) g" by (auto simp: system_ok_def list_all_length)
  then obtain m where m: "monitors_at (heap u) (g_monitor g) = Some m"
    "shows_pc m (g_pc g)" "watch_pc (g_pc g)"
    by (auto simp: goroutine_ok_def split: option.splits)
  with step_deliver(4) have "shows_pc m pc" "watch_pc pc"
    by (cases "g_pc g"; auto simp: shows_pc_def; case_tac x42; simp)+
  moreover have "monitors_at (heap u) = (monitors_at (heap u))(g_monitor g \<mapsto> m)"
    using m(1) by (simp add: fun_upd_idem)
  ultimately show ?case
    using goroutine_update_ok [OF step_deliver(10,1,2), of "heap u" m pc] by simp
next
  case (step_handle n u h result s)
  then have "monitors_at s = monitors_at (heap u)"
    using keeps_runD [OF handleCheckResult_keeps_monitors [of "monitors_at (heap u)"]] by blast
  with step_handle(5) show ?case by (rule system_ok_heap) simp_all
next
  case (step_receiver_stops n u h s)
  then have "monitors_at s = monitors_at (heap u)"
    using keeps_runD [OF stop_receiver_keeps_monitors [of "monitors_at (heap u)"]] by blast
  with step_receiver_stops(6) show ?case by (rule system_ok_heap) simp_all
next
  case (step_cancel u ctx)
  then show ?case by (rule system_ok_heap) (simp_all add: cancel_ctx_def)
qed

lemma steps_ok: "steps check u v \<Longrightarrow> system_ok u \<Longrightarrow> system_ok v"
  by (induction rule: steps.induct) (auto intro: step_ok)

definition watching :: "('w, 'z) health_scheme \<Rightarrow> nat \<Rightarrow> bool" where
  "watching s r \<longleftrightarrow> (case monitors_at s r of
     None \<Rightarrow> False | Some m \<Rightarrow> isWatcher m \<and> IsMonitoring m \<and> getStream m \<noteq> None)"

lemma started_ok: "distinct ms \<Longrightarrow> list_all (watching s) ms \<Longrightarrow> system_ok (started h ctx ms s)"
  by (auto simp: system_ok_def started_def list_all_iff goroutine_ok_def watching_def shows_pc_def
      comp_def split: option.splits)

text \<open>
  C12: in every reachable state of the goroutines that \<open>Start\<close> launches, whatever the interleaving, the
  streams, the results and the cancellations: a monitor is marked as monitoring exactly while its
  goroutine runs, and once the goroutine has left, the monitor's state is unknown.
\<close>

theorem monitoring_flag_tracks_goroutine:
  fixes s :: "('w, 'z) health_scheme"
  assumes "distinct ms" and "list_all (watching s) ms"
    and "steps check (started h ctx ms s) u"
  shows "list_all (\<lambda>g. \<exists>m. monitors_at (heap u) (g_monitor g) = Some m \<and>
      (IsMonitoring m \<longleftrightarrow> g_pc g \<noteq> Exited) \<and>
      (g_pc g = Exited \<longrightarrow> MonState m = MonitoringStateUnknown)) (goroutines u)"
  using steps_ok [OF assms(3) started_ok [OF assms(1,2)]]
  by (fastforce simp: system_ok_def list_all_iff goroutine_ok_def shows_pc_def
      split: option.splits if_splits)

text \<open>A started pod monitor: two watchers of the pod at address 0, one handler at address 1.\<close>

definition sample_started :: "unit health" where
  "sample_started = fst (Start 3 (fst (NewPodMonitor 0 1 sample_health)))"

lemma sample_started_podmon:
  "podmons_at sample_started 3 = Some ((new_podmon sample_config 0 1 4)\<lparr>pm_cancel := Some 6\<rparr>)"
  and sample_started_facts:
  "config sample_started = Some sample_config"
  "handlers_at sample_started 1 = Some \<lparr>in_chan = 0, IsReceiving = True\<rparr>"
  "monitors_at sample_started 4 =
     Some ((new_watcher 0 0 SubjectVkvma ''vkvma.watch'' HealthWatch)\<lparr>IsMonitoring := True\<rparr>)"
  "monitors_at sample_started 5 =
     Some ((new_watcher 0 0 SubjectApp ''app.watch'' ApplicationWatch)\<lparr>IsMonitoring := True\<rparr>)"
  "cancelled_ctxs sample_started = []"
proof -
  have cfg: "config sample_health = Some sample_config"
    and h: "handlers_at sample_health 1 = Some \<lparr>in_chan = 0, IsReceiving = False\<rparr>"
    and f: "fresh_ref sample_health = 3" "cancelled_ctxs sample_health = []"
    by (simp_all add: sample_health_def)
  let ?s1 = "with_podmon sample_config 0 1 0 sample_health"
  have new: "fst (NewPodMonitor 0 1 sample_health) = ?s1"
    by (simp add: NewPodMonitor_run [OF cfg h] f del: One_nat_def)
  have "podmons_at ?s1 3 = Some (new_podmon sample_config 0 1 4)"
    "handlers_at ?s1 (pm_handler (new_podmon sample_config 0 1 4)) = Some \<lparr>in_chan = 0, IsReceiving = False\<rparr>"
    "Monitors (new_podmon sample_config 0 1 4) = [4, 5]" "(4::nat) \<noteq> 5"
    "monitors_at ?s1 4 = Some (new_watcher 0 0 SubjectVkvma ''vkvma.watch'' HealthWatch)"
    "monitors_at ?s1 5 = Some (new_watcher 0 0 SubjectApp ''app.watch'' ApplicationWatch)"
    "config ?s1 = Some sample_config"
    using h cfg by (simp_all add: with_podmon_def Let_def f new_podmon_def)
  note start = Start_run [OF this]
  show "podmons_at sample_started 3 = Some ((new_podmon sample_config 0 1 4)\<lparr>pm_cancel := Some 6\<rparr>)"
    "config sample_started = Some sample_config"
    "handlers_at sample_started 1 = Some \<lparr>in_chan = 0, IsReceiving = True\<rparr>"
    "monitors_at sample_started 4 =
       Some ((new_watcher 0 0 SubjectVkvma ''vkvma.watch'' HealthWatch)\<lparr>IsMonitoring := True\<rparr>)"
    "monitors_at sample_started 5 =
       Some ((new_watcher 0 0 SubjectApp ''app.watch'' ApplicationWatch)\<lparr>IsMonitoring := True\<rparr>)"
    "cancelled_ctxs sample_started = []"
    unfolding sample_started_def new start
    by (simp_all del: One_nat_def add: with_podmon_def Let_def cfg f new_podmon_def)
qed

theorem monitoring_flag_tracks_goroutine_witness:
  "list_all (\<lambda>g. \<exists>m. monitors_at sample_started (g_monitor g) = Some m \<and>
     (IsMonitoring m \<longleftrightarrow> g_pc g \<noteq> Exited) \<and>
     (g_pc g = Exited \<longrightarrow> MonState m = MonitoringStateUnknown))
     (goroutines (started 1 6 [4, 5] sample_started))"
proof -
  have "distinct [4, 5 :: nat]" by simp
  moreover have "list_all (watching sample_started) [4, 5]"
    by (simp add: watching_def sample_started_facts new_watcher_def)
  moreover have "heap (started 1 6 [4, 5] sample_started) = sample_started"
    by (simp add: started_def)
  ultimately show ?thesis
    using monitoring_flag_tracks_goroutine [OF _ _ steps_refl, of "[4, 5]" sample_started 1 6]
    by (simp only: simp_thms)
qed

section \<open>When the wait is over\<close>

text \<open>
  The receiver of a pod that is monitored alone: it leaves only after its context is cancelled, and has
  then marked its handler as not receiving.
\<close>

definition receiver_ok :: "nat \<Rightarrow> nat \<Rightarrow> ('w, 'z) health_scheme system \<Rightarrow> bool" where
  "receiver_ok h ctx u \<longleftrightarrow>
     (\<exists>pc ch. receivers u = [\<lparr>r_handler = h, r_ctx = ctx, r_pc = pc\<rparr>] \<and>
        handlers_at (heap u) h = Some ch \<and>
        (pc = ReceiverExited \<longrightarrow> \<not> IsReceiving ch \<and> ctx \<in> set (cancelled_ctxs (heap u))))"

text \<open>What no turn of a watch loop and no handled result changes.\<close>

definition same_control ::
  "('w, 'z) health_scheme \<Rightarrow> ('w, 'z) health_scheme \<Rightarrow> bool" where
  "same_control s t \<longleftrightarrow> handlers_at t = handlers_at s \<and> cancelled_ctxs t = cancelled_ctxs s"

lemma same_control_parts:
  "keeps (same_control s) (load_monitor r)" "keeps (same_control s) (load_pod p)"
  "keeps (same_control s) (Inc c)" "keeps (same_control s) Config" "keeps (same_control s) (ctx_done ctx)"
  "keeps (same_control s) (store_monitor r m)" "keeps (same_control s) Now"
  "keeps (same_control s) GetNotifier" "keeps (same_control s) (update_pod p f)"
  "keeps (same_control s) (call_notifier n p)"
  unfolding load_monitor_def load_pod_def Inc_def Config_def ctx_done_def store_monitor_def Now_def
    GetNotifier_def update_pod_def store_pod_def call_notifier_def
  by (intro keeps_intro keeps_modify; simp add: same_control_def load_pod_def; intro keeps_intro)+

lemma same_control_results:
  "keeps (same_control s) (NewCheckResult r failed msg data)" "keeps (same_control s) (stop_and_exit r)"
  unfolding NewCheckResult_def incrementFailures_def resetFailures_def stop_and_exit_def stop_monitor_def
  by (intro keeps_intro same_control_parts)+

lemma same_control_keeps:
  "keeps (same_control s) (watch_top r i st)" "keeps (same_control s) (watch_select r ctx st)"
  "keeps (same_control s) (watch_recv r ctx i k)" "keeps (same_control s) (handleCheckResult result)"
proof -
  note parts = keeps_intro same_control_parts same_control_results
  show "keeps (same_control s) (watch_top r i st)"
    unfolding watch_top_def by (intro parts)
  show "keeps (same_control s) (watch_select r ctx st)"
    unfolding watch_select_def by (intro parts; cases st; simp; intro parts)
  show "keeps (same_control s) (watch_recv r ctx i k)"
    unfolding watch_recv_def by (cases i) (simp_all, (intro parts)+)
  have "keeps (same_control s) (case x of MonitoringStateHealthy \<Rightarrow> ret ()
      | MonitoringStateUnhealthy \<Rightarrow> (case y of SubjectVkvma \<Rightarrow> ret () | SubjectApp \<Rightarrow> ret () | _ \<Rightarrow> ret ())
      | MonitoringStateUnknown \<Rightarrow> ret ())" for x y
    by (cases x; cases y; simp; intro parts)
  then show "keeps (same_control s) (handleCheckResult result)"
    unfolding handleCheckResult_def getState_def
    by (intro parts; (cases "Data result"; simp; intro parts)?)
qed

lemma turn_same_control:
  assumes "turn check r ctx i pc s = (t, Ret pc')" and "watch_pc pc"
  shows "same_control s t"
proof -
  have "same_control s s" by (simp add: same_control_def)
  with assms show ?thesis
    by (cases pc) (auto simp: ret_run dest: keeps_runD [OF same_control_keeps(1)]
        keeps_runD [OF same_control_keeps(2)] keeps_runD [OF same_control_keeps(3)])
qed

lemma receiver_ok_same:
  "receiver_ok h ctx u \<Longrightarrow> same_control (heap u) s \<Longrightarrow> heap v = s \<Longrightarrow> receivers v = receivers u \<Longrightarrow>
   receiver_ok h ctx v"
  by (auto simp: receiver_ok_def same_control_def)

lemma step_receiver_ok:
  "step check u v \<Longrightarrow> system_ok u \<Longrightarrow> receiver_ok h ctx u \<Longrightarrow> receiver_ok h ctx v"
proof (induction rule: step.induct)
  case (step_turn j u g i s pc)
  then have "watch_pc (g_pc g)"
    by (auto simp: system_ok_def list_all_length goroutine_ok_def split: option.splits)
  from receiver_ok_same [OF step_turn(5) turn_same_control [OF step_turn(3) this]] show ?case by simp
next
  case step_deliver
  then show ?case by (auto simp: receiver_ok_def)
next
  case (step_handle n u r result s)
  then have "same_control (heap u) s"
    using keeps_runD [OF same_control_keeps(4)] by (metis same_control_def)
  with step_handle show ?case by (auto simp: receiver_ok_def same_control_def)
next
  case (step_receiver_stops n u r s)
  then show ?case
    by (auto simp: receiver_ok_def stop_receiver_def andthen_run load_handler_run store_runs)
next
  case step_cancel
  then show ?case by (auto simp: receiver_ok_def cancel_ctx_def)
qed

lemma steps_receiver_ok:
  "steps check u v \<Longrightarrow> system_ok u \<Longrightarrow> receiver_ok h ctx u \<Longrightarrow> receiver_ok h ctx v"
  by (induction rule: steps.induct) (auto intro: step_receiver_ok steps_ok)

lemma step_goroutines:
  "step check u v \<Longrightarrow> map (\<lambda>g. (g_monitor g, g_ctx g)) (goroutines v) =
     map (\<lambda>g. (g_monitor g, g_ctx g)) (goroutines u)"
  by (induction rule: step.induct) (auto intro!: nth_equalityI simp: nth_list_update)

lemma steps_goroutines:
  "steps check u v \<Longrightarrow> map (\<lambda>g. (g_monitor g, g_ctx g)) (goroutines v) =
     map (\<lambda>g. (g_monitor g, g_ctx g)) (goroutines u)"
  by (induction rule: steps.induct) (simp_all add: step_goroutines)

text \<open>How far a monitor and a handler are from being stopped.\<close>

definition monitor_marks :: "('w, 'z) health_scheme \<Rightarrow> nat \<Rightarrow> (MonitoringState \<times> bool) option" where
  "monitor_marks s r = map_option (\<lambda>m. (MonState m, IsMonitoring m)) (monitors_at s r)"

lemma waited_marks:
  assumes "distinct ms" and "list_all (watching s) ms" and "handlers_at s h = Some ch"
    and "steps check (started h ctx ms s) u" and "wait_returns ctx u"
  shows "list_all (\<lambda>r. monitor_marks (heap u) r = Some (MonitoringStateUnknown, False)) ms \<and>
    map_option IsReceiving (handlers_at (heap u) h) = Some False \<and> ctx \<in> set (cancelled_ctxs (heap u))"
proof -
  have ok: "system_ok (started h ctx ms s)" by (rule started_ok [OF assms(1,2)])
  have "receiver_ok h ctx (started h ctx ms s)"
    using assms(3) by (simp add: receiver_ok_def started_def)
  from steps_receiver_ok [OF assms(4) ok this] assms(5)
  have "map_option IsReceiving (handlers_at (heap u) h) = Some False" "ctx \<in> set (cancelled_ctxs (heap u))"
    by (auto simp: receiver_ok_def wait_returns_def)
  moreover have "monitor_marks (heap u) r = Some (MonitoringStateUnknown, False)" if r: "r \<in> set ms" for r
  proof -
    have "map (\<lambda>g. (g_monitor g, g_ctx g)) (goroutines u) = map (\<lambda>r. (r, ctx)) ms"
      using steps_goroutines [OF assms(4)] by (simp add: started_def comp_def)
    then have "(r, ctx) \<in> (\<lambda>g. (g_monitor g, g_ctx g)) ` set (goroutines u)"
      using r by (metis (mono_tags, lifting) image_eqI list.set_map)
    then obtain g where g: "g \<in> set (goroutines u)" "g_monitor g = r" "g_ctx g = ctx" by auto
    then have "g_pc g = Exited" using assms(5) by (simp add: wait_returns_def list_all_iff)
    moreover have "goroutine_ok (heap u) g"
      using steps_ok [OF assms(4) ok] g(1) by (simp add: system_ok_def list_all_iff)
    ultimately show ?thesis
      using g(2) by (auto simp: goroutine_ok_def shows_pc_def monitor_marks_def split: option.splits)
  qed
  ultimately show ?thesis by (simp add: list_all_iff)
qed

text \<open>
  C35: what \<open>Stop\<close> leaves behind when it returns, for a pod that is monitored alone.  \<open>Stop\<close> itself only
  cancels and waits; but in every state of the goroutines in which the wait is over, whatever the
  interleaving, the streams and the results were, each of them has marked its own monitor as unknown and
  not monitoring, the handler is marked as not receiving, and the context is cancelled: just the marks of
  the model's \<open>Stop\<close>, which makes them in one go.
\<close>

theorem Stop_leaves_waited_marks:
  fixes s :: "('w, 'z) health_scheme"
  assumes "podmons_at s r = Some pm" and "pm_cancel pm = Some ctx" and "Monitors pm = [v, a]" and "v \<noteq> a"
    and "list_all (watching s) [v, a]" and "handlers_at s (pm_handler pm) = Some ch"
    and "steps check (started (pm_handler pm) ctx [v, a] s) u" and "wait_returns ctx u"
  shows "\<exists>t. Stop r s = (t, Ret ()) \<and>
    list_all (\<lambda>k. monitor_marks (heap u) k = Some (MonitoringStateUnknown, False) \<and>
      monitor_marks t k = monitor_marks (heap u) k) [v, a] \<and>
    map_option IsReceiving (handlers_at (heap u) (pm_handler pm)) = Some False \<and>
    map_option IsReceiving (handlers_at t (pm_handler pm)) = Some False \<and>
    ctx \<in> set (cancelled_ctxs (heap u)) \<and> ctx \<in> set (cancelled_ctxs t)"
proof -
  obtain mv ma where m: "monitors_at s v = Some mv" "monitors_at s a = Some ma"
    using assms(5) by (auto simp: watching_def split: option.splits)
  have "distinct [v, a]" using assms(4) by simp
  note waited = waited_marks [OF this assms(5-8)]
  let ?t = "fst (Stop r s)"
  note stop = Stop_run [OF assms(1,6,3,4) m assms(2)]
  have "Stop r s = (?t, Ret ())" by (simp add: stop)
  moreover have "map_option IsReceiving (handlers_at ?t (pm_handler pm)) = Some False"
    "ctx \<in> set (cancelled_ctxs ?t)"
    "list_all (\<lambda>k. monitor_marks ?t k = Some (MonitoringStateUnknown, False)) [v, a]"
    using assms(4) by (simp_all add: stop monitor_marks_def)
  ultimately show ?thesis using waited by (intro exI [of _ ?t]) (auto simp: list_all_iff)
qed

text \<open>A run in which the wait ends: the context is cancelled before the goroutines do anything.\<close>

lemma stop_can_return:
  fixes s :: "('w, 'z) health_scheme"
  assumes "v \<noteq> a" and "list_all (watching s) [v, a]" and "handlers_at s h = Some ch"
  shows "\<exists>u. steps check (started h ctx [v, a] s) u \<and> wait_returns ctx u"
proof -
  let ?g = "\<lambda>r pc. \<lparr>g_monitor = r, g_ctx = ctx, g_pc = pc\<rparr>"
  let ?rc = "\<lambda>pc. \<lparr>r_handler = h, r_ctx = ctx, r_pc = pc\<rparr>"
  let ?s = "cancel_ctx ctx s"
  let ?u = "\<lambda>t p q pc. \<lparr>heap = t, goroutines = [?g v p, ?g a q], receivers = [?rc pc]\<rparr>"
  obtain mv ma where m: "monitors_at s v = Some mv" "monitors_at s a = Some ma"
    "isWatcher mv" "isWatcher ma" "getStream mv \<noteq> None" "getStream ma \<noteq> None"
    using assms(2) by (auto simp: watching_def split: option.splits)
  let ?off = "\<lambda>m. m\<lparr>MonState := MonitoringStateUnknown, IsMonitoring := False\<rparr>"
  let ?s1 = "?s\<lparr>monitors_at := (monitors_at s)(v \<mapsto> ?off mv)\<rparr>"
  let ?s2 = "?s1\<lparr>monitors_at := (monitors_at s)(v \<mapsto> ?off mv, a \<mapsto> ?off ma)\<rparr>"
  let ?s3 = "?s2\<lparr>handlers_at := (handlers_at s)(h \<mapsto> ch\<lparr>IsReceiving := False\<rparr>)\<rparr>"
  let ?top = "AtTop NilStream" and ?sel = "AtSelect NilStream"
  have start: "started h ctx [v, a] s = ?u s ?top ?top Receiving" using m by (simp add: started_def)
  have turn: "step check (?u t p q pc) (?u t' p' q pc)"
    if "turn check v ctx Elapsed p t = (t', Ret p')" for t t' p p' q pc
    using step.step_turn [of 0 "?u t p q pc" "?g v p" check Elapsed t' p'] that by simp
  have turn2: "step check (?u t p q pc) (?u t' p q' pc)"
    if "turn check a ctx Elapsed q t = (t', Ret q')" for t t' p q q' pc
    using step.step_turn [of 1 "?u t p q pc" "?g a q" check Elapsed t' q'] that by simp
  have 1: "step check (?u s ?top ?top Receiving) (?u ?s ?top ?top Receiving)"
    using step.step_cancel [of check "?u s ?top ?top Receiving" ctx] by simp
  have 2: "step check (?u ?s ?top ?top Receiving) (?u ?s ?sel ?top Receiving)"
    using m by (intro turn) (auto simp: watch_top_def go_simps heap_runs cancel_ctx_def)
  have 3: "step check (?u ?s ?sel ?top Receiving) (?u ?s1 Exited ?top Receiving)"
    using m by (intro turn) (simp add: watch_select_def stop_and_exit_run cancel_ctx_def)
  have 4: "step check (?u ?s1 Exited ?top Receiving) (?u ?s1 Exited ?sel Receiving)"
    using m assms(1) by (intro turn2) (auto simp: watch_top_def go_simps heap_runs cancel_ctx_def)
  have 5: "step check (?u ?s1 Exited ?sel Receiving) (?u ?s2 Exited Exited Receiving)"
    using m assms(1) by (intro turn2) (simp add: watch_select_def stop_and_exit_run cancel_ctx_def)
  have 6: "step check (?u ?s2 Exited Exited Receiving) (?u ?s3 Exited Exited ReceiverExited)"
    using step.step_receiver_stops [of 0 "?u ?s2 Exited Exited Receiving" "?rc Receiving" ?s3 check] assms(3)
    by (simp add: stop_receiver_def andthen_run load_handler_run store_runs cancel_ctx_def)
  have "steps check (started h ctx [v, a] s) (?u ?s3 Exited Exited ReceiverExited)"
    unfolding start by (rule steps_step [OF steps_step [OF steps_step [OF steps_step [OF
      steps_step [OF steps_step [OF steps_refl 1] 2] 3] 4] 5] 6])
  moreover have "wait_returns ctx (?u ?s3 Exited Exited ReceiverExited)" by (simp add: wait_returns_def)
  ultimately show ?thesis by blast
qed

theorem Stop_leaves_waited_marks_witness:
  "\<exists>u t. steps undefined (started 1 6 [4, 5] sample_started) u \<and> wait_returns 6 u \<and>
    Stop 3 sample_started = (t, Ret ()) \<and> monitor_marks t 4 = monitor_marks (heap u) 4"
proof -
  have w: "list_all (watching sample_started) [4, 5]"
    by (simp add: watching_def sample_started_facts new_watcher_def)
  have pm: "podmons_at sample_started 3 = Some ((new_podmon sample_config 0 1 4)\<lparr>pm_cancel := Some 6\<rparr>)"
    by (rule sample_started_podmon)
  have ne: "(4::nat) \<noteq> 5" by simp
  from stop_can_return [OF ne w sample_started_facts(2)] obtain u where
    u: "steps undefined (started 1 6 [4, 5] sample_started) u" "wait_returns 6 u" by blast
  show ?thesis
    using Stop_leaves_waited_marks [OF pm, of 6 4 5 _ undefined u] w u sample_started_facts(2)
    by (auto simp: new_podmon_def)
qed

section \<open>Stopping\<close>

text \<open>A watch loop that is sending, with every receiver gone.\<close>

fun sending :: "pc \<Rightarrow> bool" where
  "sending (AtSend result after) \<longleftrightarrow> True"
| "sending _ \<longleftrightarrow> False"

lemma turn_sending: "sending pc \<Longrightarrow> turn check r ctx i pc = ret pc"
  by (cases pc rule: sending.cases) simp_all

definition stuck :: "nat \<Rightarrow> 's system \<Rightarrow> bool" where
  "stuck j u \<longleftrightarrow> j < length (goroutines u) \<and>
     sending (g_pc (goroutines u ! j)) \<and>
     list_all (\<lambda>h. r_pc h = ReceiverExited) (receivers u)"

lemma step_stuck:
  assumes "step check u v" and "stuck j u"
  shows "stuck j v \<and> map g_ctx (goroutines v) = map g_ctx (goroutines u)"
  using assms
proof (induction rule: step.induct)
  case (step_turn i u g inp s pc)
  then show ?case
    by (cases "i = j")
      (auto simp: stuck_def ret_run turn_sending nth_list_update intro!: nth_equalityI)
next
  case step_deliver
  then show ?case by (auto simp: stuck_def list_all_length)
next
  case step_handle
  then show ?case by (auto simp: stuck_def list_all_length)
next
  case step_receiver_stops
  then show ?case by (auto simp: stuck_def list_all_length)
qed (simp_all add: stuck_def)

lemma steps_stuck:
  "steps check u v \<Longrightarrow> stuck j u \<Longrightarrow>
   stuck j v \<and> map g_ctx (goroutines v) = map g_ctx (goroutines u)"
  by (induction rule: steps.induct) (auto dest: step_stuck)

lemma stuck_no_wait:
  assumes "stuck j u" and "map g_ctx (goroutines u) ! j = ctx"
  shows "\<not> wait_returns ctx u"
proof -
  have "goroutines u ! j \<in> set (goroutines u)" "g_ctx (goroutines u ! j) = ctx"
    using assms by (auto simp: stuck_def)
  moreover have "sending (g_pc (goroutines u ! j))"
    using assms by (simp add: stuck_def)
  ultimately show ?thesis by (fastforce simp: wait_returns_def list_all_iff)
qed

lemma step_turn_first:
  "goroutines u = g # gs \<Longrightarrow> turn check (g_monitor g) (g_ctx g) i (g_pc g) (heap u) = (s, Ret pc) \<Longrightarrow>
   step check u (u\<lparr>heap := s, goroutines := g\<lparr>g_pc := pc\<rparr> # gs\<rparr>)"
  using step.step_turn [of 0 u g check i s pc] by simp

lemma steps_two: "step check u v \<Longrightarrow> step check v w \<Longrightarrow> steps check u w"
  by (rule steps_step [OF steps_step [OF steps_refl]])

text \<open>The first two turns of a watch loop whose agent cannot be reached.\<close>

lemma steps_to_send:
  assumes "config s = Some cfg" and "monitors_at s r = Some m" and "isWatcher m"
    and "getStream m = Some k" and "ctx \<notin> set (cancelled_ctxs s)"
  shows "\<exists>t result after. steps check (started h ctx (r # ms) s)
      (started h ctx (r # ms) s\<lparr>heap := t, goroutines :=
         \<lparr>g_monitor = r, g_ctx = ctx, g_pc = AtSend result after\<rparr> #
         tl (goroutines (started h ctx (r # ms) s))\<rparr>) \<and>
    handlers_at t = handlers_at s"
proof -
  let ?u = "started h ctx (r # ms) s"
  let ?gs = "tl (goroutines ?u)"
  let ?g = "\<lambda>pc. \<lparr>g_monitor = r, g_ctx = ctx, g_pc = pc\<rparr>"
  let ?v = "?u\<lparr>heap := s, goroutines := ?g (AtSelect NilStream) # ?gs\<rparr>"
  have gs: "goroutines ?u = ?g (AtTop NilStream) # ?gs" "heap ?u = s"
    using assms by (simp_all add: started_def)
  have "turn check r ctx (Opened NilStream) (AtTop NilStream) s = (s, Ret (AtSelect NilStream))"
    using assms by (simp add: watch_top_def go_simps heap_runs)
  then have 1: "step check ?u ?v"
    using step_turn_first [OF gs(1), of check "Opened NilStream" s "AtSelect NilStream"]
    by (simp only: gs(2) goroutine.simps)
  let ?r = "NewCheckResult r True ''Health check stream is nil'' NoData s"
  obtain t result where t: "?r = (t, Ret result)" "handlers_at t = handlers_at s"
    using assms by (simp add: NewCheckResult_run)
  let ?pc = "AtSend result (SleepFor (Seconds (StreamRetryIntervalSeconds (HealthConf cfg))))"
  have "turn check r ctx Elapsed (AtSelect NilStream) s = (t, Ret ?pc)"
    using assms t by (simp add: watch_select_def go_simps heap_runs)
  then have 2: "step check ?v (?u\<lparr>heap := t, goroutines := ?g ?pc # ?gs\<rparr>)"
    using step.step_turn [of 0 ?v "?g (AtSelect NilStream)" check Elapsed t ?pc] by simp
  from steps_two [OF 1 2] t(2) show ?thesis by blast
qed

text \<open>
  C22: \<open>Stop\<close> of a provider's only pod can wait for ever (with other pods, whose receivers read the same
  channel, one of those can still take the result).  From every state that \<open>Start\<close> leaves with a watcher first
  in the list, there is a run in which the agent cannot be reached, the watch loop blocks on its send, the
  context is cancelled and the handler's goroutine leaves; after that no run at all lets
  \<open>waitGroup.Wait\<close> return, since the send is not in a \<open>select\<close> with the cancellation.
\<close>

theorem stop_can_wait_forever:
  fixes s :: "('w, 'z) health_scheme"
  assumes "config s = Some cfg" and "handlers_at s h = Some ch"
    and "monitors_at s r = Some m" and "isWatcher m" and "getStream m = Some k"
    and "ctx \<notin> set (cancelled_ctxs s)"
  shows "\<exists>v. steps check (started h ctx (r # ms) s) v \<and> ctx \<in> set (cancelled_ctxs (heap v)) \<and>
    (\<forall>w. steps check v w \<longrightarrow> \<not> wait_returns ctx w)"
proof -
  let ?u = "started h ctx (r # ms) s"
  from steps_to_send [OF assms(1,3,4,5,6)] obtain t result after where
    run: "steps check ?u (?u\<lparr>heap := t, goroutines :=
         \<lparr>g_monitor = r, g_ctx = ctx, g_pc = AtSend result after\<rparr> # tl (goroutines ?u)\<rparr>)"
    (is "steps check ?u ?v") and hs: "handlers_at t = handlers_at s"
    by blast
  let ?w = "?v\<lparr>heap := cancel_ctx ctx t\<rparr>"
  have cancel: "step check ?v ?w" using step.step_cancel [of check ?v ctx] by simp
  let ?t = "(cancel_ctx ctx t)\<lparr>handlers_at := (handlers_at t)(h \<mapsto> ch\<lparr>IsReceiving := False\<rparr>)\<rparr>"
  let ?x = "?w\<lparr>heap := ?t, receivers := [\<lparr>r_handler = h, r_ctx = ctx, r_pc = ReceiverExited\<rparr>]\<rparr>"
  have "receivers ?w = [\<lparr>r_handler = h, r_ctx = ctx, r_pc = Receiving\<rparr>]"
    by (simp add: started_def)
  moreover have "stop_receiver h (heap ?w) = (?t, Ret ())"
    using assms(2) hs by (simp add: stop_receiver_def go_simps heap_runs cancel_ctx_def)
  ultimately have leave: "step check ?w ?x"
    using step.step_receiver_stops [of 0 ?w "\<lparr>r_handler = h, r_ctx = ctx, r_pc = Receiving\<rparr>" ?t check]
    by (simp add: cancel_ctx_def)
  have "steps check ?u ?x" by (rule steps_step [OF steps_step [OF run cancel] leave])
  moreover have "ctx \<in> set (cancelled_ctxs (heap ?x))" by (simp add: cancel_ctx_def)
  moreover have "stuck 0 ?x" and "map g_ctx (goroutines ?x) ! 0 = ctx"
    by (simp_all add: stuck_def)
  then have "\<not> wait_returns ctx w" if "steps check ?x w" for w
    using steps_stuck [OF that] stuck_no_wait by metis
  ultimately show ?thesis by blast
qed

theorem stop_can_wait_forever_witness:
  "\<exists>v. steps undefined (started 1 6 [4, 5] sample_started) v \<and> 6 \<in> set (cancelled_ctxs (heap v)) \<and>
    (\<forall>w. steps undefined v w \<longrightarrow> \<not> wait_returns 6 w)"
  using stop_can_wait_forever [of sample_started sample_config 1
      "\<lparr>in_chan = 0, IsReceiving = True\<rparr>" 4
      "(new_watcher 0 0 SubjectVkvma ''vkvma.watch'' HealthWatch)\<lparr>IsMonitoring := True\<rparr>"
      HealthWatch 6 undefined "[5]"]
  by (simp del: One_nat_def add: sample_started_facts new_watcher_def)

text \<open>
  C40: a check loop is not caught this way: once its context is cancelled, and with no receiver left to
  take its result, at most three turns of its own lead it out of the loop wherever it is, and mark the
  monitor unknown and not monitoring, provided its check function returns.
\<close>

theorem check_loop_exits:
  fixes s :: "('w, 'z) health_scheme"
  assumes "ctx \<in> set (cancelled_ctxs s)" and "monitors_at s r = Some m" and "\<not> watch_pc pc"
    and "\<forall>t. \<exists>result t' m'. check r t = (t', Ret result) \<and> cancelled_ctxs t' = cancelled_ctxs t \<and>
      monitors_at t' r = Some m'"
  shows "\<exists>n \<le> 3. \<exists>t m'.
    ((\<lambda>x. case x of (u, Ret q) \<Rightarrow> turn check r ctx i q u | (u, Crash c) \<Rightarrow> (u, Crash c)) ^^ n)
      (s, Ret pc) = (t, Ret Exited) \<and>
    monitors_at t r = Some m' \<and> MonState m' = MonitoringStateUnknown \<and> \<not> IsMonitoring m'"
    (is "\<exists>n \<le> 3. \<exists>t m'. (?f ^^ n) _ = _ \<and> ?done t m'")
proof -
  have sel: "\<exists>t m'. ?f (u, Ret (CheckSelect result)) = (t, Ret Exited) \<and> ?done t m'"
    if "ctx \<in> set (cancelled_ctxs u)" and "monitors_at u r = Some mu" for u mu result
    using that by (simp add: stop_and_exit_run)
  have top: "\<exists>t m'. (?f ^^ 2) (s, Ret CheckTop) = (t, Ret Exited) \<and> ?done t m'"
  proof -
    from assms(4) obtain result t' m' where
      c: "check r s = (t', Ret result)" "cancelled_ctxs t' = cancelled_ctxs s" "monitors_at t' r = Some m'"
      by blast
    then have "?f (s, Ret CheckTop) = (t', Ret (CheckSelect result))"
      by (simp add: check_top_def go_simps)
    moreover have "ctx \<in> set (cancelled_ctxs t')" using c(2) assms(1) by simp
    ultimately show ?thesis using sel [OF _ c(3)] by (simp add: numeral_2_eq_2)
  qed
  show ?thesis
  proof (cases pc)
    case CheckTop
    with top show ?thesis by (intro exI [of _ 2]) simp
  next
    case (CheckSelect result)
    with sel [OF assms(1,2), of result] show ?thesis by (intro exI [of _ 1]) simp
  next
    case (CheckSleep ns)
    with top show ?thesis
      by (intro exI [of _ 3]) (simp add: numeral_3_eq_3 numeral_2_eq_2 ret_run)
  qed (use assms(3) in simp_all)
qed

theorem check_loop_exits_witness:
  "\<exists>n \<le> 3. \<exists>t m'.
    ((\<lambda>x. case x of (u, Ret q) \<Rightarrow> turn (\<lambda>r t. (t\<lparr>monitors_at := [2 \<mapsto> sample_monitor]\<rparr>, Ret sample_result))
        2 6 Elapsed q u | (u, Crash c) \<Rightarrow> (u, Crash c)) ^^ n)
      (cancel_ctx 6 sample_health, Ret (CheckSleep 10)) = (t, Ret Exited) \<and>
    monitors_at t 2 = Some m' \<and> MonState m' = MonitoringStateUnknown \<and> \<not> IsMonitoring m'"
  by (rule check_loop_exits [where m = sample_monitor])
    (simp_all add: cancel_ctx_def sample_health_def)

end
