(* ===== verification/Aws.thy ===== *)
theory Aws
  imports Utils
begin

text \<open>
  The AWS clients of \<open>internal/awsutils\<close> (\<open>ec2_client.go\<close>, \<open>s3_client.go\<close>).  The AWS SDK is not part of
  the program: its operations are fields of the records \<open>service\<close> and \<open>sdk\<close>, functions that take the
  input structure and the outside world and return an error or an output structure and the new world.
  Pointers of the SDK's structures are options.
\<close>

section \<open>Structures of the EC2 API\<close>

record ec2_tag =
  TagKey :: "string option"
  TagValue :: "string option"

record tag_specification =
  ResourceType :: string
  Tags :: "ec2_tag list"

record ec2_filter =
  FilterName :: string
  FilterValues :: "string list"

record ec2_instance =
  InstanceId :: "string option"
  InstanceTags :: "ec2_tag list"
  InstanceState :: "string option"
  PrivateIpAddress :: "string option"
  IamInstanceProfileId :: "string option option"
  SecurityGroupIds :: "string option list"

record describe_instances_input =
  InstanceIds :: "string list"
  Filters :: "ec2_filter list"
  InputNextToken :: "string option"

record describe_instances_output =
  Reservations :: "ec2_instance list list"
  NextToken :: "string option"

record run_instances_input =
  IamInstanceProfileName :: string
  ImageId :: string
  RunInstanceType :: string
  MaxCount :: int
  MinCount :: int
  RunSecurityGroupIds :: "string list"
  SubnetId :: string
  TagSpecifications :: "tag_specification list"
  RunUserData :: string
  KeyName :: "string option"

record network_interface =
  PrivateDnsName :: "string option"
  NetworkInterfaceId :: "string option"

record create_network_interface_input =
  Description :: string
  EniSubnetId :: string
  EniTagSpecifications :: "tag_specification list"

record create_tags_input =
  Resources :: "string list"
  NewTags :: "ec2_tag list"

record modify_instance_attribute_input =
  ModifiedInstanceId :: string
  Groups :: "string list"

text \<open>How long the waiter for running instances polls, in nanoseconds.\<close>

record waiter_options =
  MaxDelay :: int
  MinDelay :: int

type_synonym ('w, 'i, 'o) aws_op = "'i \<Rightarrow> 'w \<Rightarrow> (go_error + 'o) \<times> 'w"

record 'w service =
  svc_DescribeNetworkInterfaces :: "('w, ec2_filter list, network_interface list) aws_op"
  svc_DeleteNetworkInterface :: "('w, string, unit) aws_op"
  svc_CreateNetworkInterface ::
    "('w, create_network_interface_input, network_interface option) aws_op"
  svc_TerminateInstances :: "('w, string list, string option list) aws_op"
  svc_RunInstances :: "('w, run_instances_input, ec2_instance list) aws_op"
  svc_DescribeInstances :: "('w, describe_instances_input, describe_instances_output) aws_op"
  svc_DescribeInstanceStatus :: "('w, string list, string option list option) aws_op"
  svc_CreateTags :: "('w, create_tags_input, unit) aws_op"
  svc_ModifyInstanceAttribute :: "('w, modify_instance_attribute_input, unit) aws_op"
  svc_DescribeSecurityGroups :: "('w, ec2_filter list, string option list) aws_op"
  svc_DescribeIamInstanceProfileAssociations :: "('w, ec2_filter list, string option list) aws_op"
  svc_ReplaceIamInstanceProfileAssociation :: "('w, string \<times> string, unit) aws_op"
  wait_InstanceRunning ::
    "waiter_options \<Rightarrow> int \<Rightarrow> describe_instances_input \<Rightarrow> 'w \<Rightarrow> go_error option \<times> 'w"

text \<open>The settings both kinds of client are built with; durations are in nanoseconds.\<close>

record client_settings =
  HttpTimeout :: int
  DialTimeout :: int
  KeepAlive :: int
  ClientRegion :: string

text \<open>
  \<open>LoadDefaultConfig\<close> reads credentials and the environment; \<open>ec2_NewFromConfig\<close> and
  \<open>PresignGetObject_op\<close> (bucket, key) are the services; \<open>unmarshal_tags\<close> is \<open>json.Unmarshal\<close> into an
  empty \<open>map[string]string\<close>, as far as it gets.
\<close>

record 'w sdk =
  LoadDefaultConfig :: "client_settings \<Rightarrow> 'w \<Rightarrow> go_error option \<times> 'w"
  ec2_NewFromConfig :: "client_settings \<Rightarrow> 'w service"
  PresignGetObject_op :: "client_settings \<Rightarrow> ('w, string \<times> string, string) aws_op"
  unmarshal_tags :: "string \<Rightarrow> (string, string) go_map"

section \<open>Clients\<close>

record 'w Client =
  Svc :: "'w service"
  WaiterSvc :: waiter_options

record 'w S3Client =
  PresignSvc :: "('w, string \<times> string, string) aws_op"

definition nanoseconds :: int where
  "nanoseconds = 1000000000"

definition http_settings :: "ProviderConfig \<Rightarrow> client_settings" where
  "http_settings cfg = \<lparr>HttpTimeout = Seconds (AWSClientTimeoutSeconds cfg),
     DialTimeout = Seconds (AWSClientDialerTimeoutSeconds cfg), KeepAlive = - 1,
     ClientRegion = []\<rparr>"

text \<open>\<open>klog.Fatalf\<close> ends the process, so the error return after it is never reached.\<close>

definition NewEc2Client ::
  "('w, 'e) sdk_scheme \<Rightarrow> (('w, 'z) base_scheme, go_error + 'w Client) go" where
  "NewEc2Client sdk =
     andthen Config (\<lambda>vkcfg.
     andthen (call (LoadDefaultConfig sdk (http_settings vkcfg))) (\<lambda>err.
     case err of
       Some e \<Rightarrow> die (LogFatal (''unable to load SDK config, '' @ Error e))
     | None \<Rightarrow>
         (let svc = ec2_NewFromConfig sdk ((http_settings vkcfg)\<lparr>ClientRegion := Region vkcfg\<rparr>)
          in ret (Inr \<lparr>Svc = svc,
               WaiterSvc = \<lparr>MaxDelay = 15 * nanoseconds, MinDelay = 5 * nanoseconds\<rparr>\<rparr>))))"

text \<open>The S3 client does not set the region.\<close>

definition NewS3Client ::
  "('w, 'e) sdk_scheme \<Rightarrow> (('w, 'z) base_scheme, go_error + 'w S3Client) go" where
  "NewS3Client sdk =
     andthen Config (\<lambda>vkcfg.
     andthen (call (LoadDefaultConfig sdk (http_settings vkcfg))) (\<lambda>err.
     case err of
       Some e \<Rightarrow> die (LogFatal (''unable to load SDK config, '' @ Error e))
     | None \<Rightarrow> ret (Inr \<lparr>PresignSvc = PresignGetObject_op sdk (http_settings vkcfg)\<rparr>)))"

definition PresignGetObject ::
  "'w S3Client \<Rightarrow> string \<Rightarrow> string \<Rightarrow> (('w, 'z) base_scheme, go_error + string) go" where
  "PresignGetObject client bucket key = call (PresignSvc client (bucket, key))"

definition DescribeNetworkInterfaces ::
  "'w Client \<Rightarrow> ec2_filter list \<Rightarrow> (('w, 'z) base_scheme, go_error + network_interface list) go" where
  "DescribeNetworkInterfaces client params = call (svc_DescribeNetworkInterfaces (Svc client) params)"

definition client_DeleteNetworkInterface ::
  "'w Client \<Rightarrow> string \<Rightarrow> (('w, 'z) base_scheme, go_error + unit) go" where
  "client_DeleteNetworkInterface client params = call (svc_DeleteNetworkInterface (Svc client) params)"

definition client_CreateNetworkInterface ::
  "'w Client \<Rightarrow> create_network_interface_input \<Rightarrow>
   (('w, 'z) base_scheme, go_error + network_interface option) go" where
  "client_CreateNetworkInterface client params = call (svc_CreateNetworkInterface (Svc client) params)"

definition TerminateInstances ::
  "'w Client \<Rightarrow> string list \<Rightarrow> (('w, 'z) base_scheme, go_error + string option list) go" where
  "TerminateInstances client params = call (svc_TerminateInstances (Svc client) params)"

definition RunInstances ::
  "'w Client \<Rightarrow> run_instances_input \<Rightarrow> (('w, 'z) base_scheme, go_error + ec2_instance list) go" where
  "RunInstances client params = call (svc_RunInstances (Svc client) params)"

definition DescribeInstances ::
  "'w Client \<Rightarrow> describe_instances_input \<Rightarrow>
   (('w, 'z) base_scheme, go_error + describe_instances_output) go" where
  "DescribeInstances client params = call (svc_DescribeInstances (Svc client) params)"

definition DescribeInstanceStatus ::
  "'w Client \<Rightarrow> string list \<Rightarrow> (('w, 'z) base_scheme, go_error + string option list option) go" where
  "DescribeInstanceStatus client params = call (svc_DescribeInstanceStatus (Svc client) params)"

definition CreateTags ::
  "'w Client \<Rightarrow> create_tags_input \<Rightarrow> (('w, 'z) base_scheme, go_error + unit) go" where
  "CreateTags client params = call (svc_CreateTags (Svc client) params)"

definition ModifyInstanceAttribute ::
  "'w Client \<Rightarrow> modify_instance_attribute_input \<Rightarrow> (('w, 'z) base_scheme, go_error + unit) go" where
  "ModifyInstanceAttribute client params = call (svc_ModifyInstanceAttribute (Svc client) params)"

definition DescribeSecurityGroups ::
  "'w Client \<Rightarrow> ec2_filter list \<Rightarrow> (('w, 'z) base_scheme, go_error + string option list) go" where
  "DescribeSecurityGroups client params = call (svc_DescribeSecurityGroups (Svc client) params)"

definition DescribeIamInstanceProfileAssociations ::
  "'w Client \<Rightarrow> ec2_filter list \<Rightarrow> (('w, 'z) base_scheme, go_error + string option list) go" where
  "DescribeIamInstanceProfileAssociations client params =
     call (svc_DescribeIamInstanceProfileAssociations (Svc client) params)"

definition ReplaceIamInstanceProfileAssociation ::
  "'w Client \<Rightarrow> string \<times> string \<Rightarrow> (('w, 'z) base_scheme, go_error + unit) go" where
  "ReplaceIamInstanceProfileAssociation client params =
     call (svc_ReplaceIamInstanceProfileAssociation (Svc client) params)"

text \<open>\<open>nil\<close> when the instances run within a minute.\<close>

definition NewInstanceRunningWaiter ::
  "'w Client \<Rightarrow> describe_instances_input \<Rightarrow> (('w, 'z) base_scheme, go_error option) go" where
  "NewInstanceRunningWaiter client params =
     call (wait_InstanceRunning (Svc client) (WaiterSvc client) (60 * nanoseconds) params)"

lemmas client_calls = PresignGetObject_def DescribeNetworkInterfaces_def
  client_DeleteNetworkInterface_def client_CreateNetworkInterface_def TerminateInstances_def
  RunInstances_def DescribeInstances_def DescribeInstanceStatus_def CreateTags_def
  ModifyInstanceAttribute_def DescribeSecurityGroups_def NewInstanceRunningWaiter_def
  DescribeIamInstanceProfileAssociations_def ReplaceIamInstanceProfileAssociation_def

lemma andthen_call:
  "andthen (call f) g s = g (fst (f (world s))) (s\<lparr>world := snd (f (world s))\<rparr>)"
  by (simp add: andthen_run call_run)

section \<open>Creating a client\<close>

text \<open>The client \<open>NewEc2Client\<close> returns when it returns.\<close>

definition the_client :: "('w, 'e) sdk_scheme \<Rightarrow> ProviderConfig \<Rightarrow> 'w Client" where
  "the_client sdk cfg =
     \<lparr>Svc = ec2_NewFromConfig sdk ((http_settings cfg)\<lparr>ClientRegion := Region cfg\<rparr>),
      WaiterSvc = \<lparr>MaxDelay = 15 * nanoseconds, MinDelay = 5 * nanoseconds\<rparr>\<rparr>"

text \<open>Loading the SDK configuration succeeds in world \<open>w\<close> and leaves world \<open>w'\<close>.\<close>

definition sdk_loads :: "('w, 'e) sdk_scheme \<Rightarrow> ProviderConfig \<Rightarrow> 'w \<Rightarrow> 'w \<Rightarrow> bool" where
  "sdk_loads sdk cfg w w' \<longleftrightarrow> LoadDefaultConfig sdk (http_settings cfg) w = (None, w')"

lemma NewEc2Client_run:
  assumes "config s = Some cfg" and "sdk_loads sdk cfg (world s) w"
  shows "NewEc2Client sdk s = (s\<lparr>world := w\<rparr>, Ret (Inr (the_client sdk cfg)))"
  using assms by (simp add: NewEc2Client_def go_simps Config_run sdk_loads_def the_client_def)

lemma andthen_NewEc2Client:
  "config s = Some cfg \<Longrightarrow> sdk_loads sdk cfg (world s) w \<Longrightarrow>
   andthen (NewEc2Client sdk) f s = f (Inr (the_client sdk cfg)) (s\<lparr>world := w\<rparr>)"
  by (rule andthen_eqI) (rule NewEc2Client_run)

lemma NewS3Client_run:
  assumes "config s = Some cfg" and "sdk_loads sdk cfg (world s) w"
  shows "NewS3Client sdk s =
    (s\<lparr>world := w\<rparr>, Ret (Inr \<lparr>PresignSvc = PresignGetObject_op sdk (http_settings cfg)\<rparr>))"
  using assms by (simp add: NewS3Client_def go_simps Config_run sdk_loads_def)

text \<open>
  A client is never handed over without the SDK configuration: \<open>NewEc2Client\<close> and \<open>NewS3Client\<close>
  return no error at all, they either return a client or end the process, so every \<open>err != nil\<close> test
  after them is dead code; no counter changes.
\<close>

theorem clients_fail_fatally:
  fixes s :: "('w, 'z) base_scheme"
  shows "snd (NewEc2Client sdk s) \<noteq> Ret (Inl e) \<and> snd (NewS3Client sdk s) \<noteq> Ret (Inl e) \<and>
    counters (fst (NewEc2Client sdk s)) = counters s \<and>
    (snd (NewEc2Client sdk s) = Crash NilDeref \<longleftrightarrow> config s = None)"
  by (cases "config s")
    (simp_all add: NewEc2Client_def NewS3Client_def go_simps Config_run Config_nil Let_def
      split: option.splits)

end
