(* ===== verification/Sample_Cloud.thy ===== *)
theory Sample_Cloud
  imports Aws
begin

text \<open>
  A concrete outside world for the witnesses: a small EC2 that launches, describes, tags and terminates
  instances, and answers the rest with fixed values.  The theorems do not depend on it; it shows that
  their hypotheses about the AWS SDK can hold.
\<close>

record cloud =
  vms :: "ec2_instance list"
  next_vm :: nat
  cloud_enis :: "network_interface list"

definition tag_matches :: "ec2_filter \<Rightarrow> ec2_tag \<Rightarrow> bool" where
  "tag_matches f t \<longleftrightarrow>
     (case (TagKey t, TagValue t) of
        (Some k, Some v) \<Rightarrow> FilterName f = ''tag:'' @ k \<and> List.member (FilterValues f) v
      | _ \<Rightarrow> False)"

definition vm_matches :: "ec2_filter \<Rightarrow> ec2_instance \<Rightarrow> bool" where
  "vm_matches f i \<longleftrightarrow>
     (if FilterName f = ''instance-state-name''
      then (case InstanceState i of None \<Rightarrow> False | Some st \<Rightarrow> List.member (FilterValues f) st)
      else list_ex (tag_matches f) (InstanceTags i))"

definition cloud_describe ::
  "(cloud, describe_instances_input, describe_instances_output) aws_op" where
  "cloud_describe input w =
     (let found = filter (\<lambda>i.
            (InstanceIds input = [] \<or> (case InstanceId i of
               None \<Rightarrow> False | Some k \<Rightarrow> List.member (InstanceIds input) k)) \<and>
            list_all (\<lambda>f. vm_matches f i) (Filters input)) (vms w)
      in (Inr \<lparr>Reservations = map (\<lambda>i. [i]) found, NextToken = None\<rparr>, w))"

definition cloud_run :: "(cloud, run_instances_input, ec2_instance list) aws_op" where
  "cloud_run input w =
     (let n = next_vm w;
          i = \<lparr>InstanceId = Some (''i-'' @ replicate n (CHR ''1'')),
               InstanceTags = concat (map Tags (TagSpecifications input)),
               InstanceState = Some ''pending'',
               PrivateIpAddress = Some (''10.0.0.'' @ replicate n (CHR ''1'')),
               IamInstanceProfileId = None,
               SecurityGroupIds = map Some (RunSecurityGroupIds input)\<rparr>
      in (Inr [i], w\<lparr>vms := vms w @ [i], next_vm := Suc n\<rparr>))"

definition cloud_terminate :: "(cloud, string list, string option list) aws_op" where
  "cloud_terminate ids w =
     (if list_all (\<lambda>k. list_ex (\<lambda>i. InstanceId i = Some k) (vms w)) ids
      then (Inr (map Some ids),
            w\<lparr>vms := filter (\<lambda>i. \<not> list_ex (\<lambda>k. InstanceId i = Some k) ids) (vms w)\<rparr>)
      else (Inl (ErrorString ''InvalidInstanceID.NotFound''), w))"

definition put_tag :: "ec2_tag \<Rightarrow> ec2_tag list \<Rightarrow> ec2_tag list" where
  "put_tag t ts = filter (\<lambda>u. TagKey u \<noteq> TagKey t) ts @ [t]"

definition cloud_tag :: "(cloud, create_tags_input, unit) aws_op" where
  "cloud_tag input w =
     (Inr (), w\<lparr>vms := map (\<lambda>i.
        if list_ex (\<lambda>k. InstanceId i = Some k) (Resources input)
        then i\<lparr>InstanceTags := fold put_tag (NewTags input) (InstanceTags i)\<rparr> else i) (vms w)\<rparr>)"

definition cloud_status :: "(cloud, string list, string option list option) aws_op" where
  "cloud_status ids w =
     (Inr (Some (map InstanceState
        (filter (\<lambda>i. list_ex (\<lambda>k. InstanceId i = Some k) ids) (vms w)))), w)"

definition cloud_service :: "cloud service" where
  "cloud_service = \<lparr>
     svc_DescribeNetworkInterfaces = (\<lambda>_ w. (Inr (cloud_enis w), w)),
     svc_DeleteNetworkInterface = (\<lambda>k w. (Inr (), w\<lparr>cloud_enis :=
       filter (\<lambda>e. NetworkInterfaceId e \<noteq> Some k) (cloud_enis w)\<rparr>)),
     svc_CreateNetworkInterface = (\<lambda>_ w.
       (let e = \<lparr>PrivateDnsName = Some ''ip-10-0-0-9'', NetworkInterfaceId = Some ''eni-9''\<rparr>
        in (Inr (Some e), w\<lparr>cloud_enis := cloud_enis w @ [e]\<rparr>))),
     svc_TerminateInstances = cloud_terminate,
     svc_RunInstances = cloud_run,
     svc_DescribeInstances = cloud_describe,
     svc_DescribeInstanceStatus = cloud_status,
     svc_CreateTags = cloud_tag,
     svc_ModifyInstanceAttribute = (\<lambda>_ w. (Inr (), w)),
     svc_DescribeSecurityGroups = (\<lambda>_ w. (Inr [Some ''sg-1''], w)),
     svc_DescribeIamInstanceProfileAssociations = (\<lambda>_ w. (Inr [], w)),
     svc_ReplaceIamInstanceProfileAssociation = (\<lambda>_ w. (Inr (), w)),
     wait_InstanceRunning = (\<lambda>_ _ _ w. (None, w))\<rparr>"

definition cloud_sdk :: "cloud sdk" where
  "cloud_sdk = \<lparr>LoadDefaultConfig = (\<lambda>_ w. (None, w)), ec2_NewFromConfig = (\<lambda>_. cloud_service),
     PresignGetObject_op = (\<lambda>_ bk w. (Inr (''https://'' @ fst bk @ ''/'' @ snd bk), w)),
     unmarshal_tags = (\<lambda>_. [(''Team'', '' a '')])\<rparr>"

definition empty_cloud :: cloud where
  "empty_cloud = \<lparr>vms = [], next_vm = 1, cloud_enis = []\<rparr>"

definition sample_vm :: "string \<Rightarrow> string \<Rightarrow> string \<Rightarrow> ec2_instance" where
  "sample_vm iid state status = \<lparr>InstanceId = Some iid,
     InstanceTags =
       [\<lparr>TagKey = Some ''aws-virtual-kubelet/WarmpoolNodeName'', TagValue = Some []\<rparr>,
        \<lparr>TagKey = Some ''aws-virtual-kubelet/WarmpoolClusterName'',
         TagValue = Some ''aws-virtual-kubelet''\<rparr>,
        \<lparr>TagKey = Some ''aws-virtual-kubelet/WarmpoolStatus'', TagValue = Some status\<rparr>],
     InstanceState = Some state, PrivateIpAddress = Some ''10.0.0.5'',
     IamInstanceProfileId = None, SecurityGroupIds = []\<rparr>"

lemma cloud_sdk_fields [simp]:
  "LoadDefaultConfig cloud_sdk = (\<lambda>_ w. (None, w))"
  "ec2_NewFromConfig cloud_sdk = (\<lambda>_. cloud_service)"
  "PresignGetObject_op cloud_sdk = (\<lambda>_ bk w. (Inr (''https://'' @ fst bk @ ''/'' @ snd bk), w))"
  "unmarshal_tags cloud_sdk = (\<lambda>_. [(''Team'', '' a '')])"
  "Svc (the_client cloud_sdk cfg) = cloud_service"
  "svc_TerminateInstances cloud_service = cloud_terminate"
  "svc_RunInstances cloud_service = cloud_run"
  "svc_DescribeInstances cloud_service = cloud_describe"
  "svc_DescribeInstanceStatus cloud_service = cloud_status"
  "svc_CreateTags cloud_service = cloud_tag"
  "wait_InstanceRunning cloud_service = (\<lambda>_ _ _ w. (None, w))"
  "svc_DescribeNetworkInterfaces cloud_service = (\<lambda>_ w. (Inr (cloud_enis w), w))"
  "svc_DeleteNetworkInterface cloud_service = (\<lambda>k w. (Inr (), w\<lparr>cloud_enis :=
       filter (\<lambda>e. NetworkInterfaceId e \<noteq> Some k) (cloud_enis w)\<rparr>))"
  by (simp_all add: cloud_sdk_def the_client_def cloud_service_def)

lemma cloud_sdk_loads [simp]: "sdk_loads cloud_sdk cfg w w' \<longleftrightarrow> w' = w"
  by (auto simp: sdk_loads_def)

end
