(* ===== verification/Ec2_Utils.thy ===== *)
theory Ec2_Utils
  imports Sample_Cloud
begin

text \<open>
  \<open>internal/awsutils/ec2_utils.go\<close> and the EC2 part of \<open>ec2_client_utils.go\<close>: network interfaces,
  instance status and addresses, launching and terminating instances, security groups.  A function that
  returns several values and an error returns \<open>Inl err\<close> when the error is set (the other values are then
  zero values), and \<open>Inr\<close> of the values otherwise.
\<close>

section \<open>Network interfaces\<close>

definition Filter :: "string \<Rightarrow> string list \<Rightarrow> ec2_filter" where
  "Filter name values = \<lparr>FilterName = name, FilterValues = values\<rparr>"

definition Tag :: "string \<Rightarrow> string \<Rightarrow> ec2_tag" where
  "Tag key value = \<lparr>TagKey = Some key, TagValue = Some value\<rparr>"

definition CreateNetworkInterface ::
  "string \<Rightarrow> string \<Rightarrow> 'w Client \<Rightarrow> (('w, 'z) base_scheme, go_error + string \<times> string) go" where
  "CreateNetworkInterface tagValue subnetId client =
     andthen (client_CreateNetworkInterface client
       \<lparr>Description = tagValue, EniSubnetId = subnetId,
        EniTagSpecifications =
          [\<lparr>ResourceType = ''network-interface'', Tags = [Tag ''Name'' tagValue]\<rparr>]\<rparr>) (\<lambda>result.
     case result of
       Inl err \<Rightarrow>
         andthen (Inc CreateENIErrors) (\<lambda>_.
         ret (Inl (ErrorString (''unable to create Network Interface , tag : '' @ tagValue @ '', '' @
           Error err))))
     | Inr out \<Rightarrow>
         andthen (deref out) (\<lambda>eni.
         andthen (deref (PrivateDnsName eni)) (\<lambda>dns.
         andthen (deref (NetworkInterfaceId eni)) (\<lambda>eniId.
         ret (Inr (dns, eniId))))))"

text \<open>The loop that keeps the last interface.\<close>

fun last_interface ::
  "string \<times> string \<Rightarrow> network_interface list \<Rightarrow> (('w, 'z) base_scheme, string \<times> string) go" where
  "last_interface out [] = ret out"
| "last_interface out (r # rs) =
     andthen (deref (PrivateDnsName r)) (\<lambda>dns.
     andthen (deref (NetworkInterfaceId r)) (\<lambda>eniId.
     last_interface (dns, eniId) rs))"

definition GetNetworkInterfaceByTagName ::
  "string \<Rightarrow> 'w Client \<Rightarrow> (('w, 'z) base_scheme, go_error + string \<times> string) go" where
  "GetNetworkInterfaceByTagName tagValue client =
     andthen (DescribeNetworkInterfaces client [Filter ''tag:Name'' [tagValue]]) (\<lambda>result.
     case result of
       Inl err \<Rightarrow>
         andthen (Inc DescribeENIErrors) (\<lambda>_.
         ret (Inl (ErrorString (Error err @ '' , Input tagValue :'' @ tagValue))))
     | Inr enis \<Rightarrow>
         andthen (last_interface ([], []) enis) (\<lambda>out.
         ret (Inr out)))"

definition DeleteNetworkInterface ::
  "string \<Rightarrow> 'w Client \<Rightarrow> (('w, 'z) base_scheme, go_error option) go" where
  "DeleteNetworkInterface tagValue client =
     andthen (GetNetworkInterfaceByTagName tagValue client) (\<lambda>result.
     case result of
       Inl err \<Rightarrow>
         ret (Some (ErrorString (''Problem finding the eni id for tag ='' @ tagValue @ '' '' @ Error err)))
     | Inr (_, eniId) \<Rightarrow>
         if eniId = [] then ret None
         else
           andthen (client_DeleteNetworkInterface client eniId) (\<lambda>r.
           case r of
             Inl err \<Rightarrow>
               andthen (Inc DeleteENIErrors) (\<lambda>_.
               ret (Some (ErrorString (''unable to delete Network Interface : '' @ eniId))))
           | Inr _ \<Rightarrow> ret None))"

section \<open>Instances\<close>

definition by_id :: "string \<Rightarrow> describe_instances_input" where
  "by_id instanceID = \<lparr>InstanceIds = [instanceID], Filters = [], InputNextToken = None\<rparr>"

definition GetInstanceStatusById ::
  "string \<Rightarrow> 'w Client \<Rightarrow> (('w, 'z) base_scheme, go_error + string \<times> string) go" where
  "GetInstanceStatusById instanceId client =
     andthen (DescribeInstances client (by_id instanceId)) (\<lambda>result.
     case result of
       Inl err \<Rightarrow>
         andthen (Inc DescribeEC2Errors) (\<lambda>_.
         ret (Inl (ErrorString (Error err @ '' , Input instanceId :'' @ instanceId))))
     | Inr out \<Rightarrow>
         if length (Reservations out) \<noteq> 1
         then ret (Inl (ErrorString (''DescribeInstances expect 1 Reservations, but got'' @
                itoa (length (Reservations out)))))
         else if length (hd (Reservations out)) \<noteq> 1
         then ret (Inl (ErrorString (''DescribeInstances expect 1 instance, but got'' @
                itoa (length (hd (Reservations out))))))
         else
           (let inst = hd (hd (Reservations out)) in
            case PrivateIpAddress inst of
              None \<Rightarrow> ret (Inr ([], []))
            | Some ip \<Rightarrow> andthen (deref (InstanceState inst)) (\<lambda>state. ret (Inr (state, ip)))))"

definition GetPrivateIP ::
  "('w, 'e) sdk_scheme \<Rightarrow> string \<Rightarrow> (('w, 'z) base_scheme, go_error + string) go" where
  "GetPrivateIP sdk instanceID =
     andthen (NewEc2Client sdk) (\<lambda>c. case c of
       Inl err \<Rightarrow> ret (Inl err)
     | Inr client \<Rightarrow>
         andthen (NewInstanceRunningWaiter client (by_id instanceID)) (\<lambda>werr. case werr of
           Some err \<Rightarrow> ret (Inl (ErrorString (Error err @ '' , Input instanceId :'' @ instanceID)))
         | None \<Rightarrow>
             andthen (DescribeInstances client (by_id instanceID)) (\<lambda>result.
             case result of
               Inl err \<Rightarrow>
                 andthen (Inc DescribeEC2Errors) (\<lambda>_.
                 ret (Inl (ErrorString (Error err @ '' , Input instanceId :'' @ instanceID))))
             | Inr out \<Rightarrow>
                 if length (Reservations out) \<noteq> 1
                 then ret (Inl (ErrorString
                   (''DescribeInstances call expected 1 Reservations, but got : '' @
                    itoa (length (Reservations out)))))
                 else if length (hd (Reservations out)) \<noteq> 1
                 then ret (Inl (ErrorString (''DescribeInstances expected 1 instance, but got'' @
                   itoa (length (hd (Reservations out))))))
                 else
                   (let inst = hd (hd (Reservations out)) in
                    case PrivateIpAddress inst of
                      None \<Rightarrow> ret (Inl (ErrorString
                        (''PrivateIpAddress is nil for instance : '' @ instanceID)))
                    | Some ip \<Rightarrow>
                        andthen (deref (InstanceState inst)) (\<lambda>state. ret (Inr ip))))))"

definition EC2RunInstancesUtil ::
  "string \<Rightarrow> string \<Rightarrow> string \<Rightarrow> string \<Rightarrow> string list \<Rightarrow> string \<Rightarrow> tag_specification list \<Rightarrow>
   string \<Rightarrow> 'w Client \<Rightarrow> (('w, 'z) base_scheme, go_error + ec2_instance list) go" where
  "EC2RunInstancesUtil iamInstanceProfile imageID instanceType keyName securityGroupIDs subnetID
     tags userData client =
     (let input = \<lparr>IamInstanceProfileName = iamInstanceProfile, ImageId = imageID,
            RunInstanceType = instanceType, MaxCount = 1, MinCount = 1,
            RunSecurityGroupIds = securityGroupIDs, SubnetId = subnetID, TagSpecifications = tags,
            RunUserData = userData, KeyName = None\<rparr>;
          input = (if keyName \<noteq> [] then input\<lparr>KeyName := Some keyName\<rparr> else input)
      in RunInstances client input)"

text \<open>The tags of a pod's annotation, in the order in which \<open>range\<close> visits the map.\<close>

definition annotation_tags :: "(string \<times> string) list \<Rightarrow> ec2_tag list" where
  "annotation_tags kvs = map (\<lambda>(k, v). Tag (trim (CHR '' '') k) (trim (CHR '' '') v)) kvs"

definition tags_input :: "ec2_tag list \<Rightarrow> tag_specification list" where
  "tags_input tags =
     (if length tags = 0 then [] else [\<lparr>ResourceType = ''instance'', Tags = tags\<rparr>])"

text \<open>The new pod's \<open>instance-id\<close> annotation is written through the caller's pointer.\<close>

definition CreateEC2 ::
  "('w, 'e) sdk_scheme \<Rightarrow> pod_ref \<Rightarrow> string \<Rightarrow> string \<Rightarrow> string \<Rightarrow>
   (('w, 'z) kube_scheme, go_error + string) go" where
  "CreateEC2 sdk r userData presignBucket presignKey =
     andthen (NewEc2Client sdk) (\<lambda>c. case c of
       Inl err \<Rightarrow> ret (Inl err)
     | Inr client \<Rightarrow>
         andthen (load_pod r) (\<lambda>p.
         andthen next_choice (\<lambda>order.
         (let tags = annotation_tags (range_map order
                (unmarshal_tags sdk (annotation p ''compute.amazonaws.com/tags'')));
              securityGroups =
                TrimmedStringSplit (annotation p ''compute.amazonaws.com/security-groups'') '',''
          in
          andthen (EC2RunInstancesUtil (annotation p ''compute.amazonaws.com/instance-profile'')
             (annotation p ''compute.amazonaws.com/image-id'')
             (annotation p ''compute.amazonaws.com/instance-type'')
             (annotation p ''compute.amazonaws.com/key-pair'')
             securityGroups
             (annotation p ''compute.amazonaws.com/subnet-id'')
             (tags_input tags) userData client) (\<lambda>resp. case resp of
            Inl err \<Rightarrow> andthen (Inc EC2LaunchErrors) (\<lambda>_. ret (Inl err))
          | Inr instances \<Rightarrow>
              andthen (index instances 0) (\<lambda>inst.
              andthen (deref (InstanceId inst)) (\<lambda>instanceID.
              andthen (set_annotation r ''compute.amazonaws.com/instance-id'' instanceID) (\<lambda>_.
              andthen (Inc EC2Launched) (\<lambda>_.
              ret (Inr instanceID))))))))))"

definition TerminateEC2 ::
  "('w, 'e) sdk_scheme \<Rightarrow> string \<Rightarrow> (('w, 'z) base_scheme, go_error + string) go" where
  "TerminateEC2 sdk instanceID =
     (if instanceID = [] then ret (Inr ''instance-id-not-set'')
      else
        andthen (NewEc2Client sdk) (\<lambda>c.
        andthen (case c of Inl err \<Rightarrow> die NilDeref | Inr client \<Rightarrow> TerminateInstances client [instanceID])
          (\<lambda>resp. case resp of
            Inl err \<Rightarrow>
              if contains (Error err) ''InvalidInstanceID.NotFound'' then ret (Inr [])
              else andthen (Inc EC2TerminationErrors) (\<lambda>_. ret (Inl err))
          | Inr ids \<Rightarrow>
              andthen (index ids 0) (\<lambda>ptr.
              andthen (deref ptr) (\<lambda>terminated.
              andthen (Inc EC2Terminated) (\<lambda>_.
              ret (Inr terminated)))))))"

section \<open>Security groups\<close>

definition SecurityGroupNametoID ::
  "'w Client \<Rightarrow> string list \<Rightarrow> (('w, 'z) base_scheme, go_error + string list) go" where
  "SecurityGroupNametoID client sgNames =
     andthen (DescribeSecurityGroups client [Filter ''group-name'' sgNames]) (\<lambda>resp.
     case resp of
       Inl err \<Rightarrow> ret (Inl err)
     | Inr sgs \<Rightarrow> andthen (collect deref sgs) (\<lambda>sgIDs. ret (Inr sgIDs)))"

definition UpdateInstanceSecurityGroups ::
  "'w Client \<Rightarrow> string \<Rightarrow> string list \<Rightarrow> (('w, 'z) base_scheme, go_error option) go" where
  "UpdateInstanceSecurityGroups client instanceID sgs =
     (if length sgs = 0 then ret None
      else
        andthen
          (if \<not> contains (hd sgs) ''sg-'' then SecurityGroupNametoID client sgs else ret (Inr sgs))
          (\<lambda>ids. case ids of
            Inl err \<Rightarrow> ret (Some err)
          | Inr sgIDs \<Rightarrow>
              andthen (ModifyInstanceAttribute client
                \<lparr>ModifiedInstanceId = instanceID, Groups = sgIDs\<rparr>) (\<lambda>resp.
              case resp of Inl err \<Rightarrow> ret (Some err) | Inr _ \<Rightarrow> ret None)))"

section \<open>Launching and terminating\<close>

text \<open>The request \<open>CreateEC2\<close> makes of a pod's annotations.\<close>

definition launch_request :: "pod \<Rightarrow> ec2_tag list \<Rightarrow> string \<Rightarrow> run_instances_input" where
  "launch_request p tags userData =
     \<lparr>IamInstanceProfileName = annotation p ''compute.amazonaws.com/instance-profile'',
      ImageId = annotation p ''compute.amazonaws.com/image-id'',
      RunInstanceType = annotation p ''compute.amazonaws.com/instance-type'',
      MaxCount = 1, MinCount = 1,
      RunSecurityGroupIds =
        TrimmedStringSplit (annotation p ''compute.amazonaws.com/security-groups'') '','',
      SubnetId = annotation p ''compute.amazonaws.com/subnet-id'',
      TagSpecifications = tags_input tags, RunUserData = userData,
      KeyName = (let k = annotation p ''compute.amazonaws.com/key-pair''
                 in if k = [] then None else Some k)\<rparr>"

definition pod_tags :: "('w, 'e) sdk_scheme \<Rightarrow> pod \<Rightarrow> nat \<Rightarrow> ec2_tag list" where
  "pod_tags sdk p order = annotation_tags (range_map order
     (unmarshal_tags sdk (annotation p ''compute.amazonaws.com/tags'')))"

definition next_order :: "('w, 'z) base_scheme \<Rightarrow> nat" where
  "next_order s = (case choices s of [] \<Rightarrow> 0 | c # _ \<Rightarrow> c)"

definition runs_instance ::
  "('w, 'e) sdk_scheme \<Rightarrow> ProviderConfig \<Rightarrow> run_instances_input \<Rightarrow> 'w \<Rightarrow> go_error + ec2_instance list \<Rightarrow>
   'w \<Rightarrow> bool" where
  "runs_instance sdk cfg input w out w' \<longleftrightarrow>
     svc_RunInstances (Svc (the_client sdk cfg)) input w = (out, w')"

lemma EC2RunInstancesUtil_request:
  "EC2RunInstancesUtil (annotation p ''compute.amazonaws.com/instance-profile'')
     (annotation p ''compute.amazonaws.com/image-id'')
     (annotation p ''compute.amazonaws.com/instance-type'')
     (annotation p ''compute.amazonaws.com/key-pair'')
     (TrimmedStringSplit (annotation p ''compute.amazonaws.com/security-groups'') '','')
     (annotation p ''compute.amazonaws.com/subnet-id'') (tags_input tags) userData client =
   RunInstances client (launch_request p tags userData)"
  by (simp add: EC2RunInstancesUtil_def launch_request_def Let_def)

lemma CreateEC2_run:
  fixes s :: "('w, 'z) kube_scheme"
  assumes "config s = Some cfg" and "sdk_loads sdk cfg (world s) w1" and "pods_at s r = Some p"
    and "runs_instance sdk cfg (launch_request p (pod_tags sdk p (next_order s)) userData) w1 out w2"
  shows "CreateEC2 sdk r userData bucket key s =
    (let t = s\<lparr>world := w2, choices := tl (choices s)\<rparr> in
     case out of
       Inl err \<Rightarrow> (t\<lparr>counters := (counters s)(EC2LaunchErrors := Suc (counters s EC2LaunchErrors))\<rparr>,
         Ret (Inl err))
     | Inr [] \<Rightarrow> (t, Crash IndexOutOfRange)
     | Inr (inst # _) \<Rightarrow> (case InstanceId inst of
         None \<Rightarrow> (t, Crash NilDeref)
       | Some iid \<Rightarrow> (case Annotations p of
           None \<Rightarrow> (t, Crash NilMapWrite)
         | Some m \<Rightarrow>
             (t\<lparr>pods_at := (pods_at s)(r \<mapsto>
                  p\<lparr>Annotations := Some (assign ''compute.amazonaws.com/instance-id'' iid m)\<rparr>),
                counters := (counters s)(EC2Launched := Suc (counters s EC2Launched))\<rparr>,
              Ret (Inr iid)))))"
proof -
  have *: "world (fst (next_choice (s\<lparr>world := w1\<rparr>))) = w1"
    by (simp add: go_simps)
  show ?thesis
    using assms(1,3,4)
    by (simp add: CreateEC2_def andthen_NewEc2Client [OF assms(1,2)] andthen_load_pod Let_def
        pod_tags_def [symmetric] next_order_def [symmetric] EC2RunInstancesUtil_request
        RunInstances_def andthen_call andthen_run [of next_choice] next_choice_run runs_instance_def
        set_annotation_run index_def ret_run die_run Inc_run andthen_run [of "set_annotation _ _ _"]
        andthen_run [of "Inc _"]
        split: sum.splits list.splits option.splits)
qed

text \<open>
  Launching an instance for a pod that has an annotations map makes exactly one \<open>RunInstances\<close> call,
  whose input is read off the annotations (one instance, trimmed security groups, trimmed tags, a key
  pair only when one is named); on success it returns the new instance's id, records it in the pod's
  \<open>instance-id\<close> annotation, and counts one launch.
\<close>

theorem CreateEC2_launches:
  fixes s :: "('w, 'z) kube_scheme"
  assumes "config s = Some cfg" and "sdk_loads sdk cfg (world s) w1" and "pods_at s r = Some p"
    and "Annotations p = Some m"
    and "runs_instance sdk cfg (launch_request p (pod_tags sdk p (next_order s)) userData) w1
      (Inr [inst]) w2" and "InstanceId inst = Some iid"
  shows "\<exists>t p'. CreateEC2 sdk r userData bucket key s = (t, Ret (Inr iid)) \<and>
    world t = w2 \<and> pods_at t = (pods_at s)(r \<mapsto> p') \<and>
    p' = p\<lparr>Annotations := Some (assign ''compute.amazonaws.com/instance-id'' iid m)\<rparr> \<and>
    annotation p' ''compute.amazonaws.com/instance-id'' = iid \<and> Status p' = Status p \<and>
    counters t = (counters s)(EC2Launched := Suc (counters s EC2Launched))"
  using assms by (simp add: CreateEC2_run Let_def annotation_assign)

definition sample_launch_pod :: pod where
  "sample_launch_pod = sample_pod\<lparr>Annotations := Some [(''compute.amazonaws.com/image-id'', ''ami-1'')]\<rparr>"

theorem CreateEC2_launches_witness:
  "\<exists>t p'. CreateEC2 cloud_sdk 3 ''data'' ''b'' ''k''
       (sample_kube empty_cloud\<lparr>pods_at := [3 \<mapsto> sample_launch_pod]\<rparr>) = (t, Ret (Inr ''i-1'')) \<and>
     length (vms (world t)) = 1 \<and> pods_at t = [3 \<mapsto> p'] \<and>
     annotation p' ''compute.amazonaws.com/instance-id'' = ''i-1''"
proof -
  let ?s = "sample_kube empty_cloud\<lparr>pods_at := [3 \<mapsto> sample_launch_pod]\<rparr>"
  let ?in = "launch_request sample_launch_pod (pod_tags cloud_sdk sample_launch_pod (next_order ?s)) ''data''"
  let ?vm = "hd (projr (fst (cloud_run ?in empty_cloud)))"
  let ?w = "snd (cloud_run ?in empty_cloud)"
  have "config ?s = Some sample_config" "sdk_loads cloud_sdk sample_config (world ?s) empty_cloud"
    "pods_at ?s 3 = Some sample_launch_pod"
    "Annotations sample_launch_pod = Some [(''compute.amazonaws.com/image-id'', ''ami-1'')]"
    by (simp_all add: sample_kube_def sample_launch_pod_def)
  moreover have "runs_instance cloud_sdk sample_config ?in empty_cloud (Inr [?vm]) ?w"
    "InstanceId ?vm = Some ''i-1''" "length (vms ?w) = 1"
    by (simp_all add: runs_instance_def cloud_run_def Let_def empty_cloud_def itoa_digits)
  ultimately show ?thesis
    using CreateEC2_launches [of ?s sample_config cloud_sdk empty_cloud 3 sample_launch_pod _ "''data''"
        ?vm ?w "''i-1''" "''b''" "''k''"]
    by (auto simp: sample_kube_def)
qed

text \<open>
  A pod without any annotation loses its instance: the launch goes through, then writing the
  \<open>instance-id\<close> annotation to the nil map ends the process, and no one knows the instance.
\<close>

theorem CreateEC2_leaks_on_nil_annotations:
  fixes s :: "('w, 'z) kube_scheme"
  assumes "config s = Some cfg" and "sdk_loads sdk cfg (world s) w1" and "pods_at s r = Some p"
    and "Annotations p = None"
    and "runs_instance sdk cfg (launch_request p (pod_tags sdk p (next_order s)) userData) w1
      (Inr [inst]) w2" and "InstanceId inst = Some iid"
  shows "snd (CreateEC2 sdk r userData bucket key s) = Crash NilMapWrite \<and>
    world (fst (CreateEC2 sdk r userData bucket key s)) = w2 \<and>
    pods_at (fst (CreateEC2 sdk r userData bucket key s)) = pods_at s"
  using assms by (simp add: CreateEC2_run Let_def)

theorem CreateEC2_leaks_on_nil_annotations_witness:
  "let s = sample_kube empty_cloud\<lparr>pods_at := [3 \<mapsto> sample_pod\<lparr>Annotations := None\<rparr>]\<rparr>
   in snd (CreateEC2 cloud_sdk 3 ''data'' ''b'' ''k'' s) = Crash NilMapWrite \<and>
      length (vms (world (fst (CreateEC2 cloud_sdk 3 ''data'' ''b'' ''k'' s)))) = 1"
proof -
  let ?p = "sample_pod\<lparr>Annotations := None\<rparr>"
  let ?s = "sample_kube empty_cloud\<lparr>pods_at := [3 \<mapsto> ?p]\<rparr>"
  let ?in = "launch_request ?p (pod_tags cloud_sdk ?p (next_order ?s)) ''data''"
  let ?vm = "hd (projr (fst (cloud_run ?in empty_cloud)))"
  let ?w = "snd (cloud_run ?in empty_cloud)"
  have "config ?s = Some sample_config" "sdk_loads cloud_sdk sample_config (world ?s) empty_cloud"
    "pods_at ?s 3 = Some ?p" "Annotations ?p = None"
    by (simp_all add: sample_kube_def)
  moreover have "runs_instance cloud_sdk sample_config ?in empty_cloud (Inr [?vm]) ?w"
    "InstanceId ?vm = Some ''i-1''" "length (vms ?w) = 1"
    by (simp_all add: runs_instance_def cloud_run_def Let_def empty_cloud_def itoa_digits)
  ultimately show ?thesis
    using CreateEC2_leaks_on_nil_annotations [of ?s sample_config cloud_sdk empty_cloud 3 ?p
        "''data''" ?vm ?w "''i-1''" "''b''" "''k''"]
    by (simp only: Let_def simp_thms)
qed

text \<open>
  Terminating is safe to repeat: with no instance id nothing is called; an instance EC2 no longer
  knows counts as terminated (no error, no counter); any other error is returned and counted; success
  counts one termination.
\<close>

theorem TerminateEC2_cases:
  fixes s :: "('w, 'z) base_scheme"
  assumes "config s = Some cfg" and "sdk_loads sdk cfg (world s) w1"
    and "svc_TerminateInstances (Svc (the_client sdk cfg)) [iid] w1 = (out, w2)"
  shows "TerminateEC2 sdk [] s = (s, Ret (Inr ''instance-id-not-set'')) \<and>
    (iid \<noteq> [] \<longrightarrow> TerminateEC2 sdk iid s =
      (case out of
         Inl err \<Rightarrow>
           if contains (Error err) ''InvalidInstanceID.NotFound''
           then (s\<lparr>world := w2\<rparr>, Ret (Inr []))
           else (s\<lparr>world := w2, counters := (counters s)
                  (EC2TerminationErrors := Suc (counters s EC2TerminationErrors))\<rparr>, Ret (Inl err))
       | Inr [] \<Rightarrow> (s\<lparr>world := w2\<rparr>, Crash IndexOutOfRange)
       | Inr (None # _) \<Rightarrow> (s\<lparr>world := w2\<rparr>, Crash NilDeref)
       | Inr (Some i # _) \<Rightarrow> (s\<lparr>world := w2,
           counters := (counters s)(EC2Terminated := Suc (counters s EC2Terminated))\<rparr>, Ret (Inr i))))"
  using assms
  by (auto simp: TerminateEC2_def andthen_NewEc2Client TerminateInstances_def andthen_call index_def
      ret_run die_run Inc_run andthen_run [of "Inc _"] split: sum.splits list.splits option.splits)

theorem TerminateEC2_cases_witness:
  "let s = sample_kube (empty_cloud\<lparr>vms := [sample_vm ''i-7'' ''running'' ''x'']\<rparr>)
   in TerminateEC2 cloud_sdk ''i-8'' s = (s, Ret (Inr [])) \<and>
      snd (TerminateEC2 cloud_sdk ''i-7'' s) = Ret (Inr ''i-7'')"
proof -
  let ?w = "empty_cloud\<lparr>vms := [sample_vm ''i-7'' ''running'' ''x'']\<rparr>"
  let ?s = "sample_kube ?w"
  have c: "config ?s = Some sample_config" "sdk_loads cloud_sdk sample_config (world ?s) ?w"
    by (simp_all add: sample_kube_def)
  have "svc_TerminateInstances (Svc (the_client cloud_sdk sample_config)) [''i-8''] ?w =
      (Inl (ErrorString ''InvalidInstanceID.NotFound''), ?w)"
    by (simp add: cloud_terminate_def sample_vm_def)
  note 1 = TerminateEC2_cases [OF c this]
  have "svc_TerminateInstances (Svc (the_client cloud_sdk sample_config)) [''i-7''] ?w =
      (Inr [Some ''i-7''], ?w\<lparr>vms := []\<rparr>)"
    by (simp add: cloud_terminate_def sample_vm_def)
  note 2 = TerminateEC2_cases [OF c this]
  have "?s\<lparr>world := ?w\<rparr> = ?s" by (simp add: sample_kube_def)
  with 1 2 show ?thesis by (simp add: Let_def)
qed

section \<open>Addresses\<close>

text \<open>The only instance of a description: \<open>None\<close> when there is not exactly one.\<close>

definition sole_instance :: "describe_instances_output \<Rightarrow> ec2_instance option" where
  "sole_instance out = (case Reservations out of [[i]] \<Rightarrow> Some i | _ \<Rightarrow> None)"

lemma length_1_conv: "length xs = Suc 0 \<longleftrightarrow> (\<exists>x. xs = [x])"
  by (cases xs) auto

text \<open>
  \<open>GetPrivateIP\<close> asks for the address only after the instance has been seen running, and returns
  one exactly when EC2 describes exactly one instance under the id and that instance has a private
  address; \<open>GetInstanceStatusById\<close> differs on an instance without an address: it returns two empty
  strings and no error, whatever the state.
\<close>

theorem GetPrivateIP_exact:
  fixes s :: "('w, 'z) base_scheme"
  assumes "config s = Some cfg" and "sdk_loads sdk cfg (world s) w1"
    and "wait_InstanceRunning (Svc (the_client sdk cfg)) (WaiterSvc (the_client sdk cfg))
      60000000000 (by_id iid) w1 = (None, w2)"
    and "svc_DescribeInstances (Svc (the_client sdk cfg)) (by_id iid) w2 = (Inr out, w3)"
    and "\<forall>i. sole_instance out = Some i \<longrightarrow> InstanceState i \<noteq> None"
  shows "\<exists>r. GetPrivateIP sdk iid s = (s\<lparr>world := w3\<rparr>, Ret r) \<and>
    (\<forall>ip. r = Inr ip \<longleftrightarrow> (\<exists>i. sole_instance out = Some i \<and> PrivateIpAddress i = Some ip)) \<and>
    (\<forall>i. sole_instance out = Some i \<and> PrivateIpAddress i = None \<longrightarrow>
      GetInstanceStatusById iid (the_client sdk cfg) (s\<lparr>world := w2\<rparr>) =
        (s\<lparr>world := w3\<rparr>, Ret (Inr ([], []))))"
proof (cases "sole_instance out")
  case None
  then have "length (Reservations out) \<noteq> 1 \<or> length (hd (Reservations out)) \<noteq> 1"
    by (auto simp: sole_instance_def length_1_conv split: list.splits)
  with assms(1,3,4) None show ?thesis
    by (simp add: GetPrivateIP_def andthen_NewEc2Client [OF assms(1,2)] NewInstanceRunningWaiter_def
        DescribeInstances_def andthen_call nanoseconds_def ret_run)
next
  case (Some i)
  then have out: "Reservations out = [[i]]"
    by (auto simp: sole_instance_def split: list.splits)
  obtain st where "InstanceState i = Some st" using assms(5) Some by auto
  with assms(1,3,4) Some out show ?thesis
    by (simp add: GetPrivateIP_def GetInstanceStatusById_def andthen_NewEc2Client [OF assms(1,2)]
        NewInstanceRunningWaiter_def DescribeInstances_def andthen_call nanoseconds_def ret_run Let_def
        split: option.splits)
qed

theorem GetPrivateIP_exact_witness:
  "snd (GetPrivateIP cloud_sdk ''i-7''
     (sample_kube (empty_cloud\<lparr>vms := [sample_vm ''i-7'' ''running'' ''x'']\<rparr>))) = Ret (Inr ''10.0.0.5'')"
proof -
  let ?vm = "sample_vm ''i-7'' ''running'' ''x''"
  let ?w = "empty_cloud\<lparr>vms := [?vm]\<rparr>"
  let ?out = "\<lparr>Reservations = [[?vm]], NextToken = None\<rparr>"
  have "config (sample_kube ?w) = Some sample_config"
    "sdk_loads cloud_sdk sample_config (world (sample_kube ?w)) ?w"
    "wait_InstanceRunning (Svc (the_client cloud_sdk sample_config))
       (WaiterSvc (the_client cloud_sdk sample_config)) 60000000000 (by_id ''i-7'') ?w = (None, ?w)"
    "svc_DescribeInstances (Svc (the_client cloud_sdk sample_config)) (by_id ''i-7'') ?w = (Inr ?out, ?w)"
    "\<forall>i. sole_instance ?out = Some i \<longrightarrow> InstanceState i \<noteq> None"
    by (simp_all add: sample_kube_def cloud_describe_def Let_def by_id_def sample_vm_def
        sole_instance_def)
  from GetPrivateIP_exact [OF this] obtain r where
    run: "GetPrivateIP cloud_sdk ''i-7'' (sample_kube ?w) = ((sample_kube ?w)\<lparr>world := ?w\<rparr>, Ret r)"
    and r: "\<forall>ip. r = Inr ip \<longleftrightarrow>
      (\<exists>i. sole_instance ?out = Some i \<and> PrivateIpAddress i = Some ip)"
    by (elim exE conjE) (rule that)
  have "\<exists>i. sole_instance ?out = Some i \<and> PrivateIpAddress i = Some ''10.0.0.5''"
    by (simp add: sole_instance_def sample_vm_def)
  with run r show ?thesis by simp
qed

section \<open>Interfaces and security groups\<close>

definition interface_complete :: "network_interface \<Rightarrow> bool" where
  "interface_complete e \<longleftrightarrow> PrivateDnsName e \<noteq> None \<and> NetworkInterfaceId e \<noteq> None"

lemma last_interface_run:
  "list_all interface_complete es \<Longrightarrow>
   last_interface out es s = (s, Ret (if es = [] then out else
     (the (PrivateDnsName (last es)), the (NetworkInterfaceId (last es)))))"
  by (induction es arbitrary: out) (auto simp: interface_complete_def ret_run)

lemma GetNetworkInterfaceByTagName_run:
  assumes "svc_DescribeNetworkInterfaces (Svc client) [Filter ''tag:Name'' [tag]] (world s) = (Inr es, w)"
    and "list_all interface_complete es"
  shows "GetNetworkInterfaceByTagName tag client s = (s\<lparr>world := w\<rparr>, Ret (Inr
    (if es = [] then ([], []) else
       (the (PrivateDnsName (last es)), the (NetworkInterfaceId (last es))))))"
  using assms
  by (simp add: GetNetworkInterfaceByTagName_def DescribeNetworkInterfaces_def andthen_call
      andthen_eqI [OF last_interface_run] ret_run)

text \<open>
  Deleting the network interface of a tag deletes at most one interface, the last one EC2 lists,
  and deleting when there is none succeeds without calling \<open>DeleteNetworkInterface\<close>.
\<close>

theorem DeleteNetworkInterface_effect:
  fixes s :: "('w, 'z) base_scheme"
  assumes "svc_DescribeNetworkInterfaces (Svc client) [Filter ''tag:Name'' [tag]] (world s) = (Inr es, w)"
    and "list_all interface_complete es"
  shows "DeleteNetworkInterface tag client s =
    (case es of
       [] \<Rightarrow> (s\<lparr>world := w\<rparr>, Ret None)
     | _ \<Rightarrow> (let eid = the (NetworkInterfaceId (last es));
              (r, w') = svc_DeleteNetworkInterface (Svc client) eid w
         in if eid = [] then (s\<lparr>world := w\<rparr>, Ret None)
            else (case r of
              Inr _ \<Rightarrow> (s\<lparr>world := w'\<rparr>, Ret None)
            | Inl _ \<Rightarrow> (s\<lparr>world := w', counters := (counters s)
                 (DeleteENIErrors := Suc (counters s DeleteENIErrors))\<rparr>,
                Ret (Some (ErrorString (''unable to delete Network Interface : '' @ eid)))))))"
  by (cases es)
    (simp_all add: DeleteNetworkInterface_def andthen_run [of "GetNetworkInterfaceByTagName tag client"]
      GetNetworkInterfaceByTagName_run [OF assms]
      client_DeleteNetworkInterface_def andthen_call ret_run Let_def andthen_run [of "Inc _"] Inc_run
      split: prod.splits sum.splits)

theorem DeleteNetworkInterface_effect_witness:
  "let eni = \<lparr>PrivateDnsName = Some ''ip-10-0-0-9'', NetworkInterfaceId = Some ''eni-9''\<rparr>;
       s = sample_kube (empty_cloud\<lparr>cloud_enis := [eni]\<rparr>)
   in DeleteNetworkInterface ''vk'' (the_client cloud_sdk sample_config) s =
        (s\<lparr>world := empty_cloud\<rparr>, Ret None)"
  using DeleteNetworkInterface_effect [of "the_client cloud_sdk sample_config" "''vk''"
      "sample_kube (empty_cloud\<lparr>cloud_enis :=
         [\<lparr>PrivateDnsName = Some ''ip-10-0-0-9'', NetworkInterfaceId = Some ''eni-9''\<rparr>]\<rparr>)"
      "[\<lparr>PrivateDnsName = Some ''ip-10-0-0-9'', NetworkInterfaceId = Some ''eni-9''\<rparr>]"]
  by (simp add: Let_def sample_kube_def interface_complete_def empty_cloud_def)

text \<open>Only the first security group decides whether names are looked up.\<close>

lemma UpdateInstanceSecurityGroups_first:
  assumes "contains sg ''sg-''"
  shows "UpdateInstanceSecurityGroups client iid (sg # sgs) =
    andthen (ModifyInstanceAttribute client \<lparr>ModifiedInstanceId = iid, Groups = sg # sgs\<rparr>)
      (\<lambda>resp. case resp of Inl err \<Rightarrow> ret (Some err) | Inr _ \<Rightarrow> ret None)"
  using assms by (simp add: UpdateInstanceSecurityGroups_def)

lemma UpdateInstanceSecurityGroups_none: "UpdateInstanceSecurityGroups client iid [] = ret None"
  by (simp add: UpdateInstanceSecurityGroups_def)

end
