(* ===== verification/User_Data.thy ===== *)
theory User_Data
  imports Ec2_Utils
begin

text \<open>
  The user data an instance is launched with (\<open>ec2_client_utils.go\<close>): a JSON object of three strings,
  encoded twice in base64; and what the bootstrap agent makes of it (\<open>decodeUserData\<close> of
  \<open>examples/bootstrap_agent/utils.go\<close>).  \<open>json.Marshal\<close> and \<open>base64.StdEncoding\<close> are those of Go's
  standard library.
\<close>

section \<open>Base64\<close>

definition b64_alphabet :: string where
  "b64_alphabet = ''ABCDEFGHIJKLMNOPQRSTUVWXYZabcdefghijklmnopqrstuvwxyz0123456789+/''"

definition b64_digit :: "nat \<Rightarrow> char" where
  "b64_digit n = b64_alphabet ! n"

text \<open>The value of a digit; 64 for a byte that is none.\<close>

definition b64_value :: "char \<Rightarrow> nat" where
  "b64_value c = length (takeWhile (\<lambda>x. x \<noteq> c) b64_alphabet)"

fun b64_bytes :: "nat list \<Rightarrow> string" where
  "b64_bytes [] = []"
| "b64_bytes [a] = [b64_digit (a div 4), b64_digit (a mod 4 * 16), CHR ''='', CHR ''='']"
| "b64_bytes [a, b] =
     [b64_digit (a div 4), b64_digit (a mod 4 * 16 + b div 16), b64_digit (b mod 16 * 4), CHR ''='']"
| "b64_bytes (a # b # c # r) =
     b64_digit (a div 4) # b64_digit (a mod 4 * 16 + b div 16) #
     b64_digit (b mod 16 * 4 + c div 64) # b64_digit (c mod 64) # b64_bytes r"

definition bytes_of :: "string \<Rightarrow> nat list" where
  "bytes_of s = map of_char s"

definition EncodeUserData :: "string \<Rightarrow> string" where
  "EncodeUserData userData = b64_bytes (bytes_of userData)"

text \<open>
  \<open>DecodeString\<close> stops at the first corrupt group and returns what it has read so far; line breaks,
  which Go skips, do not occur in encoded data.
\<close>

fun b64_read :: "string \<Rightarrow> string" where
  "b64_read (w # x # y # z # r) =
     (let a = b64_value w; b = b64_value x; c = b64_value y; d = b64_value z in
      if a \<ge> 64 \<or> b \<ge> 64 then []
      else if y = CHR ''='' \<and> z = CHR ''='' \<and> r = [] then [char_of (a * 4 + b div 16)]
      else if c \<ge> 64 then []
      else if z = CHR ''='' \<and> r = []
      then [char_of (a * 4 + b div 16), char_of (b mod 16 * 16 + c div 4)]
      else if d \<ge> 64 then []
      else char_of (a * 4 + b div 16) # char_of (b mod 16 * 16 + c div 4) #
           char_of (c mod 4 * 64 + d) # b64_read r)"
| "b64_read _ = []"

definition decodeUserData :: "string \<Rightarrow> string" where
  "decodeUserData userData = b64_read userData"

lemma b64_value_digit: "n < 64 \<Longrightarrow> b64_value (b64_digit n) = n"
proof -
  have "\<forall>n \<in> set [0..<64]. b64_value (b64_digit n) = n"
    by code_simp
  then show "n < 64 \<Longrightarrow> ?thesis" by simp
qed

lemma b64_digit_not_pad: "n < 64 \<Longrightarrow> b64_digit n \<noteq> CHR ''=''"
proof -
  have "\<forall>n \<in> set [0..<64]. b64_digit n \<noteq> CHR ''=''"
    by code_simp
  then show "n < 64 \<Longrightarrow> ?thesis" by simp
qed

lemma split_div_mod: "0 < (n::nat) \<Longrightarrow> \<exists>q r. a = q * n + r \<and> r < n"
  by (intro exI [of _ "a div n"] exI [of _ "a mod n"]) simp
lemma b64_arith:
  fixes a b c :: nat
  assumes "a < 256" "b < 256" "c < 256"
  shows "a div 4 < 64" "a mod 4 * 16 < 64" "a mod 4 * 16 + b div 16 < 64"
    "b mod 16 * 4 < 64" "b mod 16 * 4 + c div 64 < 64" "c mod 64 < 64"
    "a div 4 * 4 + a mod 4 * 16 div 16 = a"
    "a div 4 * 4 + (a mod 4 * 16 + b div 16) div 16 = a"
    "(a mod 4 * 16 + b div 16) mod 16 * 16 + b mod 16 * 4 div 4 = b"
    "(a mod 4 * 16 + b div 16) mod 16 * 16 + (b mod 16 * 4 + c div 64) div 4 = b"
    "(b mod 16 * 4 + c div 64) mod 4 * 64 + c mod 64 = c"
proof -
  obtain qa ra where a: "a = qa * 4 + ra" "ra < 4" using split_div_mod [of 4 a] by auto
  obtain qb rb where b: "b = qb * 16 + rb" "rb < 16" using split_div_mod [of 16 b] by auto
  obtain qc rc where c: "c = qc * 64 + rc" "rc < 64" using split_div_mod [of 64 c] by auto
  have q: "qa < 64" "qb < 16" "qc < 4" using assms a b c by auto
  have e: "a div 4 = qa" "a mod 4 = ra" "b div 16 = qb" "b mod 16 = rb" "c div 64 = qc" "c mod 64 = rc"
    using a b c by simp_all
  show "a div 4 < 64" "a mod 4 * 16 < 64" "a mod 4 * 16 + b div 16 < 64"
    "b mod 16 * 4 < 64" "b mod 16 * 4 + c div 64 < 64" "c mod 64 < 64"
    unfolding e using q a(2) b(2) c(2) by simp_all
  show "a div 4 * 4 + a mod 4 * 16 div 16 = a"
    "a div 4 * 4 + (a mod 4 * 16 + b div 16) div 16 = a"
    "(a mod 4 * 16 + b div 16) mod 16 * 16 + b mod 16 * 4 div 4 = b"
    "(a mod 4 * 16 + b div 16) mod 16 * 16 + (b mod 16 * 4 + c div 64) div 4 = b"
    "(b mod 16 * 4 + c div 64) mod 4 * 64 + c mod 64 = c"
    unfolding e using q a b c by simp_all
qed

lemma b64_read_group:
  "w < 64 \<Longrightarrow> x < 64 \<Longrightarrow> y < 64 \<Longrightarrow> z < 64 \<Longrightarrow>
   b64_read (b64_digit w # b64_digit x # b64_digit y # b64_digit z # r) =
     char_of (w * 4 + x div 16) # char_of (x mod 16 * 16 + y div 4) #
     char_of (y mod 4 * 64 + z) # b64_read r"
  "w < 64 \<Longrightarrow> x < 64 \<Longrightarrow> y < 64 \<Longrightarrow>
   b64_read [b64_digit w, b64_digit x, b64_digit y, CHR ''=''] =
     [char_of (w * 4 + x div 16), char_of (x mod 16 * 16 + y div 4)]"
  "w < 64 \<Longrightarrow> x < 64 \<Longrightarrow>
   b64_read [b64_digit w, b64_digit x, CHR ''='', CHR ''=''] = [char_of (w * 4 + x div 16)]"
  by (simp_all add: Let_def b64_value_digit b64_digit_not_pad)

lemma b64_read_bytes:
  "\<forall>x \<in> set bs. x < 256 \<Longrightarrow> b64_read (b64_bytes bs) = map char_of bs"
proof (induction bs rule: b64_bytes.induct)
  case (2 a)
  then have a: "a < 256" by simp
  show ?case
    by (simp only: b64_bytes.simps b64_read_group(3) [OF b64_arith(1,2) [OF a a a]]
        b64_arith(7) [OF a a a] list.map)
next
  case (3 a b)
  then have a: "a < 256" "b < 256" by simp_all
  show ?case
    by (simp only: b64_bytes.simps b64_read_group(2) [OF b64_arith(1,3,4) [OF a a(1)]]
        b64_arith(8,9) [OF a a(1)] list.map)
next
  case (4 a b c r)
  then have a: "a < 256" "b < 256" "c < 256" by simp_all
  from 4 have "b64_read (b64_bytes r) = map char_of r" by simp
  then show ?case
    by (simp only: b64_bytes.simps b64_read_group(1) [OF b64_arith(1,3,5,6) [OF a]]
        b64_arith(8,10,11) [OF a] list.map)
qed simp

lemma decode_encode: "decodeUserData (EncodeUserData s) = s"
  by (simp add: decodeUserData_def EncodeUserData_def bytes_of_def b64_read_bytes comp_def map_idI)

section \<open>JSON strings\<close>

definition quote :: char where "quote = CHR 0x22"
definition backslash :: char where "backslash = CHR 0x5C"

definition hex_digit :: "nat \<Rightarrow> char" where
  "hex_digit n = ''0123456789abcdef'' ! n"

definition byte_escape :: "char \<Rightarrow> string" where
  "byte_escape c = backslash # ''u00'' @
     [hex_digit ((of_char c :: nat) div 16), hex_digit ((of_char c :: nat) mod 16)]"

text \<open>
  How \<open>json.Marshal\<close> writes one byte below 0x80; \<open>plain\<close> are the bytes of \<open><>&\<close> to write as they are
  (none, for \<open>Marshal\<close> itself).
\<close>

definition short_escape :: "char \<Rightarrow> char option" where
  "short_escape c =
     (if c = quote \<or> c = backslash then Some c
      else if c = CHR 0x0A then Some (CHR ''n'')
      else if c = CHR 0x0D then Some (CHR ''r'')
      else if c = CHR 0x09 then Some (CHR ''t'')
      else None)"

definition html_char :: "char \<Rightarrow> bool" where
  "html_char c \<longleftrightarrow> c = CHR ''<'' \<or> c = CHR ''>'' \<or> c = CHR ''&''"

definition json_byte :: "char list \<Rightarrow> char \<Rightarrow> string" where
  "json_byte plain c =
     (case short_escape c of
        Some e \<Rightarrow> [backslash, e]
      | None \<Rightarrow>
          if (of_char c :: nat) < 32 then byte_escape c
          else if html_char c \<and> \<not> List.member plain c then byte_escape c
          else [c])"

function json_chars :: "string \<Rightarrow> string" where
  "json_chars [] = []"
| "json_chars (c # cs) =
     (if (of_char c :: nat) < 128 then json_byte [] c @ json_chars cs
      else if rune_width (c # cs) = 1 then backslash # ''ufffd'' @ json_chars cs
      else if take 2 (c # cs) = [CHR 0xE2, CHR 0x80] \<and>
              (take 1 (drop 2 (c # cs)) = [CHR 0xA8] \<or> take 1 (drop 2 (c # cs)) = [CHR 0xA9])
      then backslash # ''u202'' @
             [if take 1 (drop 2 (c # cs)) = [CHR 0xA8] then CHR ''8'' else CHR ''9''] @
             json_chars (drop 3 (c # cs))
      else take (rune_width (c # cs)) (c # cs) @ json_chars (drop (rune_width (c # cs)) (c # cs)))"
  by pat_completeness auto
termination
proof (relation "measure length")
  fix c :: char and cs :: string
  have "0 < rune_width (c # cs)" by (rule rune_width_pos)
  then show "(drop (rune_width (c # cs)) (c # cs), c # cs) \<in> measure length"
    by (simp del: rune_width.simps)
qed auto

declare json_chars.simps [simp del]

definition json_string :: "string \<Rightarrow> string" where
  "json_string s = quote # json_chars s @ [quote]"

section \<open>User data\<close>

record UserData =
  VmInit :: string
  UserBootstrapAgent :: string
  PresignedURL :: string

definition json_member :: "string \<Rightarrow> string \<Rightarrow> string" where
  "json_member key value = json_string key @ '':'' @ json_string value"

text \<open>\<open>json.Marshal\<close> on a \<open>UserData\<close>.\<close>

definition marshal_user_data :: "UserData \<Rightarrow> string" where
  "marshal_user_data d = ''{'' @
     json_member ''vm-init-config'' (VmInit d) @ '','' @
     json_member ''bootstrap-agent-config'' (UserBootstrapAgent d) @ '','' @
     json_member ''bootstrap-agent-download-url'' (PresignedURL d) @ ''}''"

definition replaceHTMLEscapes :: "string \<Rightarrow> string" where
  "replaceHTMLEscapes stringData =
     (let stringData = replace_all (backslash # ''u003c'') ''<'' stringData;
          stringData = replace_all (backslash # ''u003e'') ''>'' stringData;
          stringData = replace_all (backslash # ''u0026'') ''&'' stringData
      in stringData)"

definition SignURL ::
  "'w S3Client \<Rightarrow> string \<Rightarrow> string \<Rightarrow> (('w, 'z) base_scheme, go_error + string) go" where
  "SignURL s3Client presignBucket presignKey = PresignGetObject s3Client presignBucket presignKey"

definition GenerateVKVMUserData ::
  "('w, 'e) sdk_scheme \<Rightarrow> string \<Rightarrow> string \<Rightarrow> string \<Rightarrow> string \<Rightarrow>
   (('w, 'z) base_scheme, go_error + string) go" where
  "GenerateVKVMUserData sdk bootstrapS3Bucket bootstrapS3Key vmInit bootstrapAgent =
     andthen (NewS3Client sdk) (\<lambda>c. case c of
       Inl err \<Rightarrow> ret (Inl err)
     | Inr s3api \<Rightarrow>
         andthen (SignURL s3api bootstrapS3Bucket bootstrapS3Key) (\<lambda>r. case r of
           Inl err \<Rightarrow> ret (Inl err)
         | Inr url \<Rightarrow>
             (let tempData = \<lparr>VmInit = vmInit, UserBootstrapAgent = bootstrapAgent, PresignedURL = url\<rparr>;
                  userDataJSON = marshal_user_data tempData
              in ret (Inr (EncodeUserData (EncodeUserData (replaceHTMLEscapes userDataJSON)))))))"

section \<open>The agent's side\<close>

text \<open>
  \<open>json.Unmarshal\<close> into the agent's structure, for an object without white space whose members are
  strings and whose \<open>\u\<close> escapes are below 0x80.  It checks the whole text first, so
  a syntax error leaves every field empty; \<open>getUserData\<close> ignores the error.  The agent's structure
  has a certificate field more than the provider's.
\<close>

record AgentUserData = UserData +
  CACertificate :: string

definition hex_value :: "char \<Rightarrow> nat" where
  "hex_value c = length (takeWhile (\<lambda>x. x \<noteq> lower_char c) ''0123456789abcdef'')"

definition simple_escape :: "char \<Rightarrow> char option" where
  "simple_escape e =
     (if e = quote \<or> e = backslash \<or> e = CHR ''/'' then Some e
      else if e = CHR ''n'' then Some (CHR 0x0A)
      else if e = CHR ''r'' then Some (CHR 0x0D)
      else if e = CHR ''t'' then Some (CHR 0x09)
      else if e = CHR ''b'' then Some (CHR 0x08)
      else if e = CHR ''f'' then Some (CHR 0x0C)
      else None)"

definition hex_escape :: "char \<Rightarrow> char \<Rightarrow> char \<Rightarrow> char \<Rightarrow> char option" where
  "hex_escape h1 h2 h3 h4 =
     (if h1 = CHR ''0'' \<and> h2 = CHR ''0'' \<and> hex_value h3 < 8 \<and> hex_value h4 < 16
      then Some (char_of (hex_value h3 * 16 + hex_value h4)) else None)"

text \<open>\<open>read_string\<close> reads the rest of a string after its opening quote.\<close>

fun escape_of :: "string \<Rightarrow> (char \<times> nat) option" where
  "escape_of (e # h1 # h2 # h3 # h4 # r) =
     (if e = CHR ''u'' then map_option (\<lambda>c. (c, 5)) (hex_escape h1 h2 h3 h4)
      else map_option (\<lambda>c. (c, 1)) (simple_escape e))"
| "escape_of (e # r) = map_option (\<lambda>c. (c, 1)) (simple_escape e)"
| "escape_of [] = None"

function read_string :: "string \<Rightarrow> (string \<times> string) option" where
  "read_string [] = None"
| "read_string (c # cs) =
     (if c = quote then Some ([], cs)
      else if c = backslash then
        (case escape_of cs of
           None \<Rightarrow> None
         | Some (x, n) \<Rightarrow> map_option (\<lambda>(v, r). (x # v, r)) (read_string (drop n cs)))
      else if (of_char c :: nat) < 32 then None
      else map_option (\<lambda>(v, r). (c # v, r)) (read_string cs))"
  by pat_completeness auto
termination
  by (relation "measure length") auto

declare read_string.simps [simp del]

definition expect :: "string \<Rightarrow> string \<Rightarrow> string option" where
  "expect tok s = (if take (length tok) s = tok then Some (drop (length tok) s) else None)"

definition read_member :: "string \<Rightarrow> ((string \<times> string) \<times> string) option" where
  "read_member s =
     Option.bind (expect [quote] s) (\<lambda>s.
     Option.bind (read_string s) (\<lambda>(k, s).
     Option.bind (expect '':'' s) (\<lambda>s.
     Option.bind (expect [quote] s) (\<lambda>s.
     Option.bind (read_string s) (\<lambda>(v, s).
     Some ((k, v), s))))))"

fun read_members :: "nat \<Rightarrow> string \<Rightarrow> (string \<times> string) list option" where
  "read_members 0 s = None"
| "read_members (Suc n) s =
     Option.bind (read_member s) (\<lambda>(m, s).
     if s = ''}'' then Some [m]
     else Option.bind (expect '','' s) (\<lambda>s. map_option ((#) m) (read_members n s)))"

definition read_object :: "string \<Rightarrow> (string \<times> string) list option" where
  "read_object s = Option.bind (expect ''{'' s) (\<lambda>s. read_members (length s) s)"

text \<open>\<open>raw\<close> is what the metadata service serves: EC2 decodes the user data of \<open>RunInstances\<close> once.\<close>

definition member_value :: "(string \<times> string) list \<Rightarrow> string \<Rightarrow> string" where
  "member_value ms k = (case map_of (rev ms) k of None \<Rightarrow> [] | Some v \<Rightarrow> v)"

definition getUserData :: "string \<Rightarrow> AgentUserData" where
  "getUserData raw =
     (let ms = (case read_object (decodeUserData raw) of None \<Rightarrow> [] | Some ms \<Rightarrow> ms)
      in \<lparr>VmInit = member_value ms ''vm-init-config'',
          UserBootstrapAgent = member_value ms ''bootstrap-agent-config'',
          PresignedURL = member_value ms ''bootstrap-agent-download-url'',
          CACertificate = member_value ms ''bootstrap-agent-ca-cert''\<rparr>)"

definition served :: "string \<Rightarrow> string" where
  "served userData = decodeUserData userData"

section \<open>What the HTML escapes become\<close>

text \<open>Text all of whose bytes are ASCII.\<close>

definition ascii :: "string \<Rightarrow> bool" where
  "ascii s \<longleftrightarrow> list_all (\<lambda>c. (of_char c :: nat) < 128) s"

definition json_text :: "char list \<Rightarrow> string \<Rightarrow> string" where
  "json_text plain s = concat (map (json_byte plain) s)"

lemma json_text_simps [simp]:
  "json_text plain [] = []"
  "json_text plain (c # cs) = json_byte plain c @ json_text plain cs"
  by (simp_all add: json_text_def)

lemma json_chars_ascii: "ascii s \<Longrightarrow> json_chars s = json_text [] s"
  by (induction s) (simp_all add: ascii_def json_chars.simps)

lemma hex_value_digit: "n < 16 \<Longrightarrow> hex_value (hex_digit n) = n"
proof -
  have "\<forall>n \<in> set [0..<16]. hex_value (hex_digit n) = n" by code_simp
  then show "n < 16 \<Longrightarrow> ?thesis" by simp
qed

lemma byte_escape_reads:
  assumes "(of_char c :: nat) < 128"
  shows "\<exists>u. byte_escape c @ t = backslash # u \<and> escape_of u = Some (c, 5) \<and> drop 5 u = t"
proof -
  let ?n = "of_char c :: nat"
  have n: "?n div 16 < 8" using assms by (simp add: less_mult_imp_div_less)
  have "hex_escape (CHR ''0'') (CHR ''0'') (hex_digit (?n div 16)) (hex_digit (?n mod 16)) = Some c"
    using n by (simp add: hex_escape_def hex_value_digit)
  then show ?thesis by (simp add: byte_escape_def)
qed

lemma short_escape_reads:
  "short_escape c = Some e \<Longrightarrow> simple_escape e = Some c \<and> e \<noteq> CHR ''u''"
  by (auto simp: short_escape_def simple_escape_def quote_def backslash_def split: if_splits)

lemma read_json_byte:
  assumes "(of_char c :: nat) < 128"
  shows "read_string (json_byte plain c @ t) = map_option (\<lambda>(v, r). (c # v, r)) (read_string t)"
proof -
  have bs: "read_string (backslash # u) = (case escape_of u of None \<Rightarrow> None
      | Some (x, n) \<Rightarrow> map_option (\<lambda>(v, r). (x # v, r)) (read_string (drop n u)))" for u
    by (simp add: read_string.simps(2) quote_def backslash_def)
  have esc: "read_string (byte_escape c @ t) = map_option (\<lambda>(v, r). (c # v, r)) (read_string t)"
    using byte_escape_reads [OF assms, of t] by (auto simp: bs)
  show ?thesis
  proof (cases "short_escape c")
    case None
    then have "c \<noteq> quote" "c \<noteq> backslash" by (auto simp: short_escape_def split: if_splits)
    with None esc show ?thesis by (simp add: json_byte_def read_string.simps(2) [of c])
  next
    case (Some e)
    then have "escape_of (e # t) = Some (c, 1)"
      by (cases "(e # t)" rule: escape_of.cases) (auto dest: short_escape_reads)
    with Some show ?thesis by (simp add: json_byte_def bs)
  qed
qed

lemma read_json_text:
  "ascii s \<Longrightarrow> read_string (json_text plain s @ quote # t) = Some (s, t)"
  by (induction s) (simp_all add: ascii_def read_json_byte read_string.simps(2) [of quote])

lemma replace_all_skip:
  "old \<noteq> [] \<Longrightarrow> hd old \<notin> set xs \<Longrightarrow> replace_all old new (xs @ t) = xs @ replace_all old new t"
  by (induction xs) (cases old; auto)+

lemma byte_escape_inj:
  assumes "byte_escape c = byte_escape d" and "(of_char c :: nat) < 128" and "(of_char d :: nat) < 128"
  shows "c = d"
  using byte_escape_reads [OF assms(2), of "[]"] byte_escape_reads [OF assms(3), of "[]"] assms(1)
  by auto

lemma byte_escape_shape:
  "(of_char c :: nat) < 128 \<Longrightarrow> \<exists>u. byte_escape c = backslash # u \<and> length u = 5 \<and> backslash \<notin> set u"
proof -
  have digits: "\<forall>n \<in> set [0..<16]. hex_digit n \<noteq> backslash" by code_simp
  assume "(of_char c :: nat) < 128"
  then have "(of_char c :: nat) div 16 < 16" by (simp add: less_mult_imp_div_less)
  then have "hex_digit (of_char c div 16) \<noteq> backslash" "hex_digit (of_char c mod 16) \<noteq> backslash"
    using digits by simp_all
  then show ?thesis by (simp add: byte_escape_def) (simp add: backslash_def)
qed

lemma replace_byte_escape:
  assumes "(of_char c :: nat) < 128" and "(of_char d :: nat) < 128"
  shows "replace_all (byte_escape d) new (byte_escape c @ t) =
    (if c = d then new else byte_escape c) @ replace_all (byte_escape d) new t"
proof -
  obtain u where u: "byte_escape c = backslash # u" "length u = 5" "backslash \<notin> set u"
    using byte_escape_shape [OF assms(1)] by blast
  obtain v where v: "byte_escape d = backslash # v" "length v = 5"
    using byte_escape_shape [OF assms(2)] by blast
  show ?thesis
  proof (cases "c = d")
    case True
    with u v show ?thesis by simp
  next
    case False
    then have "u \<noteq> v" using byte_escape_inj [OF _ assms] u v by auto
    then have "replace_all (backslash # v) new (backslash # u @ t) =
        backslash # replace_all (backslash # v) new (u @ t)"
      using u v by simp
    with u v False show ?thesis by (simp add: replace_all_skip)
  qed
qed

lemma replace_json_byte:
  assumes "(of_char c :: nat) < 128" and "c \<noteq> backslash" and "html_char d"
  shows "replace_all (byte_escape d) [d] (json_byte plain c @ t) =
    json_byte (d # plain) c @ replace_all (byte_escape d) [d] t"
proof -
  have d: "(of_char d :: nat) < 128" "\<not> (of_char d :: nat) < 32" "short_escape d = None"
    using assms(3) by (auto simp: html_char_def short_escape_def quote_def backslash_def)
  have shape: "byte_escape d \<noteq> []" "hd (byte_escape d) = backslash"
    using byte_escape_shape [OF d(1)] by auto
  show ?thesis
  proof (cases "short_escape c")
    case None
    show ?thesis
    proof (cases "(of_char c :: nat) < 32 \<or> html_char c \<and> \<not> List.member plain c")
      case True
      then have "json_byte plain c = byte_escape c"
        using None by (auto simp: json_byte_def)
      moreover have "json_byte (d # plain) c = (if c = d then [d] else byte_escape c)"
        using None True d by (auto simp: json_byte_def)
      ultimately show ?thesis
        using replace_byte_escape [OF assms(1) d(1), of "[d]" t] by simp
    next
      case False
      then have "json_byte plain c = [c]" "json_byte (d # plain) c = [c]"
        using None by (auto simp: json_byte_def)
      moreover have "replace_all (byte_escape d) [d] ([c] @ t) = [c] @ replace_all (byte_escape d) [d] t"
        using shape assms(2) by (intro replace_all_skip) simp_all
      ultimately show ?thesis by simp
    qed
  next
    case (Some e)
    then have "e \<noteq> backslash" "e \<noteq> CHR ''u''" using assms(2)
      by (auto simp: short_escape_def quote_def backslash_def split: if_splits)
    then have "replace_all (byte_escape d) [d] (backslash # e # t) =
        backslash # e # replace_all (byte_escape d) [d] t"
      by (simp add: byte_escape_def)
    with Some show ?thesis by (simp add: json_byte_def)
  qed
qed

lemma replace_json_text:
  "ascii s \<Longrightarrow> backslash \<notin> set s \<Longrightarrow> html_char d \<Longrightarrow>
   replace_all (byte_escape d) [d] (json_text plain s @ t) =
     json_text (d # plain) s @ replace_all (byte_escape d) [d] t"
  by (induction s) (auto simp: ascii_def replace_json_byte)

section \<open>The whole object\<close>

definition user_data_json :: "char list \<Rightarrow> UserData \<Rightarrow> string" where
  "user_data_json plain d =
     ([CHR ''{'', quote] @ ''vm-init-config'' @ [quote, CHR '':'', quote]) @ json_text plain (VmInit d) @
     ([quote, CHR '','', quote] @ ''bootstrap-agent-config'' @ [quote, CHR '':'', quote]) @
     json_text plain (UserBootstrapAgent d) @
     ([quote, CHR '','', quote] @ ''bootstrap-agent-download-url'' @ [quote, CHR '':'', quote]) @
     json_text plain (PresignedURL d) @ [quote, CHR ''}'']"

definition ascii_user_data :: "UserData \<Rightarrow> bool" where
  "ascii_user_data d \<longleftrightarrow> ascii (VmInit d) \<and> ascii (UserBootstrapAgent d) \<and> ascii (PresignedURL d)"

definition no_backslash :: "UserData \<Rightarrow> bool" where
  "no_backslash d \<longleftrightarrow> backslash \<notin> set (VmInit d) \<and> backslash \<notin> set (UserBootstrapAgent d) \<and>
     backslash \<notin> set (PresignedURL d)"

lemma json_keys:
  "json_chars ''vm-init-config'' = ''vm-init-config''"
  "json_chars ''bootstrap-agent-config'' = ''bootstrap-agent-config''"
  "json_chars ''bootstrap-agent-download-url'' = ''bootstrap-agent-download-url''"
  by code_simp+

lemma marshal_is_json: "ascii_user_data d \<Longrightarrow> marshal_user_data d = user_data_json [] d"
  by (simp add: marshal_user_data_def user_data_json_def json_member_def json_string_def
      ascii_user_data_def json_chars_ascii json_keys)

lemma replace_user_data:
  assumes "ascii_user_data d" and "no_backslash d" and "html_char x"
  shows "replace_all (byte_escape x) [x] (user_data_json plain d) = user_data_json (x # plain) d"
proof -
  have x: "(of_char x :: nat) < 128" using assms(3) by (auto simp: html_char_def)
  have shape: "byte_escape x \<noteq> []" "hd (byte_escape x) = backslash"
    using byte_escape_shape [OF x] by auto
  have skip: "replace_all (byte_escape x) [x] (xs @ t) = xs @ replace_all (byte_escape x) [x] t"
    if "backslash \<notin> set xs" for xs t
    using replace_all_skip shape that by simp
  have tail: "replace_all (byte_escape x) [x] xs = xs" if "backslash \<notin> set xs" for xs
    using skip [OF that, of "[]"] by simp
  note jtext = replace_json_text [OF _ _ assms(3)]
  have frame: "backslash \<notin> set ([CHR ''{'', quote] @ ''vm-init-config'' @ [quote, CHR '':'', quote])"
    "backslash \<notin> set ([quote, CHR '','', quote] @ ''bootstrap-agent-config'' @ [quote, CHR '':'', quote])"
    "backslash \<notin> set ([quote, CHR '','', quote] @ ''bootstrap-agent-download-url'' @
       [quote, CHR '':'', quote])"
    "backslash \<notin> set [quote, CHR ''}'']"
    by (simp_all add: quote_def backslash_def)
  have asc: "ascii (VmInit d)" "ascii (UserBootstrapAgent d)" "ascii (PresignedURL d)"
    and nb: "backslash \<notin> set (VmInit d)" "backslash \<notin> set (UserBootstrapAgent d)"
      "backslash \<notin> set (PresignedURL d)"
    using assms by (simp_all add: ascii_user_data_def no_backslash_def)
  show ?thesis
    unfolding user_data_json_def skip [OF frame(1)] skip [OF frame(2)] skip [OF frame(3)]
      jtext [OF asc(1) nb(1)] jtext [OF asc(2) nb(2)] jtext [OF asc(3) nb(3)] tail [OF frame(4)]
    by (rule refl)
qed

lemma html_escapes:
  "backslash # ''u003c'' = byte_escape (CHR ''<'')" "backslash # ''u003e'' = byte_escape (CHR ''>'')"
  "backslash # ''u0026'' = byte_escape (CHR ''&'')"
  by code_simp+

lemma replaceHTMLEscapes_json:
  "ascii_user_data d \<Longrightarrow> no_backslash d \<Longrightarrow>
   replaceHTMLEscapes (marshal_user_data d) = user_data_json ''&><'' d"
  by (simp add: replaceHTMLEscapes_def html_escapes marshal_is_json replace_user_data html_char_def)

lemma read_json_key:
  "json_chars k = k \<Longrightarrow> ascii k \<Longrightarrow> read_string (k @ quote # t) = Some (k, t)"
  using read_json_text [of k "[]" t] by (simp add: json_chars_ascii)

lemma read_member_json:
  assumes "json_chars k = k" and "ascii k" and "ascii v"
  shows "read_member (quote # k @ quote # CHR '':'' # quote # json_text plain v @ quote # t) =
    Some ((k, v), t)"
  using assms by (simp add: read_member_def expect_def read_json_key read_json_text)

lemma read_user_data:
  assumes "ascii_user_data d"
  shows "read_object (user_data_json plain d) =
    Some [(''vm-init-config'', VmInit d), (''bootstrap-agent-config'', UserBootstrapAgent d),
      (''bootstrap-agent-download-url'', PresignedURL d)]"
proof -
  have asc: "ascii (VmInit d)" "ascii (UserBootstrapAgent d)" "ascii (PresignedURL d)"
    using assms by (simp_all add: ascii_user_data_def)
  have keys: "ascii ''vm-init-config''" "ascii ''bootstrap-agent-config''"
    "ascii ''bootstrap-agent-download-url''"
    by (simp_all add: ascii_def)
  let ?m = "\<lambda>k v t. quote # k @ quote # CHR '':'' # quote # json_text plain v @ quote # t"
  let ?ms = "?m ''vm-init-config'' (VmInit d) (CHR '','' #
    ?m ''bootstrap-agent-config'' (UserBootstrapAgent d) (CHR '','' #
    ?m ''bootstrap-agent-download-url'' (PresignedURL d) ''}''))"
  have json: "user_data_json plain d = CHR ''{'' # ?ms"
    by (simp add: user_data_json_def)
  obtain n where n: "length ?ms = Suc (Suc (Suc n))"
    by (simp del: append.simps add: numeral_eq_Suc)
  note member = read_member_json [OF json_keys(1) keys(1) asc(1)]
    read_member_json [OF json_keys(2) keys(2) asc(2)] read_member_json [OF json_keys(3) keys(3) asc(3)]
  have "read_members (Suc (Suc (Suc n))) ?ms =
    Some [(''vm-init-config'', VmInit d), (''bootstrap-agent-config'', UserBootstrapAgent d),
      (''bootstrap-agent-download-url'', PresignedURL d)]"
    by (simp only: read_members.simps member Option.bind.simps prod.case expect_def)
      (simp add: member [simplified])
  then show ?thesis
    unfolding json read_object_def n [symmetric] by (simp add: expect_def)
qed

section \<open>From the provider to the agent\<close>

lemma GenerateVKVMUserData_run:
  assumes "config s = Some cfg" and "sdk_loads sdk cfg (world s) w1"
    and "PresignGetObject_op sdk (http_settings cfg) (bucket, key) w1 = (out, w2)"
  shows "GenerateVKVMUserData sdk bucket key vm agent s = (s\<lparr>world := w2\<rparr>, Ret (case out of
      Inl err \<Rightarrow> Inl err
    | Inr url \<Rightarrow> Inr (EncodeUserData (EncodeUserData (replaceHTMLEscapes (marshal_user_data
        \<lparr>VmInit = vm, UserBootstrapAgent = agent, PresignedURL = url\<rparr>))))))"
  using assms(3)
  by (simp add: GenerateVKVMUserData_def andthen_run [of "NewS3Client sdk"] NewS3Client_run [OF assms(1,2)]
      SignURL_def PresignGetObject_def andthen_call ret_run Let_def split: sum.splits)

lemma user_data_read_back:
  fixes s :: "('w, 'z) base_scheme"
  assumes "config s = Some cfg" and "sdk_loads sdk cfg (world s) w1"
    and "PresignGetObject_op sdk (http_settings cfg) (bucket, key) w1 = (Inr url, w2)"
    and "ascii_user_data \<lparr>VmInit = vm, UserBootstrapAgent = agent, PresignedURL = url\<rparr>"
    and "no_backslash \<lparr>VmInit = vm, UserBootstrapAgent = agent, PresignedURL = url\<rparr>"
  shows "\<exists>u. GenerateVKVMUserData sdk bucket key vm agent s = (s\<lparr>world := w2\<rparr>, Ret (Inr u)) \<and>
    getUserData (served u) =
      \<lparr>VmInit = vm, UserBootstrapAgent = agent, PresignedURL = url, CACertificate = []\<rparr>"
  by (simp add: GenerateVKVMUserData_run [OF assms(1-3)] getUserData_def served_def decode_encode
      replaceHTMLEscapes_json [OF assms(4,5)] read_user_data [OF assms(4)] member_value_def)

text \<open>
  C16: what the provider puts into the user data is what the agent reads: for ASCII texts without
  backslashes, quotes, line breaks and the characters \<open><>&\<close> included, the double encoding, the
  rewriting of the HTML escapes, EC2's decoding and the agent's decoding and parsing give back the three
  strings, and an empty certificate.
\<close>

theorem user_data_roundtrip:
  fixes s :: "('w, 'z) base_scheme"
  assumes "config s = Some cfg" and "sdk_loads sdk cfg (world s) w1"
    and "PresignGetObject_op sdk (http_settings cfg) (bucket, key) w1 = (Inr url, w2)"
    and "ascii_user_data \<lparr>VmInit = vm, UserBootstrapAgent = agent, PresignedURL = url\<rparr>"
    and "no_backslash \<lparr>VmInit = vm, UserBootstrapAgent = agent, PresignedURL = url\<rparr>"
  shows "\<exists>u. GenerateVKVMUserData sdk bucket key vm agent s = (s\<lparr>world := w2\<rparr>, Ret (Inr u)) \<and>
    getUserData (served u) =
      \<lparr>VmInit = vm, UserBootstrapAgent = agent, PresignedURL = url, CACertificate = []\<rparr>"
  by (rule user_data_read_back [OF assms])

theorem user_data_roundtrip_witness:
  "\<exists>u. GenerateVKVMUserData cloud_sdk ''b'' ''k'' ''a < b & \"c\"'' ''{}'' (sample_kube empty_cloud) =
      (sample_kube empty_cloud, Ret (Inr u)) \<and>
    getUserData (served u) =
      \<lparr>VmInit = ''a < b & \"c\"'', UserBootstrapAgent = ''{}'', PresignedURL = ''https://b/k'', CACertificate = []\<rparr>"
  using user_data_roundtrip [of "sample_kube empty_cloud" sample_config cloud_sdk empty_cloud
      "''b''" "''k''" "''https://b/k''" empty_cloud "''a < b & \"c\"''" "''{}''"]
  by (simp add: sample_kube_def ascii_user_data_def ascii_def no_backslash_def backslash_def)

text \<open>
  The rewriting of the HTML escapes corrupts text that holds such an escape itself: with the six
  bytes backslash-u003c as VM init data, the JSON the agent gets does not parse, and, since the agent
  ignores the error, it starts with no configuration and no download URL at all.
\<close>

theorem user_data_corrupted:
  fixes s :: "('w, 'z) base_scheme"
  assumes "config s = Some cfg" and "sdk_loads sdk cfg (world s) w1"
    and "PresignGetObject_op sdk (http_settings cfg) (bucket, key) w1 = (Inr ''https://b/k'', w2)"
  shows "\<exists>u. GenerateVKVMUserData sdk bucket key (backslash # ''u003c'') [] s =
      (s\<lparr>world := w2\<rparr>, Ret (Inr u)) \<and>
    getUserData (served u) =
      \<lparr>VmInit = [], UserBootstrapAgent = [], PresignedURL = [], CACertificate = []\<rparr>"
proof -
  have "read_object (replaceHTMLEscapes (marshal_user_data \<lparr>VmInit = backslash # ''u003c'',
      UserBootstrapAgent = [], PresignedURL = ''https://b/k''\<rparr>)) = None"
    by code_simp
  then show ?thesis
    by (simp add: GenerateVKVMUserData_run [OF assms] getUserData_def served_def decode_encode
        member_value_def)
qed

theorem user_data_corrupted_witness:
  "\<exists>u. GenerateVKVMUserData cloud_sdk ''b'' ''k'' (backslash # ''u003c'') [] (sample_kube empty_cloud) =
      (sample_kube empty_cloud, Ret (Inr u)) \<and> PresignedURL (getUserData (served u)) = []"
  using user_data_corrupted [of "sample_kube empty_cloud" sample_config cloud_sdk empty_cloud
      "''b''" "''k''" empty_cloud]
  by (auto simp: sample_kube_def)

end
