(* ===== verification/Warm_Pool.thy ===== *)
theory Warm_Pool
  imports User_Data Health
begin

text \<open>
  \<open>internal/ec2provider/warmpool.go\<close>: the warm pool of instances.  The package variable \<open>VKState\<close> holds
  four maps from instance ids (nil until the first refresh, hence options) and \<open>nodeName\<close> is the package
  variable of that name.  The operations are modelled with their critical sections undisturbed;
  \<open>Warm_Pool_Lock\<close> is about the mutex.
\<close>

section \<open>State\<close>

record Ec2Info =
  InfoInstanceID :: string
  PrivateIP :: string
  IAMProfile :: string
  InfoSecurityGroups :: "string list"
  RetryCount :: int

type_synonym ec2_map = "(string, Ec2Info) go_map"

record vk_state =
  ReadyEC2 :: "ec2_map option"
  ProvisioningEC2 :: "ec2_map option"
  UnhealthyEC2 :: "ec2_map option"
  AllocatedEC2 :: "ec2_map option"

record 'w warm = "'w health" +
  VKState :: vk_state
  nodeName :: string

record 'w WarmPoolManager =
  wpm_config :: "WarmPoolConfig list"
  wpm_ec2Client :: "'w Client"

definition setPod :: string where "setPod = ''set_pod''"
definition setReady :: string where "setReady = ''set_ready''"
definition setInUse :: string where "setInUse = ''set_in_use''"
definition setUnhealthy :: string where "setUnhealthy = ''set_unhealthy''"
definition initialSetup :: string where "initialSetup = ''initial_setup''"
definition operationPendingWarmpool :: string where
  "operationPendingWarmpool = ''Operation.PENDING_WARMPOOL_PROVISIONING''"
definition operationReady :: string where "operationReady = ''Operation.Ready''"
definition operationUnhealthy :: string where "operationUnhealthy = ''Operation.Unhealthy''"
definition operationPendingPod :: string where
  "operationPendingPod = ''Operation.PENDING_POD_PROVISIONING''"
definition operationPodInUse :: string where "operationPodInUse = ''Operation.POD_IN_USE''"

lemmas reasons = setPod_def setReady_def setInUse_def setUnhealthy_def initialSetup_def
lemmas operations = operationPendingWarmpool_def operationReady_def operationUnhealthy_def
  operationPendingPod_def operationPodInUse_def

text \<open>\<open>len\<close>, \<open>range\<close> and \<open>delete\<close> treat a nil map as an empty one; writing to it panics.\<close>

definition entries :: "ec2_map option \<Rightarrow> ec2_map" where
  "entries m = (case m of None \<Rightarrow> [] | Some es \<Rightarrow> es)"

definition put_info :: "string \<Rightarrow> Ec2Info \<Rightarrow> ec2_map option \<Rightarrow> ('s, ec2_map option) go" where
  "put_info k v m = (case m of None \<Rightarrow> die NilMapWrite | Some es \<Rightarrow> ret (Some (assign k v es)))"

definition put_ready :: "string \<Rightarrow> Ec2Info \<Rightarrow> (('w, 'z) warm_scheme, unit) go" where
  "put_ready k v =
     andthen (gets VKState) (\<lambda>vk. andthen (put_info k v (ReadyEC2 vk)) (\<lambda>m.
     modify (\<lambda>s. s\<lparr>VKState := vk\<lparr>ReadyEC2 := m\<rparr>\<rparr>)))"

definition put_provisioning :: "string \<Rightarrow> Ec2Info \<Rightarrow> (('w, 'z) warm_scheme, unit) go" where
  "put_provisioning k v =
     andthen (gets VKState) (\<lambda>vk. andthen (put_info k v (ProvisioningEC2 vk)) (\<lambda>m.
     modify (\<lambda>s. s\<lparr>VKState := vk\<lparr>ProvisioningEC2 := m\<rparr>\<rparr>)))"

definition put_unhealthy :: "string \<Rightarrow> Ec2Info \<Rightarrow> (('w, 'z) warm_scheme, unit) go" where
  "put_unhealthy k v =
     andthen (gets VKState) (\<lambda>vk. andthen (put_info k v (UnhealthyEC2 vk)) (\<lambda>m.
     modify (\<lambda>s. s\<lparr>VKState := vk\<lparr>UnhealthyEC2 := m\<rparr>\<rparr>)))"

definition put_allocated :: "string \<Rightarrow> Ec2Info \<Rightarrow> (('w, 'z) warm_scheme, unit) go" where
  "put_allocated k v =
     andthen (gets VKState) (\<lambda>vk. andthen (put_info k v (AllocatedEC2 vk)) (\<lambda>m.
     modify (\<lambda>s. s\<lparr>VKState := vk\<lparr>AllocatedEC2 := m\<rparr>\<rparr>)))"

section \<open>Popping\<close>

definition popKey :: "ec2_map \<Rightarrow> (('w, 'z) base_scheme, string) go" where
  "popKey m = andthen next_choice (\<lambda>order. index (map fst (range_map order m)) 0)"

definition zero_info :: Ec2Info where
  "zero_info = \<lparr>InfoInstanceID = [], PrivateIP = [], IAMProfile = [], InfoSecurityGroups = [],
     RetryCount = 0\<rparr>"

definition pop :: "ec2_map \<Rightarrow> (('w, 'z) base_scheme, Ec2Info \<times> ec2_map) go" where
  "pop m =
     andthen (popKey m) (\<lambda>key.
     ret (case lookup m key of None \<Rightarrow> zero_info | Some e \<Rightarrow> e, delete_key key m))"

section \<open>Tags\<close>

definition populateEC2Tags ::
  "string \<Rightarrow> pod \<Rightarrow> (('w, 'z) warm_scheme, tag_specification list) go" where
  "populateEC2Tags reason p =
     andthen Config (\<lambda>cfg.
     andthen (gets nodeName) (\<lambda>node.
     (let podTags =
            (if reason = setPod
             then [Tag ''aws-virtual-kubelet/WarmpoolPodName'' (PodName p),
                   Tag ''aws-virtual-kubelet/WarmpoolPodNamespace'' (Namespace p),
                   Tag ''aws-virtual-kubelet/WarmpoolPodUID'' (UID p)]
             else []);
          value =
            (if reason = initialSetup then operationPendingWarmpool
             else if reason = setReady then operationReady
             else if reason = setUnhealthy then operationUnhealthy
             else if reason = setPod then operationPendingPod
             else if reason = setInUse then operationPodInUse
             else [])
      in ret [\<lparr>ResourceType = ''instance'', Tags = podTags @
           [Tag ''aws-virtual-kubelet/WarmpoolNodeName'' node,
            Tag ''aws-virtual-kubelet/WarmpoolClusterName'' (ClusterName cfg),
            Tag ''aws-virtual-kubelet/WarmpoolStatus'' value]\<rparr>])))"

definition updateEC2Tags ::
  "'w WarmPoolManager \<Rightarrow> string \<Rightarrow> string \<Rightarrow> pod \<Rightarrow> (('w, 'z) warm_scheme, go_error option) go" where
  "updateEC2Tags wpm instanceID reason p =
     andthen (populateEC2Tags reason p) (\<lambda>tags.
     andthen (index tags 0) (\<lambda>spec.
     andthen (CreateTags (wpm_ec2Client wpm)
       \<lparr>Resources = [instanceID], NewTags = Tags spec\<rparr>) (\<lambda>r.
     case r of
       Inl err \<Rightarrow> andthen (Inc EC2TagCreationErrors) (\<lambda>_. ret (Some err))
     | Inr _ \<Rightarrow> ret None)))"

section \<open>Creating instances\<close>

text \<open>The four values and the error of \<open>CreateWarmEC2\<close>, which can be zero values without an error.\<close>

type_synonym warm_result = "(string \<times> string \<times> string \<times> string list) \<times> go_error option"

definition CreateWarmEC2 ::
  "('w, 'e) sdk_scheme \<Rightarrow> 'w WarmPoolManager \<Rightarrow> WarmPoolConfig \<Rightarrow> tag_specification list \<Rightarrow>
   (('w, 'z) warm_scheme, warm_result) go" where
  "CreateWarmEC2 sdk wpm wpConfig tags =
     andthen Config (\<lambda>cfg.
     andthen (GenerateVKVMUserData sdk (S3Bucket (BootstrapConf cfg)) (S3Key (BootstrapConf cfg))
       (VMInitData (VMConf cfg)) (AgentInitData (BootstrapConf cfg))) (\<lambda>ud.
     (let finalUserData = (case ud of Inl _ \<Rightarrow> [] | Inr u \<Rightarrow> u);
          err = (case ud of Inl e \<Rightarrow> Some e | Inr _ \<Rightarrow> None);
          n = length (Subnets wpConfig)
      in
      if n = 0 then ret (([], [], [], [[]]), err)
      else
        andthen next_choice (\<lambda>r.
        andthen (index (Subnets wpConfig) (r mod n)) (\<lambda>subnet.
        andthen (EC2RunInstancesUtil (IamInstanceProfile wpConfig) (ImageID wpConfig)
          (InstanceType wpConfig) (KeyPair wpConfig) (SecurityGroups wpConfig) subnet tags
          finalUserData (wpm_ec2Client wpm)) (\<lambda>resp. case resp of
            Inl err \<Rightarrow>
              andthen (Inc WarmEC2LaunchErrors) (\<lambda>_. ret (([], [], [], [[]]), Some err))
          | Inr instances \<Rightarrow>
              andthen (index instances 0) (\<lambda>inst.
              andthen (deref (InstanceId inst)) (\<lambda>iid.
              andthen (Inc WarmEC2Launched) (\<lambda>_.
              andthen (collect deref (SecurityGroupIds inst)) (\<lambda>sgs.
              andthen (case IamInstanceProfileId inst of None \<Rightarrow> ret [] | Some ptr \<Rightarrow> deref ptr)
                (\<lambda>profile.
              andthen (deref (PrivateIpAddress inst)) (\<lambda>ip.
              ret ((iid, ip, profile, sgs), None)))))))))))))"

definition createWarmEC2 ::
  "('w, 'e) sdk_scheme \<Rightarrow> 'w WarmPoolManager \<Rightarrow> WarmPoolConfig \<Rightarrow>
   (('w, 'z) warm_scheme, go_error option) go" where
  "createWarmEC2 sdk wpm wpCfg =
     andthen (populateEC2Tags initialSetup empty_pod) (\<lambda>tags.
     andthen (CreateWarmEC2 sdk wpm wpCfg tags) (\<lambda>((iid, privateIP, profile, sgs), err).
     case err of
       Some e \<Rightarrow> ret (Some e)
     | None \<Rightarrow>
         andthen (put_provisioning iid \<lparr>InfoInstanceID = iid, PrivateIP = privateIP,
           IAMProfile = profile, InfoSecurityGroups = sgs, RetryCount = 0\<rparr>) (\<lambda>_.
         ret None)))"

section \<open>Keeping the depth\<close>

definition warm_count :: "vk_state \<Rightarrow> nat" where
  "warm_count vk = length (entries (ReadyEC2 vk)) + length (entries (ProvisioningEC2 vk))"

text \<open>One round of the loop that picks the instances to terminate.\<close>

definition pop_excess :: "(('w, 'z) warm_scheme, string list) go" where
  "pop_excess =
     andthen (gets VKState) (\<lambda>vk.
     if length (entries (ReadyEC2 vk)) > 0 then
       andthen (pop (entries (ReadyEC2 vk))) (\<lambda>(e, rest).
       andthen (modify (\<lambda>s. s\<lparr>VKState := vk\<lparr>ReadyEC2 := Some rest\<rparr>\<rparr>)) (\<lambda>_.
       ret [InfoInstanceID e]))
     else if length (entries (ProvisioningEC2 vk)) > 0 then
       andthen (pop (entries (ProvisioningEC2 vk))) (\<lambda>(e, rest).
       andthen (modify (\<lambda>s. s\<lparr>VKState := vk\<lparr>ProvisioningEC2 := Some rest\<rparr>\<rparr>)) (\<lambda>_.
       ret [InfoInstanceID e]))
     else ret [])"

fun pop_excesses :: "nat \<Rightarrow> string list \<Rightarrow> (('w, 'z) warm_scheme, string list) go" where
  "pop_excesses 0 ids = ret ids"
| "pop_excesses (Suc n) ids = andthen pop_excess (\<lambda>new. pop_excesses n (ids @ new))"

definition CheckWarmPoolDepth ::
  "('w, 'e) sdk_scheme \<Rightarrow> 'w WarmPoolManager \<Rightarrow> WarmPoolConfig \<Rightarrow> (('w, 'z) warm_scheme, unit) go" where
  "CheckWarmPoolDepth sdk wpm wpc =
     andthen (gets (\<lambda>s. int (warm_count (VKState s)))) (\<lambda>cumulativeWarmEC2.
     if cumulativeWarmEC2 < DesiredCount wpc then
       repeat_n (nat (DesiredCount wpc - cumulativeWarmEC2))
         (andthen (createWarmEC2 sdk wpm wpc) (\<lambda>_. ret ()))
     else if cumulativeWarmEC2 > DesiredCount wpc then
       andthen (pop_excesses (nat (cumulativeWarmEC2 - DesiredCount wpc)) []) (\<lambda>terminatingInstances.
       andthen (TerminateInstances (wpm_ec2Client wpm) terminatingInstances) (\<lambda>r.
       andthen (case r of Inl err \<Rightarrow> Inc WarmEC2TerminationErrors | Inr _ \<Rightarrow> ret ()) (\<lambda>_.
       Inc WarmEC2Terminated)))
     else ret ())"

section \<open>Reading the state from EC2\<close>

definition fresh_info :: "string \<Rightarrow> string \<Rightarrow> Ec2Info" where
  "fresh_info iid ip = \<lparr>InfoInstanceID = iid, PrivateIP = ip, IAMProfile = [],
     InfoSecurityGroups = [], RetryCount = 0\<rparr>"

text \<open>\<open>with_info inst put\<close>: \<open>M[*instance.InstanceId] = Ec2Info{...}\<close> for the map that \<open>put\<close> writes.\<close>

definition with_info ::
  "ec2_instance \<Rightarrow> (string \<Rightarrow> Ec2Info \<Rightarrow> (('w, 'z) warm_scheme, unit) go) \<Rightarrow>
   (('w, 'z) warm_scheme, unit) go" where
  "with_info inst put =
     andthen (deref (InstanceId inst)) (\<lambda>iid.
     andthen (deref (PrivateIpAddress inst)) (\<lambda>ip.
     put iid (fresh_info iid ip)))"

definition load_tag ::
  "'w WarmPoolManager \<Rightarrow> ec2_instance \<Rightarrow> ec2_tag \<Rightarrow> (('w, 'z) warm_scheme, unit) go" where
  "load_tag wpm inst tag =
     andthen (deref (TagKey tag)) (\<lambda>key.
     if key = ''aws-virtual-kubelet/WarmpoolStatus'' then
       andthen (deref (TagValue tag)) (\<lambda>value.
       if value = operationPendingWarmpool then
         andthen (deref (InstanceState inst)) (\<lambda>state.
         if state = ''running'' then
           andthen (deref (InstanceId inst)) (\<lambda>iid.
           andthen (updateEC2Tags wpm iid setReady empty_pod) (\<lambda>err.
           if err \<noteq> None then ret () else with_info inst put_ready))
         else with_info inst put_provisioning)
       else if value = operationReady then with_info inst put_ready
       else if value = operationUnhealthy then with_info inst put_unhealthy
       else if value = operationPendingPod \<or> value = operationPodInUse
       then with_info inst put_allocated
       else ret ())
     else ret ())"

definition load_instance ::
  "'w WarmPoolManager \<Rightarrow> ec2_instance \<Rightarrow> (('w, 'z) warm_scheme, unit) go" where
  "load_instance wpm inst = for_each (load_tag wpm inst) (InstanceTags inst)"

definition empty_vk_state :: vk_state where
  "empty_vk_state = \<lparr>ReadyEC2 = Some make_map, ProvisioningEC2 = Some make_map,
     UnhealthyEC2 = Some make_map, AllocatedEC2 = Some make_map\<rparr>"

definition refresh_filters :: "string \<Rightarrow> string \<Rightarrow> ec2_filter list" where
  "refresh_filters node clusterName =
     [Filter ''tag:aws-virtual-kubelet/WarmpoolNodeName'' [node],
      Filter ''tag:aws-virtual-kubelet/WarmpoolClusterName'' [clusterName],
      Filter ''instance-state-name'' [''running'', ''pending'']]"

text \<open>
  The loop's condition reads the \<open>resp\<close> declared before it, which stays the zero value because
  the body declares another \<open>resp\<close>.  So the loop runs once: \<open>again\<close> is that condition after the first
  round, \<open>outer\<close> the outer variable.
\<close>

definition again :: "describe_instances_output \<Rightarrow> bool" where
  "again outer \<longleftrightarrow> NextToken outer \<noteq> None"

fun refresh_loop ::
  "nat \<Rightarrow> 'w WarmPoolManager \<Rightarrow> describe_instances_output \<Rightarrow> describe_instances_input \<Rightarrow>
   (('w, 'z) warm_scheme, unit) go" where
  "refresh_loop 0 wpm outer input = ret ()"
| "refresh_loop (Suc fuel) wpm outer input =
     andthen (DescribeInstances (wpm_ec2Client wpm) input) (\<lambda>r. case r of
       Inl err \<Rightarrow> ret ()
     | Inr resp \<Rightarrow>
         (let input = (if NextToken resp \<noteq> None then input\<lparr>InputNextToken := NextToken resp\<rparr> else input)
          in
          andthen (for_each (for_each (load_instance wpm)) (Reservations resp)) (\<lambda>_.
          if again outer then refresh_loop fuel wpm outer input else ret ())))"

definition checkEC2TagsForState ::
  "'w WarmPoolManager \<Rightarrow> describe_instances_input \<Rightarrow> (('w, 'z) warm_scheme, unit) go" where
  "checkEC2TagsForState wpm input =
     andthen Config (\<lambda>cfg.
     andthen (modify (\<lambda>s. s\<lparr>VKState := empty_vk_state\<rparr>)) (\<lambda>_.
     andthen (gets nodeName) (\<lambda>node.
     refresh_loop 1 wpm \<lparr>Reservations = [], NextToken = None\<rparr>
       (input\<lparr>Filters := Filters input @ refresh_filters node (ClusterName cfg)\<rparr>))))"

definition no_input :: describe_instances_input where
  "no_input = \<lparr>InstanceIds = [], Filters = [], InputNextToken = None\<rparr>"

definition RefreshWarmPoolFromEC2 :: "'w WarmPoolManager \<Rightarrow> (('w, 'z) warm_scheme, unit) go" where
  "RefreshWarmPoolFromEC2 wpm = checkEC2TagsForState wpm no_input"

definition GetWarmPoolInstanceIfExist ::
  "'w WarmPoolManager \<Rightarrow> (('w, 'z) warm_scheme, string \<times> string \<times> bool) go" where
  "GetWarmPoolInstanceIfExist wpm =
     andthen (RefreshWarmPoolFromEC2 wpm) (\<lambda>_.
     andthen (gets VKState) (\<lambda>vk.
     if length (entries (ReadyEC2 vk)) = 0 then ret ([], [], False)
     else
       andthen (pop (entries (ReadyEC2 vk))) (\<lambda>(e, rest).
       andthen (modify (\<lambda>s. s\<lparr>VKState := vk\<lparr>ReadyEC2 := Some rest\<rparr>\<rparr>)) (\<lambda>_.
       ret (InfoInstanceID e, PrivateIP e, True)))))"

section \<open>Start-up and maintenance\<close>

definition initial_pool ::
  "('w, 'e) sdk_scheme \<Rightarrow> 'w WarmPoolManager \<Rightarrow> WarmPoolConfig \<Rightarrow> (('w, 'z) warm_scheme, unit) go" where
  "initial_pool sdk wpm wpc =
     andthen (gets (\<lambda>s. int (length (entries (ProvisioningEC2 (VKState s))) +
       length (entries (ReadyEC2 (VKState s)))))) (\<lambda>existingEC2.
     repeat_n (nat (DesiredCount wpc - existingEC2))
       (andthen (createWarmEC2 sdk wpm wpc) (\<lambda>err.
        if err \<noteq> None then die (GoPanic
          ''This createWarmEC2 error wasn't originally handled...determine what to do here'')
        else ret ())))"

definition InitialWarmPoolCreation ::
  "('w, 'e) sdk_scheme \<Rightarrow> 'w WarmPoolManager \<Rightarrow> (('w, 'z) warm_scheme, unit) go" where
  "InitialWarmPoolCreation sdk wpm =
     andthen (checkEC2TagsForState wpm no_input) (\<lambda>_.
     for_each (initial_pool sdk wpm) (wpm_config wpm))"

text \<open>What the two background loops do when their tickers (a minute, an hour) fire.\<close>

definition depth_tick ::
  "('w, 'e) sdk_scheme \<Rightarrow> 'w WarmPoolManager \<Rightarrow> (('w, 'z) warm_scheme, unit) go" where
  "depth_tick sdk wpm = for_each (CheckWarmPoolDepth sdk wpm) (wpm_config wpm)"

definition refresh_tick :: "'w WarmPoolManager \<Rightarrow> (('w, 'z) warm_scheme, unit) go" where
  "refresh_tick wpm = for_each (\<lambda>_. RefreshWarmPoolFromEC2 wpm) (wpm_config wpm)"

definition fillAndMaintain ::
  "('w, 'e) sdk_scheme \<Rightarrow> 'w WarmPoolManager \<Rightarrow> (('w, 'z) warm_scheme, unit) go" where
  "fillAndMaintain sdk wpm =
     (if length (wpm_config wpm) > 0 then InitialWarmPoolCreation sdk wpm else ret ())"

definition NewWarmPool ::
  "('w, 'e) sdk_scheme \<Rightarrow> (('w, 'z) warm_scheme, go_error + 'w WarmPoolManager) go" where
  "NewWarmPool sdk =
     andthen Config (\<lambda>cfg.
     andthen (NewEc2Client sdk) (\<lambda>c. case c of
       Inl err \<Rightarrow> ret (Inl err)
     | Inr client \<Rightarrow> ret (Inr \<lparr>wpm_config = warm_pools cfg, wpm_ec2Client = client\<rparr>)))"

definition SetNodeName :: "string \<Rightarrow> (('w, 'z) warm_scheme, unit) go" where
  "SetNodeName node = modify (\<lambda>s. s\<lparr>nodeName := node\<rparr>)"

definition TerminateInstance ::
  "('w, 'e) sdk_scheme \<Rightarrow> string \<Rightarrow> (('w, 'z) base_scheme, go_error + string) go" where
  "TerminateInstance sdk instanceID = TerminateEC2 sdk instanceID"

definition delete_info :: "string \<Rightarrow> ec2_map option \<Rightarrow> ec2_map option" where
  "delete_info k m = map_option (delete_key k) m"

definition RemoveFromWarmPool :: "Ec2Info \<Rightarrow> (('w, 'z) warm_scheme, go_error option) go" where
  "RemoveFromWarmPool e =
     andthen (modify (\<lambda>s. s\<lparr>VKState := (VKState s)\<lparr>
       ReadyEC2 := delete_info (InfoInstanceID e) (ReadyEC2 (VKState s)),
       ProvisioningEC2 := delete_info (InfoInstanceID e) (ProvisioningEC2 (VKState s)),
       UnhealthyEC2 := delete_info (InfoInstanceID e) (UnhealthyEC2 (VKState s))\<rparr>\<rparr>)) (\<lambda>_.
     ret None)"

definition RemoveFromReadyState :: "Ec2Info \<Rightarrow> (('w, 'z) warm_scheme, go_error option) go" where
  "RemoveFromReadyState e =
     andthen (modify (\<lambda>s. s\<lparr>VKState := (VKState s)\<lparr>
       ReadyEC2 := delete_info (InfoInstanceID e) (ReadyEC2 (VKState s))\<rparr>\<rparr>)) (\<lambda>_.
     ret None)"

definition RemoveFromUnhealthyState :: "Ec2Info \<Rightarrow> (('w, 'z) warm_scheme, go_error option) go" where
  "RemoveFromUnhealthyState e =
     andthen (modify (\<lambda>s. s\<lparr>VKState := (VKState s)\<lparr>
       UnhealthyEC2 := delete_info (InfoInstanceID e) (UnhealthyEC2 (VKState s))\<rparr>\<rparr>)) (\<lambda>_.
     ret None)"

section \<open>The state as a function of EC2's answer\<close>

datatype pool = InReady | InProvisioning | InUnhealthy | InAllocated

fun pool_map :: "pool \<Rightarrow> vk_state \<Rightarrow> ec2_map option" where
  "pool_map InReady vk = ReadyEC2 vk"
| "pool_map InProvisioning vk = ProvisioningEC2 vk"
| "pool_map InUnhealthy vk = UnhealthyEC2 vk"
| "pool_map InAllocated vk = AllocatedEC2 vk"

fun put_pool :: "pool \<Rightarrow> string \<Rightarrow> Ec2Info \<Rightarrow> vk_state \<Rightarrow> vk_state" where
  "put_pool InReady k v vk = vk\<lparr>ReadyEC2 := Some (assign k v (entries (ReadyEC2 vk)))\<rparr>"
| "put_pool InProvisioning k v vk =
     vk\<lparr>ProvisioningEC2 := Some (assign k v (entries (ProvisioningEC2 vk)))\<rparr>"
| "put_pool InUnhealthy k v vk = vk\<lparr>UnhealthyEC2 := Some (assign k v (entries (UnhealthyEC2 vk)))\<rparr>"
| "put_pool InAllocated k v vk = vk\<lparr>AllocatedEC2 := Some (assign k v (entries (AllocatedEC2 vk)))\<rparr>"

definition vk_ok :: "vk_state \<Rightarrow> bool" where
  "vk_ok vk \<longleftrightarrow> (\<forall>p. case pool_map p vk of None \<Rightarrow> False | Some m \<Rightarrow> go_map_ok m)"

definition pool_ids :: "pool \<Rightarrow> vk_state \<Rightarrow> string set" where
  "pool_ids p vk = dom (lookup (entries (pool_map p vk)))"

text \<open>An instance as EC2 describes it: every field the refresh reads is there, tag keys are unique.\<close>

definition complete :: "ec2_instance \<Rightarrow> bool" where
  "complete i \<longleftrightarrow> InstanceId i \<noteq> None \<and> PrivateIpAddress i \<noteq> None \<and> InstanceState i \<noteq> None \<and>
     list_all (\<lambda>t. TagKey t \<noteq> None \<and> TagValue t \<noteq> None) (InstanceTags i) \<and>
     distinct (map TagKey (InstanceTags i))"

definition status_key :: string where
  "status_key = ''aws-virtual-kubelet/WarmpoolStatus''"

definition status_of :: "ec2_instance \<Rightarrow> string option" where
  "status_of i = (case find (\<lambda>t. TagKey t = Some status_key) (InstanceTags i) of
     None \<Rightarrow> None | Some t \<Rightarrow> TagValue t)"

fun classify_status :: "string \<Rightarrow> string option \<Rightarrow> pool option" where
  "classify_status v state =
     (if v = operationPendingWarmpool
      then (if state = Some ''running'' then Some InReady else Some InProvisioning)
      else if v = operationReady then Some InReady
      else if v = operationUnhealthy then Some InUnhealthy
      else if v = operationPendingPod \<or> v = operationPodInUse then Some InAllocated
      else None)"

definition classify :: "ec2_instance \<Rightarrow> pool option" where
  "classify i = (case status_of i of None \<Rightarrow> None | Some v \<Rightarrow> classify_status v (InstanceState i))"

definition add_instance :: "ec2_instance \<Rightarrow> vk_state \<Rightarrow> vk_state" where
  "add_instance i vk = (case classify i of
     None \<Rightarrow> vk
   | Some p \<Rightarrow> put_pool p (the (InstanceId i))
       (fresh_info (the (InstanceId i)) (the (PrivateIpAddress i))) vk)"

lemma vk_ok_maps:
  assumes "vk_ok vk"
  obtains r p u a where "ReadyEC2 vk = Some r" "ProvisioningEC2 vk = Some p"
    "UnhealthyEC2 vk = Some u" "AllocatedEC2 vk = Some a"
    "go_map_ok r" "go_map_ok p" "go_map_ok u" "go_map_ok a"
proof -
  have *: "\<exists>m. pool_map q vk = Some m \<and> go_map_ok m" for q
    using assms unfolding vk_ok_def by (auto split: option.splits)
  show ?thesis
    using *[of InReady] *[of InProvisioning] *[of InUnhealthy] *[of InAllocated] that by auto
qed

lemma entries_Some [simp]: "entries (Some m) = m" "entries None = []"
  by (simp_all add: entries_def)

lemma pool_map_put_pool:
  "pool_map q (put_pool p k v vk) =
     (if q = p then Some (assign k v (entries (pool_map p vk))) else pool_map q vk)"
  by (cases p; cases q) simp_all

lemma vk_ok_put_pool: "vk_ok vk \<Longrightarrow> vk_ok (put_pool p k v vk)"
  unfolding vk_ok_def pool_map_put_pool
  by (auto split: option.splits intro!: gm.ok_put) (metis entries_Some(1) option.exhaust)

lemma vk_ok_empty: "vk_ok empty_vk_state"
  unfolding vk_ok_def
proof
  fix p show "case pool_map p empty_vk_state of None \<Rightarrow> False | Some m \<Rightarrow> go_map_ok m"
    by (cases p) (simp_all add: empty_vk_state_def gm.ok_empty)
qed

lemma vk_ok_add_instance: "vk_ok vk \<Longrightarrow> vk_ok (add_instance i vk)"
  by (simp add: add_instance_def vk_ok_put_pool split: option.splits)

lemma put_runs:
  assumes "vk_ok (VKState s)"
  shows "put_ready k v s = (s\<lparr>VKState := put_pool InReady k v (VKState s)\<rparr>, Ret ())"
    "put_provisioning k v s = (s\<lparr>VKState := put_pool InProvisioning k v (VKState s)\<rparr>, Ret ())"
    "put_unhealthy k v s = (s\<lparr>VKState := put_pool InUnhealthy k v (VKState s)\<rparr>, Ret ())"
    "put_allocated k v s = (s\<lparr>VKState := put_pool InAllocated k v (VKState s)\<rparr>, Ret ())"
  using assms
  by (auto elim!: vk_ok_maps simp: put_ready_def put_provisioning_def put_unhealthy_def
      put_allocated_def put_info_def go_simps)

lemma pool_ids_put_pool:
  "vk_ok vk \<Longrightarrow> pool_ids q (put_pool p k v vk) = (if q = p then insert k (pool_ids q vk) else pool_ids q vk)"
proof -
  assume "vk_ok vk"
  then have "go_map_ok (entries (pool_map p vk))"
    unfolding vk_ok_def by (metis entries_Some(1) option.case_eq_if option.collapse)
  then show ?thesis
    by (auto simp: pool_ids_def pool_map_put_pool gm.look_put split: if_splits)
qed

lemma pool_ids_fold:
  assumes "vk_ok vk" and "list_all complete is"
  shows "pool_ids p (fold add_instance is vk) =
    pool_ids p vk \<union> {k. \<exists>i \<in> set is. InstanceId i = Some k \<and> classify i = Some p}"
  using assms
proof (induction "is" arbitrary: vk)
  case (Cons i "is")
  have "pool_ids p (add_instance i vk) =
      pool_ids p vk \<union> {k. InstanceId i = Some k \<and> classify i = Some p}"
    using Cons.prems
    by (auto simp: add_instance_def pool_ids_put_pool complete_def split: option.splits)
  with Cons show ?case by (auto simp: vk_ok_add_instance)
qed simp

section \<open>Running the refresh\<close>

definition tagging_works :: "'w Client \<Rightarrow> bool" where
  "tagging_works client \<longleftrightarrow> (\<forall>input w. fst (svc_CreateTags (Svc client) input w) = Inr ())"

lemma populateEC2Tags_run:
  "config s = Some cfg \<Longrightarrow> \<exists>spec. populateEC2Tags reason p s = (s, Ret [spec])"
  by (simp add: populateEC2Tags_def go_simps heap_runs Let_def)

lemma updateEC2Tags_works:
  assumes "config s = Some cfg" and "tagging_works (wpm_ec2Client wpm)"
  shows "\<exists>w. updateEC2Tags wpm iid reason p s = (s\<lparr>world := w\<rparr>, Ret None)"
proof -
  obtain spec where "populateEC2Tags reason p s = (s, Ret [spec])"
    using populateEC2Tags_run [OF assms(1)] by blast
  with assms(2) show ?thesis
    by (auto simp: updateEC2Tags_def andthen_run index_def CreateTags_def call_run ret_run
        tagging_works_def)
qed

lemma load_other_tag:
  "TagKey t = Some k \<Longrightarrow> k \<noteq> status_key \<Longrightarrow> load_tag wpm i t s = (s, Ret ())"
  by (simp add: load_tag_def status_key_def go_simps)

lemma load_status_tag:
  assumes "config s = Some cfg" and "tagging_works (wpm_ec2Client wpm)" and "vk_ok (VKState s)"
    and "InstanceId i = Some iid" and "PrivateIpAddress i = Some ip" and "InstanceState i = Some st"
    and "TagKey t = Some status_key" and "TagValue t = Some v"
  shows "\<exists>w. load_tag wpm i t s = (s\<lparr>world := w, VKState := (case classify_status v (Some st) of
      None \<Rightarrow> VKState s | Some p \<Rightarrow> put_pool p iid (fresh_info iid ip) (VKState s))\<rparr>, Ret ())"
proof (cases "v = operationPendingWarmpool \<and> st = ''running''")
  case True
  obtain w where u: "updateEC2Tags wpm iid setReady empty_pod s = (s\<lparr>world := w\<rparr>, Ret None)"
    using updateEC2Tags_works [OF assms(1,2)] by blast
  show ?thesis
    using True assms(3-8)
    by (intro exI [of _ w]) (simp add: load_tag_def status_key_def with_info_def andthen_run u put_runs)
next
  case False
  show ?thesis
    using False assms(3-8)
    by (intro exI [of _ "world s"])
      (auto simp: load_tag_def status_key_def with_info_def put_runs ret_run)
qed

lemma status_tag_alone:
  assumes "complete i" and "find (\<lambda>t. TagKey t = Some status_key) (InstanceTags i) = Some t"
  shows "\<exists>xs ys. InstanceTags i = xs @ t # ys \<and> TagKey t = Some status_key \<and>
    (\<forall>us s'. set us \<subseteq> set xs \<union> set ys \<longrightarrow> for_each (load_tag wpm i) us s' = (s', Ret ()))"
proof -
  obtain xs ys where ts: "InstanceTags i = xs @ t # ys" and key: "TagKey t = Some status_key"
    using assms(2) by (metis (mono_tags, lifting) find_Some_iff id_take_nth_drop)
  have others: "\<exists>k. TagKey u = Some k \<and> k \<noteq> status_key" if u: "u \<in> set xs \<union> set ys" for u
  proof -
    have "TagKey u \<noteq> None" "TagKey u \<noteq> Some status_key"
      using assms(1) u ts key by (auto simp: complete_def list_all_iff image_iff)
    then show ?thesis by auto
  qed
  have "for_each (load_tag wpm i) us s' = (s', Ret ())" if "set us \<subseteq> set xs \<union> set ys" for us s'
    using others that by (intro for_each_same) (metis load_other_tag subsetD)
  with ts key show ?thesis by blast
qed

lemma load_instance_run:
  fixes s :: "('w, 'z) warm_scheme"
  assumes "config s = Some cfg" and "tagging_works (wpm_ec2Client wpm)" and "vk_ok (VKState s)"
    and "complete i"
  shows "\<exists>w. load_instance wpm i s = (s\<lparr>world := w, VKState := add_instance i (VKState s)\<rparr>, Ret ())"
proof (cases "find (\<lambda>t. TagKey t = Some status_key) (InstanceTags i)")
  case None
  then have "load_tag wpm i t s = (s, Ret ())" if "t \<in> set (InstanceTags i)" for t
    using that assms(4) by (auto simp: complete_def list_all_iff find_None_iff intro: load_other_tag)
  then have "load_instance wpm i s = (s, Ret ())"
    unfolding load_instance_def by (rule for_each_same)
  with None show ?thesis
    by (intro exI [of _ "world s"]) (simp add: add_instance_def classify_def status_of_def)
next
  case (Some t)
  obtain xs ys where ts: "InstanceTags i = xs @ t # ys" and key: "TagKey t = Some status_key"
    and skip: "\<And>us s' :: ('w, 'z) warm_scheme. set us \<subseteq> set xs \<union> set ys \<Longrightarrow> for_each (load_tag wpm i) us s' = (s', Ret ())"
    using status_tag_alone [OF assms(4) Some] by blast
  obtain iid ip st v where f: "InstanceId i = Some iid" "PrivateIpAddress i = Some ip"
      "InstanceState i = Some st" "TagValue t = Some v"
    using assms(4) ts by (auto simp: complete_def)
  from load_status_tag [OF assms(1-3) f(1-3) key f(4)] obtain w where
    "load_tag wpm i t s = (s\<lparr>world := w, VKState := (case classify_status v (Some st) of
      None \<Rightarrow> VKState s | Some p \<Rightarrow> put_pool p iid (fresh_info iid ip) (VKState s))\<rparr>, Ret ())" ..
  moreover have "add_instance i (VKState s) = (case classify_status v (Some st) of
      None \<Rightarrow> VKState s | Some p \<Rightarrow> put_pool p iid (fresh_info iid ip) (VKState s))"
    using Some f by (simp only: add_instance_def classify_def status_of_def option.case option.sel)
  ultimately show ?thesis
    unfolding load_instance_def ts for_each_append
    by (intro exI [of _ w]) (simp add: andthen_run skip)
qed

lemma load_instances_run:
  assumes "config s = Some cfg" and "tagging_works (wpm_ec2Client wpm)" and "vk_ok (VKState s)"
    and "list_all complete is"
  shows "\<exists>w. for_each (load_instance wpm) is s =
    (s\<lparr>world := w, VKState := fold add_instance is (VKState s)\<rparr>, Ret ())"
  using assms
proof (induction "is" arbitrary: s)
  case Nil
  show ?case by (intro exI [of _ "world s"]) (simp add: ret_run)
next
  case (Cons i "is")
  from load_instance_run [of s cfg wpm i] Cons.prems obtain w where
    step: "load_instance wpm i s = (s\<lparr>world := w, VKState := add_instance i (VKState s)\<rparr>, Ret ())"
    by auto
  let ?t = "s\<lparr>world := w, VKState := add_instance i (VKState s)\<rparr>"
  have "config ?t = Some cfg" "vk_ok (VKState ?t)" "list_all complete is"
    using Cons.prems by (simp_all add: vk_ok_add_instance)
  from Cons.IH [OF this(1) Cons.prems(2) this(2,3)] obtain w' where
    "for_each (load_instance wpm) is ?t =
      (?t\<lparr>world := w', VKState := fold add_instance is (VKState ?t)\<rparr>, Ret ())" ..
  with step show ?case by (intro exI [of _ w']) (simp add: andthen_run)
qed

end
