(* ===== verification/Warm_Pool_Facts.thy ===== *)
theory Warm_Pool_Facts
  imports Warm_Pool
begin

text \<open>
  What \<open>warmpool.go\<close> does: the refresh rebuilds the maps from EC2's tags, the depth check brings the
  pool to its size, an instance is popped for a pod; and where that goes wrong: further pages, failing
  calls, several pools, pools without subnets, two pods at once.
\<close>

section \<open>Refreshing\<close>

text \<open>The refresh asks EC2 once, whatever the fuel.\<close>

lemma refresh_loop_once:
  "NextToken outer = None \<Longrightarrow> refresh_loop (Suc fuel) wpm outer input = refresh_loop 1 wpm outer input"
  by (simp add: again_def)

definition refresh_input :: "('w, 'z) warm_scheme \<Rightarrow> ProviderConfig \<Rightarrow> describe_instances_input" where
  "refresh_input s cfg = no_input\<lparr>Filters := refresh_filters (nodeName s) (ClusterName cfg)\<rparr>"

lemma RefreshWarmPoolFromEC2_error:
  assumes "config s = Some cfg"
    and "svc_DescribeInstances (Svc (wpm_ec2Client wpm)) (refresh_input s cfg) (world s) = (Inl err, w)"
  shows "RefreshWarmPoolFromEC2 wpm s = (s\<lparr>world := w, VKState := empty_vk_state\<rparr>, Ret ())"
  using assms
  by (simp add: RefreshWarmPoolFromEC2_def checkEC2TagsForState_def refresh_input_def go_simps heap_runs
      DescribeInstances_def no_input_def)

lemma RefreshWarmPoolFromEC2_run:
  assumes "config s = Some cfg" and "tagging_works (wpm_ec2Client wpm)"
    and "svc_DescribeInstances (Svc (wpm_ec2Client wpm)) (refresh_input s cfg) (world s) = (Inr out, w)"
    and "list_all complete (concat (Reservations out))"
  shows "\<exists>w'. RefreshWarmPoolFromEC2 wpm s =
    (s\<lparr>world := w', VKState := fold add_instance (concat (Reservations out)) empty_vk_state\<rparr>, Ret ())"
proof -
  let ?s = "s\<lparr>VKState := empty_vk_state, world := w\<rparr>"
  have "config ?s = Some cfg" "vk_ok (VKState ?s)" using assms(1) by (simp_all add: vk_ok_empty)
  from load_instances_run [OF this(1) assms(2) this(2) assms(4)] obtain w' where
    run: "for_each (load_instance wpm) (concat (Reservations out)) ?s =
      (?s\<lparr>world := w', VKState := fold add_instance (concat (Reservations out)) (VKState ?s)\<rparr>, Ret ())" ..
  show ?thesis
    using assms(1,3) run
    by (intro exI [of _ w'])
      (simp add: RefreshWarmPoolFromEC2_def checkEC2TagsForState_def refresh_input_def go_simps heap_runs
        DescribeInstances_def no_input_def for_each_concat again_def)
qed

text \<open>
  C10: a refresh makes the four maps a function of the first page EC2 returns, whatever was there before:
  an instance is ready when its status tag says so or when it was pending and now runs, provisioning
  while it is pending, unhealthy or allocated by its tag, and in no map without a known status; nothing
  else is in the maps, so instances on further pages (\<open>NextToken\<close>) are not in the pool.
\<close>

theorem refresh_rebuilds_state:
  fixes s :: "('w, 'z) warm_scheme"
  assumes "config s = Some cfg" and "tagging_works (wpm_ec2Client wpm)"
    and "svc_DescribeInstances (Svc (wpm_ec2Client wpm)) (refresh_input s cfg) (world s) = (Inr out, w)"
    and "list_all complete (concat (Reservations out))"
  shows "\<exists>w' vk. RefreshWarmPoolFromEC2 wpm s = (s\<lparr>world := w', VKState := vk\<rparr>, Ret ()) \<and>
    (\<forall>p. pool_ids p vk =
       {k. \<exists>i \<in> set (concat (Reservations out)). InstanceId i = Some k \<and> classify i = Some p})"
proof -
  let ?vk = "fold add_instance (concat (Reservations out)) empty_vk_state"
  have empty: "pool_ids p empty_vk_state = {}" for p
    by (cases p) (auto simp: pool_ids_def empty_vk_state_def gm.look_empty)
  have "pool_ids p ?vk =
      {k. \<exists>i \<in> set (concat (Reservations out)). InstanceId i = Some k \<and> classify i = Some p}" for p
    using pool_ids_fold [OF vk_ok_empty assms(4), of p] empty by simp
  with RefreshWarmPoolFromEC2_run [OF assms] show ?thesis by metis
qed

section \<open>The maps of the pool\<close>

definition with_pools :: "vk_state \<Rightarrow> ec2_map \<Rightarrow> ec2_map \<Rightarrow> vk_state" where
  "with_pools vk r p = vk\<lparr>ReadyEC2 := Some r, ProvisioningEC2 := Some p\<rparr>"

lemma vk_ok_with_pools: "vk_ok vk \<Longrightarrow> go_map_ok r \<Longrightarrow> go_map_ok p \<Longrightarrow> vk_ok (with_pools vk r p)"
  unfolding vk_ok_def
proof
  fix q
  assume "\<forall>p. case pool_map p vk of None \<Rightarrow> False | Some m \<Rightarrow> go_map_ok m"
    and "go_map_ok r" "go_map_ok p"
  then show "case pool_map q (with_pools vk r p) of None \<Rightarrow> False | Some m \<Rightarrow> go_map_ok m"
    by (cases q) (auto simp: with_pools_def dest: spec [of _ q])
qed

lemma vk_ok_split:
  assumes "vk_ok vk"
  shows "vk = with_pools vk (entries (ReadyEC2 vk)) (entries (ProvisioningEC2 vk))"
    "go_map_ok (entries (ReadyEC2 vk))" "go_map_ok (entries (ProvisioningEC2 vk))"
proof -
  obtain r p where "ReadyEC2 vk = Some r" "ProvisioningEC2 vk = Some p" "go_map_ok r" "go_map_ok p"
    using assms by (auto elim: vk_ok_maps)
  then show "vk = with_pools vk (entries (ReadyEC2 vk)) (entries (ProvisioningEC2 vk))"
    "go_map_ok (entries (ReadyEC2 vk))" "go_map_ok (entries (ProvisioningEC2 vk))"
    by (simp_all add: with_pools_def)
qed

section \<open>Launching\<close>

text \<open>
  \<open>ec2_answers sdk client P\<close>: what AWS documents of the calls that fill the pool.  \<open>P w S\<close> describes the
  worlds of an account in which \<open>S\<close> is a set of instance ids already given out.  \<open>RunInstances\<close> for one
  instance may fail, with any error and at any time; when it succeeds it answers with one instance, with
  an id never given out before, an address and complete security groups.  Loading the SDK configuration,
  presigning a URL and terminating instances may succeed or fail.
\<close>

definition launched_ok :: "ec2_instance \<Rightarrow> bool" where
  "launched_ok i \<longleftrightarrow> InstanceId i \<noteq> None \<and> PrivateIpAddress i \<noteq> None \<and>
     IamInstanceProfileId i \<noteq> Some None \<and> list_all (\<lambda>g. g \<noteq> None) (SecurityGroupIds i)"

definition run_answer :: "('w \<Rightarrow> string set \<Rightarrow> bool) \<Rightarrow> string set \<Rightarrow>
  (go_error + ec2_instance list) \<times> 'w \<Rightarrow> bool" where
  "run_answer P S r \<longleftrightarrow> (case r of
       (Inl err, w) \<Rightarrow> P w S
     | (Inr is, w) \<Rightarrow> (\<exists>i. is = [i] \<and> launched_ok i \<and> the (InstanceId i) \<notin> S \<and>
         P w (insert (the (InstanceId i)) S)))"

definition ec2_answers ::
  "('w, 'e) sdk_scheme \<Rightarrow> 'w Client \<Rightarrow> ('w \<Rightarrow> string set \<Rightarrow> bool) \<Rightarrow> bool" where
  "ec2_answers sdk client P \<longleftrightarrow> (\<forall>w S. P w S \<longrightarrow>
     (\<forall>x. P (snd (LoadDefaultConfig sdk x w)) S) \<and>
     (\<forall>x bk. P (snd (PresignGetObject_op sdk x bk w)) S) \<and>
     (\<forall>ids. P (snd (svc_TerminateInstances (Svc client) ids w)) S) \<and>
     (\<forall>input. run_answer P S (svc_RunInstances (Svc client) input w)))"

text \<open>The one way in which filling the pool ends the process: the SDK configuration did not load.\<close>

definition config_load_fatal :: "('w, 'e) sdk_scheme \<Rightarrow> ProviderConfig \<Rightarrow> crash \<Rightarrow> bool" where
  "config_load_fatal sdk cfg c \<longleftrightarrow> (\<exists>w e. fst (LoadDefaultConfig sdk (http_settings cfg) w) = Some e \<and>
     c = LogFatal (''unable to load SDK config, '' @ Error e))"

definition run_input ::
  "string \<Rightarrow> string \<Rightarrow> string \<Rightarrow> string \<Rightarrow> string list \<Rightarrow> string \<Rightarrow> tag_specification list \<Rightarrow>
   string \<Rightarrow> run_instances_input" where
  "run_input prof img ty key sgs sub tags ud =
     \<lparr>IamInstanceProfileName = prof, ImageId = img, RunInstanceType = ty, MaxCount = 1, MinCount = 1,
      RunSecurityGroupIds = sgs, SubnetId = sub, TagSpecifications = tags, RunUserData = ud,
      KeyName = (if key \<noteq> [] then Some key else None)\<rparr>"

lemma EC2RunInstancesUtil_call:
  "EC2RunInstancesUtil prof img ty key sgs sub tags ud client =
   RunInstances client (run_input prof img ty key sgs sub tags ud)"
  by (simp add: EC2RunInstancesUtil_def run_input_def Let_def)

lemma collect_deref: "list_all (\<lambda>g. g \<noteq> None) gs \<Longrightarrow> collect deref gs s = (s, Ret (map the gs))"
  by (induction gs) (auto simp: go_simps)

lemma user_data_outcome:
  fixes s :: "('w, 'z) base_scheme"
  assumes "ec2_answers sdk client P" and "P (world s) S" and "config s = Some cfg"
  shows "\<exists>w x. GenerateVKVMUserData sdk b k vm agent s = (s\<lparr>world := w\<rparr>, x) \<and> P w S \<and>
    (case x of Ret _ \<Rightarrow> True | Crash c \<Rightarrow> config_load_fatal sdk cfg c)"
proof (cases "LoadDefaultConfig sdk (http_settings cfg) (world s)")
  case (Pair r w1)
  have w1: "P w1 S" using assms(1,2) Pair unfolding ec2_answers_def by (metis snd_conv)
  show ?thesis
  proof (cases r)
    case None
    then have "sdk_loads sdk cfg (world s) w1" using Pair by (simp add: sdk_loads_def)
    moreover obtain out w2 where
      w2: "PresignGetObject_op sdk (http_settings cfg) (b, k) w1 = (out, w2)" by (meson surj_pair)
    moreover have "P w2 S" using assms(1) w1 w2 unfolding ec2_answers_def by (metis snd_conv)
    ultimately show ?thesis
      using GenerateVKVMUserData_run [OF assms(3)] by (metis outcome.case(1))
  next
    case (Some e)
    have "NewS3Client sdk s =
        (s\<lparr>world := w1\<rparr>, Crash (LogFatal (''unable to load SDK config, '' @ Error e)))"
      using assms(3) Pair Some by (simp add: NewS3Client_def go_simps Config_run call_run)
    then have "GenerateVKVMUserData sdk b k vm agent s =
        (s\<lparr>world := w1\<rparr>, Crash (LogFatal (''unable to load SDK config, '' @ Error e)))"
      by (simp add: GenerateVKVMUserData_def andthen_crashI)
    moreover have "config_load_fatal sdk cfg (LogFatal (''unable to load SDK config, '' @ Error e))"
      unfolding config_load_fatal_def using Pair Some by (metis fst_conv)
    ultimately show ?thesis using w1
      by (intro exI [of _ w1] exI [of _ "Crash (LogFatal (''unable to load SDK config, '' @ Error e))"])
        (simp only: outcome.case)
  qed
qed

text \<open>The counters after \<open>a\<close> launches and \<open>b\<close> failed ones.\<close>

definition count_tries :: "nat \<Rightarrow> nat \<Rightarrow> (metric \<Rightarrow> nat) \<Rightarrow> metric \<Rightarrow> nat" where
  "count_tries a b c = c(WarmEC2Launched := c WarmEC2Launched + a,
     WarmEC2LaunchErrors := c WarmEC2LaunchErrors + b)"

lemma count_tries_simps [simp]:
  "count_tries 0 0 c = c"
  "count_tries a b (count_tries a' b' c) = count_tries (a + a') (b + b') c"
  "count_tries a b c WarmEC2Launched = c WarmEC2Launched + a"
  "count_tries a b c WarmEC2LaunchErrors = c WarmEC2LaunchErrors + b"
  "count_tries a b c WarmEC2Terminated = c WarmEC2Terminated"
  by (auto simp: count_tries_def fun_eq_iff)

lemma count_try:
  "count_tries (Suc 0) 0 c = c(WarmEC2Launched := Suc (c WarmEC2Launched))"
  "count_tries 0 (Suc 0) c = c(WarmEC2LaunchErrors := Suc (c WarmEC2LaunchErrors))"
  by (auto simp: count_tries_def fun_eq_iff)

definition launch_result :: "('w, 'e) sdk_scheme \<Rightarrow> ProviderConfig \<Rightarrow> ('w \<Rightarrow> string set \<Rightarrow> bool) \<Rightarrow>
  string set \<Rightarrow> 'w \<Rightarrow> nat \<Rightarrow> nat \<Rightarrow> warm_result outcome \<Rightarrow> bool" where
  "launch_result sdk cfg P S w a b x \<longleftrightarrow> (case x of
       Crash c \<Rightarrow> a = 0 \<and> b = 0 \<and> P w S \<and> config_load_fatal sdk cfg c
     | Ret ((iid, _), None) \<Rightarrow> a = 1 \<and> b = 0 \<and> iid \<notin> S \<and> P w (insert iid S)
     | Ret (_, Some err) \<Rightarrow> a = 0 \<and> b = 1 \<and> P w S)"

lemma CreateWarmEC2_outcome:
  fixes s :: "('w, 'z) warm_scheme"
  assumes "ec2_answers sdk (wpm_ec2Client wpm) P" and "P (world s) S" and "config s = Some cfg"
    and "Subnets wpc \<noteq> []"
  shows "\<exists>w ch a b x. CreateWarmEC2 sdk wpm wpc tags s =
      (s\<lparr>world := w, choices := ch, counters := count_tries a b (counters s)\<rparr>, x) \<and>
    launch_result sdk cfg P S w a b x"
proof -
  obtain w x where ud: "GenerateVKVMUserData sdk (S3Bucket (BootstrapConf cfg)) (S3Key (BootstrapConf cfg))
      (VMInitData (VMConf cfg)) (AgentInitData (BootstrapConf cfg)) s = (s\<lparr>world := w\<rparr>, x)" "P w S"
      "case x of Ret _ \<Rightarrow> True | Crash c \<Rightarrow> config_load_fatal sdk cfg c"
    using user_data_outcome [OF assms(1-3)] by blast
  show ?thesis
  proof (cases x)
    case (Crash c)
    then have "CreateWarmEC2 sdk wpm wpc tags s = (s\<lparr>world := w\<rparr>, Crash c)"
      using assms(3) ud(1) by (simp add: CreateWarmEC2_def andthen_Config andthen_crashI)
    then show ?thesis using ud(2,3) Crash
      by (intro exI [of _ w] exI [of _ "choices s"] exI [of _ 0] exI [of _ 0]
          exI [of _ "Crash c"]) (simp add: launch_result_def)
  next
    case (Ret r)
    let ?c = "case choices s of [] \<Rightarrow> 0 | c # _ \<Rightarrow> c"
    let ?sub = "Subnets wpc ! (?c mod length (Subnets wpc))"
    let ?input = "run_input (IamInstanceProfile wpc) (ImageID wpc) (InstanceType wpc) (KeyPair wpc)
        (SecurityGroups wpc) ?sub tags (case r of Inl _ \<Rightarrow> [] | Inr u \<Rightarrow> u)"
    have "?c mod length (Subnets wpc) < length (Subnets wpc)" using assms(4) by simp
    note step = this assms(3,4) ud(1) Ret
    note run = CreateWarmEC2_def andthen_Config andthen_run [of "GenerateVKVMUserData _ _ _ _ _"]
        Let_def andthen_run [of next_choice] next_choice_run EC2RunInstancesUtil_call index_def RunInstances_def
        andthen_call andthen_run [of "Inc _"] Inc_run andthen_run [of "collect _ _"] collect_deref ret_run
    have answer: "run_answer P S (svc_RunInstances (Svc (wpm_ec2Client wpm)) ?input w)"
      using assms(1) ud(2) unfolding ec2_answers_def by blast
    show ?thesis
    proof (cases "svc_RunInstances (Svc (wpm_ec2Client wpm)) ?input w")
      case (Pair out w')
      show ?thesis
      proof (cases out)
        case (Inl err)
        have "CreateWarmEC2 sdk wpm wpc tags s = (s\<lparr>world := w', choices := tl (choices s),
            counters := count_tries 0 1 (counters s)\<rparr>, Ret (([], [], [], [[]]), Some err))"
          using step Pair Inl by (simp add: run count_try)
        then show ?thesis using answer Pair Inl
          by (intro exI conjI) (assumption | simp add: launch_result_def run_answer_def)+
      next
        case (Inr "is")
        obtain i where i: "is = [i]" "launched_ok i" "the (InstanceId i) \<notin> S"
            "P w' (insert (the (InstanceId i)) S)"
          using answer Pair Inr by (auto simp: run_answer_def)
        obtain iid ip where f: "InstanceId i = Some iid" "PrivateIpAddress i = Some ip"
            "list_all (\<lambda>g. g \<noteq> None) (SecurityGroupIds i)" "IamInstanceProfileId i \<noteq> Some None"
          using i(2) by (auto simp: launched_ok_def)
        obtain prof where prof: "(case IamInstanceProfileId i of None \<Rightarrow> ret [] | Some ptr \<Rightarrow> deref ptr) =
            (ret prof :: (('w, 'z) warm_scheme, string) go)"
          using f(4) by (cases "IamInstanceProfileId i") (auto simp: deref_def split: option.splits)
        have "CreateWarmEC2 sdk wpm wpc tags s = (s\<lparr>world := w', choices := tl (choices s),
            counters := count_tries 1 0 (counters s)\<rparr>,
            Ret ((iid, ip, prof, map the (SecurityGroupIds i)), None))"
          using step Pair Inr i(1) f prof by (simp add: run count_try)
        then show ?thesis using i f
          by (intro exI conjI) (assumption | simp add: launch_result_def)+
      qed
    qed
  qed
qed

text \<open>The fields the warm pool changes.\<close>

definition pool_step :: "('w, 'z) warm_scheme \<Rightarrow> ('w, 'z) warm_scheme \<Rightarrow> bool" where
  "pool_step s t \<longleftrightarrow>
     (\<exists>w ch ct vk. t = s\<lparr>world := w, choices := ch, counters := ct, VKState := vk\<rparr>)"

lemma pool_stepI: "pool_step s (s\<lparr>world := w, choices := ch, counters := ct, VKState := vk\<rparr>)"
  unfolding pool_step_def by blast

lemma pool_stepI': "pool_step s (s\<lparr>choices := ch, VKState := vk, world := w, counters := ct\<rparr>)"
proof -
  have "s\<lparr>choices := ch, VKState := vk, world := w, counters := ct\<rparr> =
      s\<lparr>world := w, choices := ch, counters := ct, VKState := vk\<rparr>" by simp
  then show ?thesis by (simp only: pool_stepI)
qed

lemma pool_step_refl [simp]: "pool_step s s"
  using pool_stepI [where s = s and w = "world s" and ch = "choices s" and ct = "counters s" and vk = "VKState s"]
  by simp

lemma pool_step_trans: "pool_step s t \<Longrightarrow> pool_step t u \<Longrightarrow> pool_step s u"
  unfolding pool_step_def by (elim exE) (simp, blast)

lemma pool_step_config: "pool_step s t \<Longrightarrow> config t = config s"
  by (auto simp: pool_step_def)

text \<open>
  The state between two operations of the pool: well-formed maps whose entries are filed under their own
  ids, and an account \<open>P w S\<close> that has given out every id the pool is provisioning.
\<close>

definition vk_keyed :: "vk_state \<Rightarrow> bool" where
  "vk_keyed vk \<longleftrightarrow>
     (\<forall>p k e. lookup (entries (pool_map p vk)) k = Some e \<longrightarrow> InfoInstanceID e = k)"

definition pool_inv ::
  "ProviderConfig \<Rightarrow> ('w \<Rightarrow> string set \<Rightarrow> bool) \<Rightarrow> string set \<Rightarrow> ('w, 'z) warm_scheme \<Rightarrow> bool" where
  "pool_inv cfg P S s \<longleftrightarrow> config s = Some cfg \<and> vk_ok (VKState s) \<and> vk_keyed (VKState s) \<and>
     P (world s) S \<and> pool_ids InProvisioning (VKState s) \<subseteq> S"

text \<open>The number of instances, and the ids of those still provisioning.\<close>

lemma warm_count_put_provisioning:
  "vk_ok vk \<Longrightarrow> k \<notin> pool_ids InProvisioning vk \<Longrightarrow>
   warm_count (put_pool InProvisioning k v vk) = Suc (warm_count vk)"
  by (auto simp: warm_count_def length_assign pool_ids_def)

lemma vk_keyed_put_provisioning:
  assumes "vk_ok vk" and "vk_keyed vk"
  shows "vk_keyed (put_pool InProvisioning (InfoInstanceID e) e vk)"
proof -
  have "pool_map p (put_pool InProvisioning (InfoInstanceID e) e vk) = (if p = InProvisioning
      then Some (assign (InfoInstanceID e) e (entries (ProvisioningEC2 vk))) else pool_map p vk)" for p
    by (cases p) simp_all
  then show ?thesis
    using assms(2) vk_ok_split(3) [OF assms(1)] unfolding vk_keyed_def
    by (auto simp: gm.look_put split: if_splits) (metis pool_map.simps(2))
qed

text \<open>One launch for the pool: it adds an instance, or fails and changes nothing but its counter.\<close>

lemma createWarmEC2_outcome:
  fixes s :: "('w, 'z) warm_scheme"
  assumes "ec2_answers sdk (wpm_ec2Client wpm) P" and "pool_inv cfg P S s" and "Subnets wpc \<noteq> []"
  shows "\<exists>t S' a b x. createWarmEC2 sdk wpm wpc s = (t, x) \<and> pool_step s t \<and> pool_inv cfg P S' t \<and>
    ReadyEC2 (VKState t) = ReadyEC2 (VKState s) \<and> counters t = count_tries a b (counters s) \<and>
    warm_count (VKState t) = a + warm_count (VKState s) \<and>
    (case x of Crash c \<Rightarrow> config_load_fatal sdk cfg c | Ret _ \<Rightarrow> a + b = 1)"
proof -
  have inv: "config s = Some cfg" "vk_ok (VKState s)" "vk_keyed (VKState s)" "P (world s) S"
      "pool_ids InProvisioning (VKState s) \<subseteq> S"
    using assms(2) by (simp_all add: pool_inv_def)
  obtain spec where tags: "populateEC2Tags initialSetup empty_pod s = (s, Ret [spec])"
    using populateEC2Tags_run [OF inv(1)] by blast
  obtain w ch a b x where run: "CreateWarmEC2 sdk wpm wpc [spec] s =
      (s\<lparr>world := w, choices := ch, counters := count_tries a b (counters s)\<rparr>, x)" (is "_ = (?t, _)")
      "launch_result sdk cfg P S w a b x"
    using CreateWarmEC2_outcome [OF assms(1) inv(4,1) assms(3), of "[spec]"] by blast
  note def = createWarmEC2_def andthen_run [of "populateEC2Tags _ _"] andthen_run [of "CreateWarmEC2 _ _ _ _"]
  have step: "pool_step s (?t\<lparr>VKState := vk\<rparr>)" for vk unfolding pool_step_def by auto
  have same: "?t\<lparr>VKState := VKState s\<rparr> = ?t" by simp
  show ?thesis
  proof (cases x)
    case (Crash c)
    have "createWarmEC2 sdk wpm wpc s = (?t, Crash c)"
      using tags run(1) Crash by (simp add: def)
    moreover have "pool_inv cfg P S ?t" using inv run(2) Crash by (simp add: pool_inv_def launch_result_def)
    moreover have "a = 0" "b = 0" "config_load_fatal sdk cfg c"
      using run(2) Crash by (simp_all add: launch_result_def)
    ultimately show ?thesis using step [of "VKState s"] unfolding same
      by (intro exI [of _ ?t] exI [of _ S] exI [of _ 0] exI [of _ "Crash c"]) simp
  next
    case (Ret r)
    obtain iid ip prof sgs err where r: "r = ((iid, ip, prof, sgs), err)" by (metis surj_pair)
    show ?thesis
    proof (cases err)
      case (Some e)
      have "createWarmEC2 sdk wpm wpc s = (?t, Ret (Some e))"
        using tags run(1) Ret r Some by (simp add: def ret_run)
      moreover have "pool_inv cfg P S ?t" using inv run(2) Ret r Some
        by (simp add: pool_inv_def launch_result_def)
      moreover have "a = 0" "b = 1" using run(2) Ret r Some by (simp_all add: launch_result_def)
      ultimately show ?thesis using step [of "VKState s"] unfolding same
        by (intro exI [of _ ?t] exI [of _ S] exI [of _ 0] exI [of _ 1] exI [of _ "Ret (Some e)"]) simp
    next
      case None
      let ?info = "\<lparr>InfoInstanceID = iid, PrivateIP = ip, IAMProfile = prof, InfoSecurityGroups = sgs,
          RetryCount = 0\<rparr>"
      let ?vk = "put_pool InProvisioning iid ?info (VKState s)"
      have new: "a = 1" "b = 0" "iid \<notin> S" "P w (insert iid S)"
        using run(2) Ret r None by (simp_all add: launch_result_def)
      have "createWarmEC2 sdk wpm wpc s = (?t\<lparr>VKState := ?vk\<rparr>, Ret None)"
        using inv(2) tags run(1) Ret r None
        by (simp add: def andthen_run [of "put_provisioning _ _"] put_runs ret_run)
      moreover have "vk_keyed ?vk" using vk_keyed_put_provisioning [OF inv(2,3), of ?info] by simp
      then have "pool_inv cfg P (insert iid S) (?t\<lparr>VKState := ?vk\<rparr>)"
        using inv new(4) by (auto simp: pool_inv_def vk_ok_put_pool pool_ids_put_pool simp del: put_pool.simps)
      moreover have "warm_count ?vk = Suc (warm_count (VKState s))"
        using warm_count_put_provisioning [OF inv(2)] inv(5) new(3) by blast
      ultimately show ?thesis using step [of ?vk] new(1,2)
        by (intro exI [of _ "?t\<lparr>VKState := ?vk\<rparr>"] exI [of _ "insert iid S"] exI [of _ 1] exI [of _ 0]
            exI [of _ "Ret None"]) simp
    qed
  qed
qed

lemma createWarmEC2_repeated:
  fixes s :: "('w, 'z) warm_scheme"
  assumes "ec2_answers sdk (wpm_ec2Client wpm) P" and "pool_inv cfg P S s" and "Subnets wpc \<noteq> []"
  shows "\<exists>t S' a b x. repeat_n n (andthen (createWarmEC2 sdk wpm wpc) (\<lambda>_. ret ())) s = (t, x) \<and>
    pool_step s t \<and> pool_inv cfg P S' t \<and>
    ReadyEC2 (VKState t) = ReadyEC2 (VKState s) \<and> counters t = count_tries a b (counters s) \<and>
    warm_count (VKState t) = a + warm_count (VKState s) \<and>
    (case x of Crash c \<Rightarrow> 0 < n \<and> config_load_fatal sdk cfg c | Ret _ \<Rightarrow> a + b = n)"
  using assms(2)
proof (induction n arbitrary: s S)
  case 0
  then show ?case
    by (intro exI [of _ s] exI [of _ S] exI [of _ 0] exI [of _ "Ret ()"]) (simp add: ret_run)
next
  case (Suc n)
  let ?m = "andthen (createWarmEC2 sdk wpm wpc) (\<lambda>_. ret ())"
  from createWarmEC2_outcome [OF assms(1) Suc.prems assms(3)] obtain t S' a b x where
    t: "createWarmEC2 sdk wpm wpc s = (t, x)" "pool_step s t" "pool_inv cfg P S' t"
      "ReadyEC2 (VKState t) = ReadyEC2 (VKState s)" "counters t = count_tries a b (counters s)"
      "warm_count (VKState t) = a + warm_count (VKState s)"
      "case x of Crash c \<Rightarrow> config_load_fatal sdk cfg c | Ret _ \<Rightarrow> a + b = 1"
    by blast
  show ?case
  proof (cases x)
    case (Crash c)
    then have "repeat_n (Suc n) ?m s = (t, Crash c)" using t(1) by (simp add: andthen_run)
    with t Crash show ?thesis
      by (intro exI [of _ t] exI [of _ S'] exI [of _ a] exI [of _ b] exI [of _ "Crash c"]) simp
  next
    case (Ret r)
    from Suc.IH [OF t(3)] obtain u S'' a' b' y where
      u: "repeat_n n ?m t = (u, y)" "pool_step t u" "pool_inv cfg P S'' u"
        "ReadyEC2 (VKState u) = ReadyEC2 (VKState t)" "counters u = count_tries a' b' (counters t)"
        "warm_count (VKState u) = a' + warm_count (VKState t)"
        "case y of Crash c \<Rightarrow> 0 < n \<and> config_load_fatal sdk cfg c | Ret _ \<Rightarrow> a' + b' = n"
      by blast
    have "repeat_n (Suc n) ?m s = (u, y)" using t(1) Ret u(1) by (simp add: andthen_run ret_run)
    with t u Ret show ?thesis
      by (intro exI [of _ u] exI [of _ S''] exI [of _ "a' + a"] exI [of _ "b' + b"] exI [of _ y])
        (auto simp: pool_step_trans [OF t(2) u(2)] split: outcome.splits)
  qed
qed

section \<open>Popping\<close>

lemma pop_run:
  assumes "m \<noteq> []" and "go_map_ok m"
  shows "\<exists>k e ch. pop m s = (s\<lparr>choices := ch\<rparr>, Ret (e, delete_key k m)) \<and> lookup m k = Some e"
proof -
  let ?r = "range_map (case choices s of [] \<Rightarrow> 0 | c # _ \<Rightarrow> c) m"
  obtain k e rest where r: "?r = (k, e) # rest"
    using assms(1) by (cases ?r) auto
  then have "(k, e) \<in> set m" by (metis list.set_intros(1) set_range_map)
  then have l: "lookup m k = Some e" using lookup_in_set [OF assms(2)] by simp
  have "popKey m s = (s\<lparr>choices := tl (choices s)\<rparr>, Ret k)"
    using r assms(1) by (simp add: popKey_def andthen_run next_choice_run index_def ret_run)
  with l show ?thesis
    by (intro exI [of _ k] exI [of _ e] exI [of _ "tl (choices s)"]) (simp add: pop_def andthen_run ret_run)
qed

text \<open>\<open>m'\<close> is the map \<open>m\<close> without the keys of \<open>ks\<close>, all of which it had.\<close>

definition without :: "string list \<Rightarrow> ec2_map \<Rightarrow> ec2_map \<Rightarrow> bool" where
  "without ks m m' \<longleftrightarrow> go_map_ok m' \<and> distinct ks \<and> set ks \<subseteq> dom (lookup m) \<and>
     lookup m' = lookup m |` (- set ks) \<and> length m = length ks + length m'"

lemma without_Nil [simp]: "go_map_ok m \<Longrightarrow> without [] m m"
  by (simp add: without_def restrict_map_def)

lemma without_Cons:
  assumes "go_map_ok m" and "lookup m k = Some e" and "without ks (delete_key k m) m'"
  shows "without (k # ks) m m'"
proof -
  have d: "lookup (delete_key k m) = (lookup m)(k := None)"
    by (rule ext) (simp add: gm.look_del [OF assms(1)])
  have len: "m \<noteq> []" using assms(2) by (auto simp: lookup_def)
  then have "length m = Suc (length (delete_key k m))"
    using length_delete_key [OF assms(1), of k] assms(2) by simp
  moreover have "lookup m' = lookup m |` (- set (k # ks))"
    using assms(3) by (auto simp: without_def d restrict_map_def fun_eq_iff)
  ultimately show ?thesis
    using assms(2,3) by (auto simp: without_def d split: if_splits)
qed

lemma go_map_ok_without: "without ks m m' \<Longrightarrow> go_map_ok m'"
  by (simp add: without_def)

text \<open>The loop takes ready instances as long as there are some, then provisioning ones.\<close>

lemma pop_excesses_run:
  assumes "VKState s = with_pools vk r p" and "go_map_ok r" and "go_map_ok p"
    and "\<forall>k e. lookup r k = Some e \<or> lookup p k = Some e \<longrightarrow> InfoInstanceID e = k"
    and "n \<le> length r + length p"
  shows "\<exists>ch rs ps r' p'. pop_excesses n ids s =
      (s\<lparr>choices := ch, VKState := with_pools vk r' p'\<rparr>, Ret (ids @ rs @ ps)) \<and>
    without rs r r' \<and> without ps p p' \<and> length rs = min n (length r) \<and> length rs + length ps = n"
  using assms
proof (induction n arbitrary: s r p ids)
  case 0
  have "s\<lparr>choices := choices s, VKState := with_pools vk r p\<rparr> = s"
    unfolding 0(1) [symmetric] by simp
  with 0(2,3) show ?case
    by (intro exI [of _ "choices s"] exI [of _ "[]"] exI [of _ r] exI [of _ p]) (simp add: ret_run)
next
  case (Suc n)
  show ?case
  proof (cases "r = []")
    case False
    obtain k e ch where pop: "pop r s = (s\<lparr>choices := ch\<rparr>, Ret (e, delete_key k r))" "lookup r k = Some e"
      using pop_run [OF False Suc.prems(2)] by blast
    have e: "InfoInstanceID e = k" using Suc.prems(4) pop(2) by blast
    let ?t = "s\<lparr>choices := ch, VKState := with_pools vk (delete_key k r) p\<rparr>"
    have step: "pop_excess s = (?t, Ret [k])"
      using False pop e Suc.prems(1)
      by (simp add: pop_excess_def with_pools_def andthen_run ret_run modify_run gets_run)
    have len: "length r = Suc (length (delete_key k r))"
      using length_delete_key [OF Suc.prems(2), of k] pop(2) False by simp
    have prems: "VKState ?t = with_pools vk (delete_key k r) p" "go_map_ok (delete_key k r)" "go_map_ok p"
      "\<forall>k' e. lookup (delete_key k r) k' = Some e \<or> lookup p k' = Some e \<longrightarrow> InfoInstanceID e = k'"
      "n \<le> length (delete_key k r) + length p"
      using Suc.prems len by (auto simp: gm.ok_del gm.look_del split: if_splits)
    from Suc.IH [OF prems, of "ids @ [k]"] obtain ch' rs ps r' p' where
      IH: "pop_excesses n (ids @ [k]) ?t =
        (?t\<lparr>choices := ch', VKState := with_pools vk r' p'\<rparr>, Ret ((ids @ [k]) @ rs @ ps))"
        "without rs (delete_key k r) r'" "without ps p p'"
        "length rs = min n (length (delete_key k r))" "length rs + length ps = n"
      by blast
    have "pop_excesses (Suc n) ids s =
        (s\<lparr>choices := ch', VKState := with_pools vk r' p'\<rparr>, Ret (ids @ (k # rs) @ ps))"
      using step IH(1) by (simp add: andthen_run)
    moreover have "length (k # rs) = min (Suc n) (length r)" "length (k # rs) + length ps = Suc n"
      using IH(4,5) len by simp_all
    ultimately show ?thesis
      using without_Cons [OF Suc.prems(2) pop(2) IH(2)] IH(3) by blast
  next
    case True
    then have "p \<noteq> []" using Suc.prems(5) by auto
    obtain k e ch where pop: "pop p s = (s\<lparr>choices := ch\<rparr>, Ret (e, delete_key k p))" "lookup p k = Some e"
      using pop_run [OF \<open>p \<noteq> []\<close> Suc.prems(3)] by blast
    have e: "InfoInstanceID e = k" using Suc.prems(4) pop(2) by blast
    let ?t = "s\<lparr>choices := ch, VKState := with_pools vk r (delete_key k p)\<rparr>"
    have step: "pop_excess s = (?t, Ret [k])"
      using True \<open>p \<noteq> []\<close> pop e Suc.prems(1)
      by (simp add: pop_excess_def with_pools_def andthen_run ret_run modify_run gets_run)
    have len: "length p = Suc (length (delete_key k p))"
      using length_delete_key [OF Suc.prems(3), of k] pop(2) \<open>p \<noteq> []\<close> by simp
    have prems: "VKState ?t = with_pools vk r (delete_key k p)" "go_map_ok r" "go_map_ok (delete_key k p)"
      "\<forall>k' e. lookup r k' = Some e \<or> lookup (delete_key k p) k' = Some e \<longrightarrow> InfoInstanceID e = k'"
      "n \<le> length r + length (delete_key k p)"
      using Suc.prems len by (auto simp: gm.ok_del gm.look_del split: if_splits)
    from Suc.IH [OF prems, of "ids @ [k]"] obtain ch' rs ps r' p' where
      IH: "pop_excesses n (ids @ [k]) ?t =
        (?t\<lparr>choices := ch', VKState := with_pools vk r' p'\<rparr>, Ret ((ids @ [k]) @ rs @ ps))"
        "without rs r r'" "without ps (delete_key k p) p'"
        "length rs = min n (length r)" "length rs + length ps = n"
      by blast
    have rs: "rs = []" using IH(4) True by simp
    have "pop_excesses (Suc n) ids s =
        (s\<lparr>choices := ch', VKState := with_pools vk r' p'\<rparr>, Ret (ids @ [] @ k # ps))"
      using step IH(1) rs by (simp add: andthen_run)
    moreover have "without [] r r'" "length ([] :: string list) = min (Suc n) (length r)"
      "length ([] :: string list) + length (k # ps) = Suc n"
      using IH(2,5) rs True by simp_all
    ultimately show ?thesis
      using without_Cons [OF Suc.prems(3) pop(2) IH(3)] by blast
  qed
qed

section \<open>The depth check\<close>

text \<open>The counters after one batch of terminations.\<close>

definition count_batch :: "bool \<Rightarrow> (metric \<Rightarrow> nat) \<Rightarrow> metric \<Rightarrow> nat" where
  "count_batch failed c =
     (let c = (if failed then c(WarmEC2TerminationErrors := Suc (c WarmEC2TerminationErrors)) else c)
      in c(WarmEC2Terminated := Suc (c WarmEC2Terminated)))"

lemma count_batch_metrics [simp]:
  "count_batch b c WarmEC2Launched = c WarmEC2Launched"
  "count_batch b c WarmEC2LaunchErrors = c WarmEC2LaunchErrors"
  "count_batch b c WarmEC2Terminated = Suc (c WarmEC2Terminated)"
  by (simp_all add: count_batch_def Let_def)

lemma CheckWarmPoolDepth_shrink_run:
  fixes s :: "('w, 'z) warm_scheme"
  assumes "vk_ok (VKState s)" and "vk_keyed (VKState s)" and "0 \<le> DesiredCount wpc"
    and "DesiredCount wpc < int (warm_count (VKState s))"
  shows "\<exists>ch rs ps r p. CheckWarmPoolDepth sdk wpm wpc s =
      (s\<lparr>choices := ch, VKState := with_pools (VKState s) r p,
         world := snd (svc_TerminateInstances (Svc (wpm_ec2Client wpm)) (rs @ ps) (world s)),
         counters := count_batch (isl (fst (svc_TerminateInstances (Svc (wpm_ec2Client wpm)) (rs @ ps)
           (world s)))) (counters s)\<rparr>, Ret ()) \<and>
    without rs (entries (ReadyEC2 (VKState s))) r \<and>
    without ps (entries (ProvisioningEC2 (VKState s))) p \<and>
    length rs = min (nat (int (warm_count (VKState s)) - DesiredCount wpc))
      (length (entries (ReadyEC2 (VKState s)))) \<and>
    int (length rs + length ps) = int (warm_count (VKState s)) - DesiredCount wpc"
proof -
  let ?vk = "VKState s"
  let ?n = "nat (int (warm_count ?vk) - DesiredCount wpc)"
  have keyed: "\<forall>k e. lookup (entries (ReadyEC2 ?vk)) k = Some e \<or>
      lookup (entries (ProvisioningEC2 ?vk)) k = Some e \<longrightarrow> InfoInstanceID e = k"
    using assms(2) unfolding vk_keyed_def by (metis pool_map.simps(1,2))
  have "?n \<le> length (entries (ReadyEC2 ?vk)) + length (entries (ProvisioningEC2 ?vk))"
    using assms(3) by (simp add: warm_count_def)
  from pop_excesses_run [OF vk_ok_split [OF assms(1)] keyed this, of "[]"] obtain ch rs ps r p where
    run: "pop_excesses ?n [] s = (s\<lparr>choices := ch, VKState := with_pools ?vk r p\<rparr>, Ret (rs @ ps))"
    and w: "without rs (entries (ReadyEC2 ?vk)) r" "without ps (entries (ProvisioningEC2 ?vk)) p"
      "length rs = min ?n (length (entries (ReadyEC2 ?vk)))" "length rs + length ps = ?n"
    by auto
  have "CheckWarmPoolDepth sdk wpm wpc s =
      (s\<lparr>choices := ch, VKState := with_pools ?vk r p,
         world := snd (svc_TerminateInstances (Svc (wpm_ec2Client wpm)) (rs @ ps) (world s)),
         counters := count_batch (isl (fst (svc_TerminateInstances (Svc (wpm_ec2Client wpm)) (rs @ ps)
           (world s)))) (counters s)\<rparr>, Ret ())"
    using assms(4) run
    by (simp add: CheckWarmPoolDepth_def gets_run andthen_run TerminateInstances_def call_run Inc_run
        ret_run count_batch_def Let_def split: sum.splits)
  moreover have "int (length rs + length ps) = int (warm_count ?vk) - DesiredCount wpc"
    using w(4) assms(4) by simp
  ultimately show ?thesis using w(1-3) by blast
qed

lemma warm_count_with_pools [simp]: "warm_count (with_pools vk r p) = length r + length p"
  by (simp add: warm_count_def with_pools_def)

lemma pool_ids_without:
  "without ks (entries (pool_map q vk)) m \<Longrightarrow> pool_map q vk' = Some m \<Longrightarrow>
   pool_ids q vk' = pool_ids q vk - set ks \<and> set ks \<subseteq> pool_ids q vk"
  by (auto simp: pool_ids_def without_def restrict_map_def dom_def split: if_splits)

lemma pool_ids_with_pools:
  assumes "without rs (entries (ReadyEC2 vk)) r" and "without ps (entries (ProvisioningEC2 vk)) p"
  shows "pool_ids InReady (with_pools vk r p) = pool_ids InReady vk - set rs \<and>
      set rs \<subseteq> pool_ids InReady vk"
    "pool_ids InProvisioning (with_pools vk r p) = pool_ids InProvisioning vk - set ps \<and>
      set ps \<subseteq> pool_ids InProvisioning vk"
  using pool_ids_without [of rs InReady vk r "with_pools vk r p"] assms
    pool_ids_without [of ps InProvisioning vk p "with_pools vk r p"]
  by (simp_all add: with_pools_def)

lemma vk_keyed_with_pools:
  assumes "vk_keyed vk" and "without rs (entries (ReadyEC2 vk)) r"
    and "without ps (entries (ProvisioningEC2 vk)) p"
  shows "vk_keyed (with_pools vk r p)"
  unfolding vk_keyed_def
proof (intro allI impI)
  fix q k e
  assume l: "lookup (entries (pool_map q (with_pools vk r p))) k = Some e"
  have "lookup (entries (pool_map q vk)) k = Some e"
    using l assms(2,3)
    by (cases q) (auto simp: with_pools_def without_def restrict_map_def split: if_splits)
  then show "InfoInstanceID e = k" using assms(1) by (auto simp: vk_keyed_def)
qed

text \<open>
  Every outcome of a depth check: the shortage is tried, launch by launch, the excess is removed, and the
  process ends only when the SDK configuration does not load.
\<close>

lemma depth_outcome:
  fixes s :: "('w, 'z) warm_scheme"
  assumes "ec2_answers sdk (wpm_ec2Client wpm) P" and "pool_inv cfg P S s" and "Subnets wpc \<noteq> []"
    and "0 \<le> DesiredCount wpc"
  shows "\<exists>t S' a b x. CheckWarmPoolDepth sdk wpm wpc s = (t, x) \<and> pool_step s t \<and>
    pool_inv cfg P S' t \<and>
    counters t WarmEC2Launched = counters s WarmEC2Launched + a \<and>
    counters t WarmEC2LaunchErrors = counters s WarmEC2LaunchErrors + b \<and>
    (int (warm_count (VKState s)) \<le> DesiredCount wpc \<longrightarrow> ReadyEC2 (VKState t) = ReadyEC2 (VKState s)) \<and>
    (case x of
       Crash c \<Rightarrow> int (warm_count (VKState s)) < DesiredCount wpc \<and> config_load_fatal sdk cfg c
     | Ret _ \<Rightarrow> a + b = nat (DesiredCount wpc - int (warm_count (VKState s))) \<and>
         int (warm_count (VKState t)) = DesiredCount wpc - int b)"
proof (cases "DesiredCount wpc < int (warm_count (VKState s))")
  case True
  have inv: "config s = Some cfg" "vk_ok (VKState s)" "vk_keyed (VKState s)" "P (world s) S"
      "pool_ids InProvisioning (VKState s) \<subseteq> S"
    using assms(2) by (simp_all add: pool_inv_def)
  from CheckWarmPoolDepth_shrink_run [OF inv(2,3) assms(4) True] obtain ch rs ps r p where
    run: "CheckWarmPoolDepth sdk wpm wpc s =
      (s\<lparr>choices := ch, VKState := with_pools (VKState s) r p,
         world := snd (svc_TerminateInstances (Svc (wpm_ec2Client wpm)) (rs @ ps) (world s)),
         counters := count_batch (isl (fst (svc_TerminateInstances (Svc (wpm_ec2Client wpm)) (rs @ ps)
           (world s)))) (counters s)\<rparr>, Ret ())" (is "_ = (?t, _)")
    and wo: "without rs (entries (ReadyEC2 (VKState s))) r"
      "without ps (entries (ProvisioningEC2 (VKState s))) p"
    and len: "int (length rs + length ps) = int (warm_count (VKState s)) - DesiredCount wpc"
    by blast
  have "int (length r + length p) = DesiredCount wpc"
    using wo len by (simp add: without_def warm_count_def)
  moreover have "P (world ?t) S" using assms(1) inv(4) by (simp add: ec2_answers_def)
  then have "pool_inv cfg P S ?t"
    using inv wo vk_keyed_with_pools [OF inv(3) wo] pool_ids_with_pools [OF wo]
    by (auto simp: pool_inv_def vk_ok_with_pools go_map_ok_without)
  moreover have "pool_step s ?t" by (rule pool_stepI')
  ultimately show ?thesis using run True
    by (intro exI [of _ ?t] exI [of _ S] exI [of _ 0] exI [of _ "Ret ()"]) simp
next
  case False
  let ?n = "nat (DesiredCount wpc - int (warm_count (VKState s)))"
  from createWarmEC2_repeated [OF assms(1-3), of ?n] obtain t S' a b x where
    t: "repeat_n ?n (andthen (createWarmEC2 sdk wpm wpc) (\<lambda>_. ret ())) s = (t, x)" "pool_step s t"
      "pool_inv cfg P S' t" "ReadyEC2 (VKState t) = ReadyEC2 (VKState s)"
      "counters t = count_tries a b (counters s)"
      "warm_count (VKState t) = a + warm_count (VKState s)"
      "case x of Crash c \<Rightarrow> 0 < ?n \<and> config_load_fatal sdk cfg c | Ret _ \<Rightarrow> a + b = ?n"
    by blast
  have "CheckWarmPoolDepth sdk wpm wpc s = (t, x)"
    using t(1) False by (cases "DesiredCount wpc = int (warm_count (VKState s))")
      (simp_all add: CheckWarmPoolDepth_def gets_run andthen_run [of "gets _"] ret_run)
  with t False show ?thesis
    by (intro exI [of _ t] exI [of _ S'] exI [of _ a] exI [of _ b] exI [of _ x])
      (auto split: outcome.splits)
qed

text \<open>
  C9: a depth check brings the pool to its size, as far as EC2 lets it: afterwards the ready and
  provisioning instances together are \<open>DesiredCount\<close> less the launches that failed, each of them counted
  in \<open>WarmEC2LaunchErrors\<close>; a pool that was too big is cut to exactly \<open>DesiredCount\<close>, one that was too
  small gets one launch attempt per missing instance, keeps its ready ones, and is not retried before the
  next check.  The state stays well formed, only the pool's own fields change, and the check ends
  the process only when it has to launch and the SDK configuration does not load.
\<close>

theorem CheckWarmPoolDepth_reaches_target:
  fixes s :: "('w, 'z) warm_scheme"
  assumes "ec2_answers sdk (wpm_ec2Client wpm) P" and "pool_inv cfg P S s" and "Subnets wpc \<noteq> []"
    and "0 \<le> DesiredCount wpc"
  shows "\<exists>t x launched failed. CheckWarmPoolDepth sdk wpm wpc s = (t, x) \<and> pool_step s t \<and>
    vk_ok (VKState t) \<and> vk_keyed (VKState t) \<and>
    counters t WarmEC2Launched = counters s WarmEC2Launched + launched \<and>
    counters t WarmEC2LaunchErrors = counters s WarmEC2LaunchErrors + failed \<and>
    (int (warm_count (VKState s)) \<le> DesiredCount wpc \<longrightarrow> ReadyEC2 (VKState t) = ReadyEC2 (VKState s)) \<and>
    (case x of
       Crash c \<Rightarrow> int (warm_count (VKState s)) < DesiredCount wpc \<and> config_load_fatal sdk cfg c
     | Ret _ \<Rightarrow> launched + failed = nat (DesiredCount wpc - int (warm_count (VKState s))) \<and>
         int (warm_count (VKState t)) = DesiredCount wpc - int failed)"
  using depth_outcome [OF assms] unfolding pool_inv_def by (elim exE conjE) (intro exI conjI)

text \<open>
  C19: what a depth check removes: exactly the excess, ready instances first and provisioning ones
  only when no ready one is left, each of them taken out of its map and named in the one
  \<open>TerminateInstances\<close> call; the call's failure changes nothing about that, so the pool forgets
  instances that still run, and the terminated counter goes up by one either way.
\<close>

theorem CheckWarmPoolDepth_removes_excess:
  fixes s :: "('w, 'z) warm_scheme"
  assumes "vk_ok (VKState s)" and "vk_keyed (VKState s)" and "0 \<le> DesiredCount wpc"
    and "DesiredCount wpc < int (warm_count (VKState s))"
  shows "\<exists>t rs ps. CheckWarmPoolDepth sdk wpm wpc s = (t, Ret ()) \<and>
    int (length (rs @ ps)) = int (warm_count (VKState s)) - DesiredCount wpc \<and>
    world t = snd (svc_TerminateInstances (Svc (wpm_ec2Client wpm)) (rs @ ps) (world s)) \<and>
    set rs \<subseteq> pool_ids InReady (VKState s) \<and> set ps \<subseteq> pool_ids InProvisioning (VKState s) \<and>
    pool_ids InReady (VKState t) = pool_ids InReady (VKState s) - set rs \<and>
    pool_ids InProvisioning (VKState t) = pool_ids InProvisioning (VKState s) - set ps \<and>
    (ps \<noteq> [] \<longrightarrow> pool_ids InReady (VKState t) = {}) \<and>
    counters t WarmEC2Terminated = Suc (counters s WarmEC2Terminated)"
proof -
  from CheckWarmPoolDepth_shrink_run [OF assms] obtain ch rs ps r p where
    run: "CheckWarmPoolDepth sdk wpm wpc s =
      (s\<lparr>choices := ch, VKState := with_pools (VKState s) r p,
         world := snd (svc_TerminateInstances (Svc (wpm_ec2Client wpm)) (rs @ ps) (world s)),
         counters := count_batch (isl (fst (svc_TerminateInstances (Svc (wpm_ec2Client wpm)) (rs @ ps)
           (world s)))) (counters s)\<rparr>, Ret ())" (is "_ = (?t, _)")
    and wo: "without rs (entries (ReadyEC2 (VKState s))) r"
      "without ps (entries (ProvisioningEC2 (VKState s))) p"
    and len: "length rs = min (nat (int (warm_count (VKState s)) - DesiredCount wpc))
      (length (entries (ReadyEC2 (VKState s))))"
      "int (length rs + length ps) = int (warm_count (VKState s)) - DesiredCount wpc"
    by blast
  note ids = pool_ids_with_pools [OF wo]
  have "pool_ids InReady (with_pools (VKState s) r p) = {}" if "ps \<noteq> []"
  proof -
    have "length rs = length (entries (ReadyEC2 (VKState s)))"
      using len that by (cases ps) auto
    then have "r = []" using wo(1) by (simp add: without_def)
    then show ?thesis by (auto simp: pool_ids_def with_pools_def lookup_def)
  qed
  with run ids len(2) show ?thesis
    by (intro exI [of _ ?t] exI [of _ rs] exI [of _ ps]) (simp add: count_batch_def Let_def)
qed

text \<open>One tick over two pools, from any well-formed state.\<close>

lemma two_pools_tick:
  fixes s :: "('w, 'z) warm_scheme"
  assumes "ec2_answers sdk (wpm_ec2Client wpm) P" and "pool_inv cfg P S s" and "wpm_config wpm = [A, B]"
    and "Subnets A \<noteq> []" and "Subnets B \<noteq> []" and "0 \<le> DesiredCount A" and "0 \<le> DesiredCount B"
  shows "\<exists>t S' x. depth_tick sdk wpm s = (t, x) \<and> pool_inv cfg P S' t \<and>
    (case x of Crash c \<Rightarrow> config_load_fatal sdk cfg c | Ret _ \<Rightarrow>
       int (warm_count (VKState t)) \<le> DesiredCount B \<and>
       (min (DesiredCount A) (DesiredCount B) \<le> int (warm_count (VKState s)) \<and>
        int (warm_count (VKState s)) \<le> DesiredCount B \<longrightarrow>
          min (DesiredCount A) (DesiredCount B) \<le> int (warm_count (VKState t)) \<and>
          counters t WarmEC2Launched + counters t WarmEC2LaunchErrors =
            counters s WarmEC2Launched + counters s WarmEC2LaunchErrors +
            nat \<bar>DesiredCount A - DesiredCount B\<bar>))"
proof -
  from depth_outcome [OF assms(1,2,4,6)] obtain t S' a b x where
    t: "CheckWarmPoolDepth sdk wpm A s = (t, x)" "pool_inv cfg P S' t"
      "counters t WarmEC2Launched = counters s WarmEC2Launched + a"
      "counters t WarmEC2LaunchErrors = counters s WarmEC2LaunchErrors + b"
      "case x of Crash c \<Rightarrow> int (warm_count (VKState s)) < DesiredCount A \<and> config_load_fatal sdk cfg c
       | Ret _ \<Rightarrow> a + b = nat (DesiredCount A - int (warm_count (VKState s))) \<and>
           int (warm_count (VKState t)) = DesiredCount A - int b"
    by blast
  from depth_outcome [OF assms(1) t(2) assms(5,7)] obtain u S'' a' b' y where
    u: "CheckWarmPoolDepth sdk wpm B t = (u, y)" "pool_inv cfg P S'' u"
      "counters u WarmEC2Launched = counters t WarmEC2Launched + a'"
      "counters u WarmEC2LaunchErrors = counters t WarmEC2LaunchErrors + b'"
      "case y of Crash c \<Rightarrow> int (warm_count (VKState t)) < DesiredCount B \<and> config_load_fatal sdk cfg c
       | Ret _ \<Rightarrow> a' + b' = nat (DesiredCount B - int (warm_count (VKState t))) \<and>
           int (warm_count (VKState u)) = DesiredCount B - int b'"
    by blast
  have tick: "depth_tick sdk wpm s = (case x of Crash c \<Rightarrow> (t, Crash c) | Ret _ \<Rightarrow> (u, y))"
    using t(1) u(1) assms(3)
    by (simp add: depth_tick_def andthen_run ret_run split: outcome.splits)
  show ?thesis
  proof (cases x)
    case (Crash c)
    with tick t show ?thesis by (intro exI [of _ t] exI [of _ S'] exI [of _ "Crash c"]) simp
  next
    case x: (Ret r)
    show ?thesis
    proof (cases y)
      case (Crash c)
      with tick x u show ?thesis by (intro exI [of _ u] exI [of _ S''] exI [of _ "Crash c"]) simp
    next
      case (Ret r')
      have "a + b = nat (DesiredCount A - int (warm_count (VKState s)))"
        "int (warm_count (VKState t)) = DesiredCount A - int b"
        "a' + b' = nat (DesiredCount B - int (warm_count (VKState t)))"
        "int (warm_count (VKState u)) = DesiredCount B - int b'"
        using t(5) u(5) x Ret by simp_all
      then show ?thesis using tick x Ret t(3,4) u(2-4)
        by (intro exI [of _ u] exI [of _ S''] exI [of _ "Ret r'"] conjI)
          (simp_all, linarith)
    qed
  qed
qed

lemma two_pools_ticks:
  fixes s :: "('w, 'z) warm_scheme"
  assumes "ec2_answers sdk (wpm_ec2Client wpm) P" and "pool_inv cfg P S s" and "wpm_config wpm = [A, B]"
    and "Subnets A \<noteq> []" and "Subnets B \<noteq> []" and "0 \<le> DesiredCount A" and "0 \<le> DesiredCount B"
  shows "\<exists>t S' x. repeat_n n (depth_tick sdk wpm) s = (t, x) \<and> pool_inv cfg P S' t \<and>
    (case x of Crash c \<Rightarrow> config_load_fatal sdk cfg c | Ret _ \<Rightarrow>
       (0 < n \<longrightarrow> int (warm_count (VKState t)) \<le> DesiredCount B) \<and>
       (min (DesiredCount A) (DesiredCount B) \<le> int (warm_count (VKState s)) \<and>
        int (warm_count (VKState s)) \<le> DesiredCount B \<longrightarrow>
          counters t WarmEC2Launched + counters t WarmEC2LaunchErrors =
            counters s WarmEC2Launched + counters s WarmEC2LaunchErrors +
            n * nat \<bar>DesiredCount A - DesiredCount B\<bar>))"
  using assms(2)
proof (induction n arbitrary: s S)
  case 0
  then show ?case by (intro exI [of _ s] exI [of _ S] exI [of _ "Ret ()"]) (simp add: ret_run)
next
  case (Suc n)
  from two_pools_tick [OF assms(1) Suc.prems assms(3-7)] obtain t S' x where
    t: "depth_tick sdk wpm s = (t, x)" "pool_inv cfg P S' t" and
    x: "case x of Crash c \<Rightarrow> config_load_fatal sdk cfg c | Ret _ \<Rightarrow>
       int (warm_count (VKState t)) \<le> DesiredCount B \<and>
       (min (DesiredCount A) (DesiredCount B) \<le> int (warm_count (VKState s)) \<and>
        int (warm_count (VKState s)) \<le> DesiredCount B \<longrightarrow>
          min (DesiredCount A) (DesiredCount B) \<le> int (warm_count (VKState t)) \<and>
          counters t WarmEC2Launched + counters t WarmEC2LaunchErrors =
            counters s WarmEC2Launched + counters s WarmEC2LaunchErrors +
            nat \<bar>DesiredCount A - DesiredCount B\<bar>)" by blast
  show ?case
  proof (cases x)
    case (Crash c)
    with t x show ?thesis
      by (intro exI [of _ t] exI [of _ S'] exI [of _ "Crash c"]) (simp add: andthen_run)
  next
    case (Ret r)
    from Suc.IH [OF t(2)] obtain u S'' y where
      u: "repeat_n n (depth_tick sdk wpm) t = (u, y)" "pool_inv cfg P S'' u" and
      y: "case y of Crash c \<Rightarrow> config_load_fatal sdk cfg c | Ret _ \<Rightarrow>
         (0 < n \<longrightarrow> int (warm_count (VKState u)) \<le> DesiredCount B) \<and>
         (min (DesiredCount A) (DesiredCount B) \<le> int (warm_count (VKState t)) \<and>
          int (warm_count (VKState t)) \<le> DesiredCount B \<longrightarrow>
            counters u WarmEC2Launched + counters u WarmEC2LaunchErrors =
              counters t WarmEC2Launched + counters t WarmEC2LaunchErrors +
              n * nat \<bar>DesiredCount A - DesiredCount B\<bar>)" by blast
    have run: "repeat_n (Suc n) (depth_tick sdk wpm) s = (u, y)"
      using t(1) Ret u(1) by (simp add: andthen_run)
    have "n = 0 \<Longrightarrow> u = t" using u(1) by (simp add: ret_run)
    then show ?thesis using run u(2) x y Ret
      by (intro exI [of _ u] exI [of _ S''] exI [of _ y]) (cases y; cases "n = 0"; auto)
  qed
qed

text \<open>
  C38: two warm pools do not give two pools: every configuration is checked against the same two maps, so
  after any number of ticks the ready and provisioning instances are at most the \<open>DesiredCount\<close> of the
  last pool and never the two together.  From a pool that holds at least the smaller size and at most the
  last one, as every tick without failing launches leaves it, each tick launches again as many
  instances as the sizes differ by (failed launches count as attempts), for ever: a first pool smaller
  than what is there cuts it to its own size at once, without asking whose instances they are.
\<close>

theorem depth_tick_thrashes:
  fixes s :: "('w, 'z) warm_scheme"
  assumes "ec2_answers sdk (wpm_ec2Client wpm) P" and "pool_inv cfg P S s" and "wpm_config wpm = [A, B]"
    and "Subnets A \<noteq> []" and "Subnets B \<noteq> []" and "0 < DesiredCount A" and "0 < DesiredCount B"
  shows "\<exists>t x. repeat_n n (depth_tick sdk wpm) s = (t, x) \<and>
    (case x of Crash c \<Rightarrow> config_load_fatal sdk cfg c | Ret _ \<Rightarrow>
       (0 < n \<longrightarrow> int (warm_count (VKState t)) \<le> DesiredCount B \<and>
          int (warm_count (VKState t)) < DesiredCount A + DesiredCount B) \<and>
       (min (DesiredCount A) (DesiredCount B) \<le> int (warm_count (VKState s)) \<and>
        int (warm_count (VKState s)) \<le> DesiredCount B \<longrightarrow>
          counters t WarmEC2Launched + counters t WarmEC2LaunchErrors =
            counters s WarmEC2Launched + counters s WarmEC2LaunchErrors +
            n * nat \<bar>DesiredCount A - DesiredCount B\<bar>)) \<and>
    (DesiredCount A < int (warm_count (VKState s)) \<longrightarrow>
       (\<exists>u. CheckWarmPoolDepth sdk wpm A s = (u, Ret ()) \<and> int (warm_count (VKState u)) = DesiredCount A))"
proof -
  have pos: "0 \<le> DesiredCount A" "0 \<le> DesiredCount B" using assms(6,7) by simp_all
  have "\<exists>u. CheckWarmPoolDepth sdk wpm A s = (u, Ret ()) \<and> int (warm_count (VKState u)) = DesiredCount A"
    if "DesiredCount A < int (warm_count (VKState s))"
    using depth_outcome [OF assms(1,2,4) pos(1)] that by (fastforce split: outcome.splits)
  with two_pools_ticks [OF assms(1-5) pos, of n] assms(6) show ?thesis
    by (fastforce split: outcome.splits)
qed

text \<open>
  A failing \<open>DescribeInstances\<close> empties the pool: the maps are cleared before the call, so after an
  error every instance is forgotten, ready ones included, and a pod finds no instance although EC2
  still runs them; the next depth check launches \<open>DesiredCount\<close> new ones.
\<close>

theorem refresh_error_forgets_pool:
  fixes s :: "('w, 'z) warm_scheme"
  assumes "config s = Some cfg"
    and "svc_DescribeInstances (Svc (wpm_ec2Client wpm)) (refresh_input s cfg) (world s) = (Inl err, w)"
  shows "GetWarmPoolInstanceIfExist wpm s =
      (s\<lparr>world := w, VKState := empty_vk_state\<rparr>, Ret ([], [], False)) \<and>
    (\<forall>p. pool_ids p empty_vk_state = {})"
proof -
  have "pool_ids p empty_vk_state = {}" for p
    by (cases p) (auto simp: pool_ids_def empty_vk_state_def gm.look_empty)
  moreover have "entries (ReadyEC2 empty_vk_state) = []"
    by (simp add: empty_vk_state_def make_map_def)
  ultimately show ?thesis
    using RefreshWarmPoolFromEC2_error [OF assms]
    by (simp add: GetWarmPoolInstanceIfExist_def andthen_run gets_run ret_run)
qed

section \<open>Allocation\<close>

text \<open>
  C39: two pods can get the same instance: taking an instance refreshes the maps from EC2's tags first,
  and the tag that marks the instance as taken is only written afterwards, by the caller; so when EC2
  describes one ready instance, a second take before that write returns the same instance again.
\<close>

theorem GetWarmPoolInstanceIfExist_twice:
  fixes s :: "('w, 'z) warm_scheme"
  assumes "config s = Some cfg" and "tagging_works (wpm_ec2Client wpm)"
    and "svc_DescribeInstances (Svc (wpm_ec2Client wpm)) (refresh_input s cfg) (world s) =
      (Inr \<lparr>Reservations = [[i]], NextToken = None\<rparr>, world s)"
    and "complete i" and "status_of i = Some operationReady"
  shows "\<exists>t u ip. GetWarmPoolInstanceIfExist wpm s = (t, Ret (the (InstanceId i), ip, True)) \<and>
    GetWarmPoolInstanceIfExist wpm t = (u, Ret (the (InstanceId i), ip, True)) \<and>
    world u = world s"
proof -
  obtain iid ip where f: "InstanceId i = Some iid" "PrivateIpAddress i = Some ip"
    using assms(4) by (auto simp: complete_def)
  have ready: "classify i = Some InReady"
    using assms(5) by (simp add: classify_def operations)
  let ?vk = "empty_vk_state\<lparr>ReadyEC2 := Some [(iid, fresh_info iid ip)]\<rparr>"
  have vk: "add_instance i empty_vk_state = ?vk"
    using f ready by (simp add: add_instance_def empty_vk_state_def make_map_def assign_def)
  have load: "load_instance wpm i x = (x\<lparr>VKState := ?vk\<rparr>, Ret ())"
    if x: "config x = Some cfg" "VKState x = empty_vk_state" for x :: "('w, 'z) warm_scheme"
  proof -
    obtain t where t: "find (\<lambda>t. TagKey t = Some status_key) (InstanceTags i) = Some t"
        "TagValue t = Some operationReady"
      using assms(5) by (auto simp: status_of_def split: option.splits)
    then obtain xs ys where ts: "InstanceTags i = xs @ t # ys" and key: "TagKey t = Some status_key"
      by (metis (mono_tags, lifting) find_Some_iff id_take_nth_drop)
    have others: "\<exists>k. TagKey v = Some k \<and> k \<noteq> status_key" if v: "v \<in> set xs \<union> set ys" for v
    proof -
      have "TagKey v \<noteq> None" "TagKey v \<noteq> Some status_key"
        using assms(4) v ts key by (auto simp: complete_def list_all_iff image_iff)
      then show ?thesis by auto
    qed
    have skip: "for_each (load_tag wpm i) us s' = (s', Ret ())" if "set us \<subseteq> set xs \<union> set ys"
      for us and s' :: "('w, 'z) warm_scheme"
      using others that by (intro for_each_same) (metis load_other_tag subsetD)
    have "load_tag wpm i t x = (x\<lparr>VKState := ?vk\<rparr>, Ret ())"
      using f x t(2) key
      by (simp add: load_tag_def status_key_def operations with_info_def put_runs vk_ok_empty)
        (simp add: empty_vk_state_def make_map_def assign_def)
    then show ?thesis
      unfolding load_instance_def ts for_each_append by (simp add: andthen_run skip)
  qed
  have take: "GetWarmPoolInstanceIfExist wpm x =
      (x\<lparr>choices := tl (choices x), VKState := empty_vk_state\<rparr>, Ret (iid, ip, True))"
    if x: "config x = Some cfg" "world x = world s" "nodeName x = nodeName s"
    for x :: "('w, 'z) warm_scheme"
  proof -
    have d: "svc_DescribeInstances (Svc (wpm_ec2Client wpm)) (refresh_input x cfg) (world x) =
        (Inr \<lparr>Reservations = [[i]], NextToken = None\<rparr>, world x)"
      using assms(3) x by (simp add: refresh_input_def)
    have same: "x\<lparr>VKState := v, world := world x\<rparr> = x\<lparr>VKState := v\<rparr>" for v by simp
    have "RefreshWarmPoolFromEC2 wpm x = (x\<lparr>VKState := ?vk\<rparr>, Ret ())"
      using x(1) d load [of "x\<lparr>VKState := empty_vk_state\<rparr>"]
      by (simp add: RefreshWarmPoolFromEC2_def checkEC2TagsForState_def refresh_input_def Config_run
          andthen_run gets_run modify_run DescribeInstances_def call_run no_input_def again_def ret_run)
    moreover have "pop [(iid, fresh_info iid ip)] y =
        (y\<lparr>choices := tl (choices y)\<rparr>, Ret (fresh_info iid ip, []))" for y :: "('w, 'z) warm_scheme"
      by (simp add: pop_def popKey_def andthen_run next_choice_run index_def ret_run range_map_def
          lookup_def delete_key_def Let_def)
    ultimately show ?thesis
      by (simp add: GetWarmPoolInstanceIfExist_def andthen_run gets_run modify_run ret_run fresh_info_def
          empty_vk_state_def make_map_def)
  qed
  show ?thesis
    using take [OF assms(1) refl refl] take [of "s\<lparr>choices := tl (choices s), VKState := empty_vk_state\<rparr>"]
      assms(1) f
    by (intro exI conjI) (assumption | simp)+
qed

text \<open>
  A pool without subnets is silently filled with nothing: nothing is launched, yet without an error,
  so an instance with an empty id enters the provisioning map and counts towards the pool's depth.
\<close>

theorem createWarmEC2_without_subnets:
  fixes s :: "('w, 'z) warm_scheme"
  assumes "config s = Some cfg" and "vk_ok (VKState s)" and "Subnets wpc = []"
    and "sdk_loads sdk cfg (world s) w1"
    and "PresignGetObject_op sdk (http_settings cfg)
      (S3Bucket (BootstrapConf cfg), S3Key (BootstrapConf cfg)) w1 = (Inr url, w2)"
  shows "\<exists>t. createWarmEC2 sdk wpm wpc s = (t, Ret None) \<and> world t = w2 \<and>
    pool_ids InProvisioning (VKState t) = insert [] (pool_ids InProvisioning (VKState s)) \<and>
    counters t = counters s"
proof -
  obtain spec where tags: "populateEC2Tags initialSetup empty_pod s = (s, Ret [spec])"
    using populateEC2Tags_run [OF assms(1)] by blast
  let ?info = "\<lparr>InfoInstanceID = [], PrivateIP = [], IAMProfile = [], InfoSecurityGroups = [[]],
      RetryCount = 0\<rparr>"
  have "CreateWarmEC2 sdk wpm wpc [spec] s = (s\<lparr>world := w2\<rparr>, Ret (([], [], [], [[]]), None))"
    using assms(1,3) GenerateVKVMUserData_run [OF assms(1,4,5)]
    by (simp add: CreateWarmEC2_def andthen_Config andthen_run [of "GenerateVKVMUserData _ _ _ _ _"] ret_run)
  then have "createWarmEC2 sdk wpm wpc s =
      (s\<lparr>world := w2, VKState := put_pool InProvisioning [] ?info (VKState s)\<rparr>, Ret None)"
    using assms(2) tags by (simp add: createWarmEC2_def andthen_run put_runs ret_run)
  then show ?thesis
    using assms(2) by (simp add: pool_ids_put_pool del: put_pool.simps)
qed

section \<open>The hypotheses on a concrete cloud\<close>

definition cloud_ids :: "cloud \<Rightarrow> string set \<Rightarrow> bool" where
  "cloud_ids w S \<longleftrightarrow> (\<forall>n \<ge> next_vm w. ''i-'' @ replicate n (CHR ''1'') \<notin> S)"

lemma cloud_answers: "ec2_answers cloud_sdk (the_client cloud_sdk cfg) cloud_ids"
  unfolding ec2_answers_def
proof (intro allI impI conjI)
  fix w S ids input assume P: "cloud_ids w S"
  show "cloud_ids (snd (LoadDefaultConfig cloud_sdk x w)) S" for x
    using P by simp
  show "cloud_ids (snd (PresignGetObject_op cloud_sdk x bk w)) S" for x bk
    using P by simp
  show "cloud_ids (snd (svc_TerminateInstances (Svc (the_client cloud_sdk cfg)) ids w)) S"
    using P by (simp add: cloud_terminate_def cloud_ids_def)
  show "run_answer cloud_ids S (svc_RunInstances (Svc (the_client cloud_sdk cfg)) input w)"
    using P by (auto simp: run_answer_def cloud_run_def Let_def launched_ok_def cloud_ids_def list_all_iff)
qed

text \<open>The same account with a quota: there are never more than three machines.\<close>

definition full_client :: "cloud Client" where
  "full_client = \<lparr>Svc = cloud_service\<lparr>svc_RunInstances := (\<lambda>input w. if next_vm w < 4 then cloud_run input w
      else (Inl (ErrorString ''VcpuLimitExceeded''), w))\<rparr>,
     WaiterSvc = \<lparr>MaxDelay = 0, MinDelay = 0\<rparr>\<rparr>"

lemma full_answers: "ec2_answers cloud_sdk full_client cloud_ids"
  using cloud_answers [of sample_config]
  unfolding ec2_answers_def full_client_def
  by (auto simp: run_answer_def)

lemma cloud_never_fatal: "\<not> config_load_fatal cloud_sdk cfg c"
  by (simp add: config_load_fatal_def)

lemma cloud_tagging: "tagging_works (the_client cloud_sdk cfg)"
  by (simp add: tagging_works_def cloud_tag_def)

definition sample_wpm :: "WarmPoolConfig list \<Rightarrow> cloud WarmPoolManager" where
  "sample_wpm pools = \<lparr>wpm_config = pools, wpm_ec2Client = the_client cloud_sdk sample_config\<rparr>"

definition sample_pool :: "int \<Rightarrow> WarmPoolConfig" where
  "sample_pool n = \<lparr>DesiredCount = n, IamInstanceProfile = [], SecurityGroups = [], KeyPair = [],
     ImageID = ''ami-1'', InstanceType = ''m5.large'', Subnets = [''subnet-1'']\<rparr>"

definition sample_warm :: "cloud \<Rightarrow> vk_state \<Rightarrow> cloud warm" where
  "sample_warm w vk = \<lparr>world = w, config = Some sample_config, counters = (\<lambda>_. 0), choices = [],
     clock = 5, pods_at = [0 \<mapsto> sample_pod], notified = [], utilsNotifier = Some 9,
     monitors_at = Map.empty, handlers_at = Map.empty, podmons_at = Map.empty, cancelled_ctxs = [],
     fresh_ref = 3, VKState = vk, nodeName = []\<rparr>"

lemma sample_warm_fields [simp]:
  "config (sample_warm w vk) = Some sample_config" "world (sample_warm w vk) = w"
  "VKState (sample_warm w vk) = vk" "nodeName (sample_warm w vk) = []"
  "counters (sample_warm w vk) = (\<lambda>_. 0)"
  by (simp_all add: sample_warm_def)

lemma sample_cluster: "ClusterName sample_config = ''aws-virtual-kubelet''"
  by (simp add: sample_config_def empty_config_def set_defaults_def default_to_def)

definition ready_vm :: ec2_instance where
  "ready_vm = sample_vm ''i-7'' ''running'' operationReady"

definition ready_cloud :: cloud where
  "ready_cloud = empty_cloud\<lparr>vms := [ready_vm]\<rparr>"

lemma describe_ready:
  "svc_DescribeInstances (Svc (wpm_ec2Client (sample_wpm pools)))
     (refresh_input (sample_warm ready_cloud vk) sample_config) ready_cloud =
   (Inr \<lparr>Reservations = [[ready_vm]], NextToken = None\<rparr>, ready_cloud)"
  by (simp add: sample_wpm_def cloud_describe_def refresh_input_def no_input_def ready_cloud_def ready_vm_def
      refresh_filters_def Filter_def vm_matches_def tag_matches_def sample_vm_def sample_cluster Let_def)

lemma ready_vm_facts: "complete ready_vm" "status_of ready_vm = Some operationReady"
  "InstanceId ready_vm = Some ''i-7''" "classify ready_vm = Some InReady"
  by (simp_all add: ready_vm_def sample_vm_def complete_def status_of_def status_key_def classify_def operations)

theorem refresh_rebuilds_state_witness:
  "\<exists>w' vk. RefreshWarmPoolFromEC2 (sample_wpm []) (sample_warm ready_cloud empty_vk_state) =
      (sample_warm ready_cloud empty_vk_state\<lparr>world := w', VKState := vk\<rparr>, Ret ()) \<and>
    pool_ids InReady vk = {''i-7''}"
proof -
  have "tagging_works (wpm_ec2Client (sample_wpm []))"
    by (simp add: sample_wpm_def cloud_tagging)
  from refresh_rebuilds_state [of "sample_warm ready_cloud empty_vk_state" sample_config "sample_wpm []",
      OF _ this, of "\<lparr>Reservations = [[ready_vm]], NextToken = None\<rparr>" ready_cloud]
  obtain w' vk where
    run: "RefreshWarmPoolFromEC2 (sample_wpm []) (sample_warm ready_cloud empty_vk_state) =
      (sample_warm ready_cloud empty_vk_state\<lparr>world := w', VKState := vk\<rparr>, Ret ())"
    and ids: "pool_ids InReady vk = {k. \<exists>i \<in> {ready_vm}. InstanceId i = Some k \<and> classify i = Some InReady}"
    using describe_ready [of "[]" empty_vk_state] ready_vm_facts(1) by auto
  have "pool_ids InReady vk = {''i-7''}"
    using ids ready_vm_facts(3,4) by simp
  with run show ?thesis by blast
qed

theorem GetWarmPoolInstanceIfExist_twice_witness:
  "\<exists>t u ip. GetWarmPoolInstanceIfExist (sample_wpm []) (sample_warm ready_cloud empty_vk_state) =
      (t, Ret (''i-7'', ip, True)) \<and>
    GetWarmPoolInstanceIfExist (sample_wpm []) t = (u, Ret (''i-7'', ip, True))"
proof -
  have "tagging_works (wpm_ec2Client (sample_wpm []))"
    by (simp add: sample_wpm_def cloud_tagging)
  from GetWarmPoolInstanceIfExist_twice [of "sample_warm ready_cloud empty_vk_state", OF _ this _
      ready_vm_facts(1,2)] describe_ready [of "[]" empty_vk_state] ready_vm_facts(3)
  show ?thesis by auto
qed

text \<open>A pool with two ready instances.\<close>

definition two_ready :: vk_state where
  "two_ready = with_pools empty_vk_state [(''a'', fresh_info ''a'' ''1''), (''b'', fresh_info ''b'' ''2'')] []"

lemma two_ready_facts: "vk_ok two_ready" "vk_keyed two_ready" "warm_count two_ready = 2"
  "pool_ids InProvisioning two_ready = {}"
proof -
  show "vk_ok two_ready"
    unfolding two_ready_def by (rule vk_ok_with_pools) (simp_all add: vk_ok_empty go_map_ok_def)
  show "vk_keyed two_ready"
    unfolding vk_keyed_def
  proof (intro allI impI)
    fix p k e assume "lookup (entries (pool_map p two_ready)) k = Some e"
    then show "InfoInstanceID e = k"
      by (cases p) (auto simp: two_ready_def with_pools_def empty_vk_state_def make_map_def lookup_def
          fresh_info_def split: if_splits)
  qed
  show "warm_count two_ready = 2" by (simp add: two_ready_def)
  show "pool_ids InProvisioning two_ready = {}"
    by (auto simp: two_ready_def with_pools_def pool_ids_def lookup_def)
qed

lemma two_ready_inv: "pool_inv sample_config cloud_ids {} (sample_warm empty_cloud two_ready)"
  using two_ready_facts by (simp add: pool_inv_def cloud_ids_def)

theorem CheckWarmPoolDepth_reaches_target_witness:
  "\<exists>t failed. CheckWarmPoolDepth cloud_sdk \<lparr>wpm_config = [], wpm_ec2Client = full_client\<rparr> (sample_pool 9)
      (sample_warm empty_cloud two_ready) = (t, Ret ()) \<and>
    counters t WarmEC2Launched + failed = 7 \<and> counters t WarmEC2LaunchErrors = failed \<and>
    int (warm_count (VKState t)) = 9 - int failed"
  using CheckWarmPoolDepth_reaches_target [of cloud_sdk "\<lparr>wpm_config = [], wpm_ec2Client = full_client\<rparr>"
      cloud_ids, OF _ two_ready_inv, of "sample_pool 9"] full_answers cloud_never_fatal two_ready_facts(3)
  by (fastforce simp: sample_pool_def split: outcome.splits)

theorem CheckWarmPoolDepth_removes_excess_witness:
  "\<exists>t rs. CheckWarmPoolDepth cloud_sdk (sample_wpm []) (sample_pool 1)
      (sample_warm empty_cloud two_ready) = (t, Ret ()) \<and> length rs = Suc 0 \<and>
    pool_ids InReady (VKState t) = pool_ids InReady two_ready - set rs"
  using CheckWarmPoolDepth_removes_excess [of "sample_warm empty_cloud two_ready" "sample_pool 1" cloud_sdk
      "sample_wpm []"] two_ready_facts
  by (auto simp: sample_pool_def)

theorem depth_tick_thrashes_witness:
  "\<exists>u. repeat_n 5 (depth_tick cloud_sdk (sample_wpm [sample_pool 1, sample_pool 2]))
      (sample_warm empty_cloud two_ready) = (u, Ret ()) \<and> int (warm_count (VKState u)) \<le> 2 \<and>
    counters u WarmEC2Launched + counters u WarmEC2LaunchErrors = 5"
  using depth_tick_thrashes [of cloud_sdk "sample_wpm [sample_pool 1, sample_pool 2]" cloud_ids
      sample_config "{}" "sample_warm empty_cloud two_ready" "sample_pool 1" "sample_pool 2" 5]
    two_ready_inv two_ready_facts(3) cloud_answers [of sample_config] cloud_never_fatal
  by (fastforce simp: sample_wpm_def sample_pool_def split: outcome.splits)

theorem refresh_error_forgets_pool_witness:
  "let svc = cloud_service\<lparr>svc_DescribeInstances := (\<lambda>_ w. (Inl (ErrorString ''throttled''), w))\<rparr>;
       wpm = \<lparr>wpm_config = [], wpm_ec2Client = \<lparr>Svc = svc, WaiterSvc = \<lparr>MaxDelay = 0, MinDelay = 0\<rparr>\<rparr>\<rparr>
   in snd (GetWarmPoolInstanceIfExist wpm (sample_warm ready_cloud two_ready)) = Ret ([], [], False)"
  using refresh_error_forgets_pool [of "sample_warm ready_cloud two_ready" sample_config
      "\<lparr>wpm_config = [], wpm_ec2Client = \<lparr>Svc = cloud_service\<lparr>svc_DescribeInstances :=
         (\<lambda>_ w. (Inl (ErrorString ''throttled''), w))\<rparr>, WaiterSvc = \<lparr>MaxDelay = 0, MinDelay = 0\<rparr>\<rparr>\<rparr>"
      "ErrorString ''throttled''" ready_cloud]
  by (simp add: Let_def)

theorem createWarmEC2_without_subnets_witness:
  "\<exists>t. createWarmEC2 cloud_sdk (sample_wpm []) (sample_pool 3\<lparr>Subnets := []\<rparr>)
      (sample_warm empty_cloud two_ready) = (t, Ret None) \<and>
    pool_ids InProvisioning (VKState t) = {[]}"
  using createWarmEC2_without_subnets [of "sample_warm empty_cloud two_ready" sample_config
      "sample_pool 3\<lparr>Subnets := []\<rparr>" cloud_sdk empty_cloud _ empty_cloud "sample_wpm []"] two_ready_facts
  by auto

end
