(* ===== verification/Warm_Pool_Lock.thy ===== *)
theory Warm_Pool_Lock
  imports Main
begin

text \<open>
  The mutex of \<open>VKState\<close> (\<open>warmpool.go\<close>).  The two background loops of \<open>fillAndMaintain\<close> and every
  \<open>CreatePod\<close> use it concurrently; each is here the sequence of what it does to the mutex.  The mutex is
  a field of \<open>VKState\<close>, so the assignment \<open>VKState = State{}\<close> at the start of a refresh, which is outside
  any critical section, replaces it by an unlocked one.  Unlocking an unlocked mutex is a fatal error of
  Go's runtime, which no \<open>recover\<close> stops.
\<close>

datatype action = Reset | Lock | Body | Unlock

text \<open>\<open>CheckWarmPoolDepth\<close> and the \<open>RemoveFrom\<close> functions: \<open>Lock\<close>, the body, the deferred \<open>Unlock\<close>.\<close>

definition critical_section :: "action list" where
  "critical_section = [Lock, Body, Unlock]"

definition refresh_actions :: "action list" where
  "refresh_actions = Reset # critical_section"

text \<open>\<open>GetWarmPoolInstanceIfExist\<close> refreshes and then pops in a critical section of its own.\<close>

definition take_actions :: "action list" where
  "take_actions = refresh_actions @ critical_section"

record lock_state =
  locked :: bool
  fatal :: bool
  threads :: "action list list"

inductive lock_step :: "lock_state \<Rightarrow> lock_state \<Rightarrow> bool" where
  reset:
    "\<not> fatal s \<Longrightarrow> i < length (threads s) \<Longrightarrow> threads s ! i = Reset # rest \<Longrightarrow>
     lock_step s (s\<lparr>locked := False, threads := (threads s)[i := rest]\<rparr>)"
| lock:
    "\<not> fatal s \<Longrightarrow> i < length (threads s) \<Longrightarrow> threads s ! i = Lock # rest \<Longrightarrow> \<not> locked s \<Longrightarrow>
     lock_step s (s\<lparr>locked := True, threads := (threads s)[i := rest]\<rparr>)"
| body:
    "\<not> fatal s \<Longrightarrow> i < length (threads s) \<Longrightarrow> threads s ! i = Body # rest \<Longrightarrow>
     lock_step s (s\<lparr>threads := (threads s)[i := rest]\<rparr>)"
| unlock:
    "\<not> fatal s \<Longrightarrow> i < length (threads s) \<Longrightarrow> threads s ! i = Unlock # rest \<Longrightarrow>
     lock_step s (if locked s then s\<lparr>locked := False, threads := (threads s)[i := rest]\<rparr>
                  else s\<lparr>fatal := True\<rparr>)"

inductive lock_steps :: "lock_state \<Rightarrow> lock_state \<Rightarrow> bool" where
  lock_steps_refl: "lock_steps s s"
| lock_steps_step: "lock_steps s t \<Longrightarrow> lock_step t u \<Longrightarrow> lock_steps s u"

definition initial :: "action list list \<Rightarrow> lock_state" where
  "initial ts = \<lparr>locked = False, fatal = False, threads = ts\<rparr>"

text \<open>What is left of a thread that only has critical sections, \<open>inside\<close> one or not.\<close>

fun sections :: "bool \<Rightarrow> action list \<Rightarrow> bool" where
  "sections inside [] \<longleftrightarrow> \<not> inside"
| "sections inside (Lock # r) \<longleftrightarrow> \<not> inside \<and> sections True r"
| "sections inside (Unlock # r) \<longleftrightarrow> inside \<and> sections False r"
| "sections inside (Body # r) \<longleftrightarrow> inside \<and> sections inside r"
| "sections inside (Reset # r) \<longleftrightarrow> False"

text \<open>The number of threads about to run the body of a critical section.\<close>

definition in_body :: "lock_state \<Rightarrow> nat" where
  "in_body s = length (filter (\<lambda>t. case t of Body # _ \<Rightarrow> True | _ \<Rightarrow> False) (threads s))"

section \<open>Without resets\<close>

text \<open>The mutex is locked exactly when one thread, the holder, is inside a critical section.\<close>

definition lock_ok :: "lock_state \<Rightarrow> bool" where
  "lock_ok s \<longleftrightarrow> \<not> fatal s \<and> (\<exists>h. (locked s \<longleftrightarrow> h \<noteq> None) \<and>
     (\<forall>i < length (threads s). sections (h = Some i) (threads s ! i)))"

lemma lock_okI:
  "\<not> fatal s \<Longrightarrow> locked s \<longleftrightarrow> h \<noteq> None \<Longrightarrow>
   (\<And>i. i < length (threads s) \<Longrightarrow> sections (h = Some i) (threads s ! i)) \<Longrightarrow> lock_ok s"
  by (auto simp: lock_ok_def)

lemma lock_step_ok: "lock_step s t \<Longrightarrow> lock_ok s \<Longrightarrow> lock_ok t"
proof (induction rule: lock_step.induct)
  case (reset s i rest)
  then obtain h where "sections (h = Some i) (threads s ! i)" by (auto simp: lock_ok_def)
  with reset(3) show ?case by simp
next
  case (lock s i rest)
  then obtain h where h: "locked s \<longleftrightarrow> h \<noteq> None"
      "\<forall>i < length (threads s). sections (h = Some i) (threads s ! i)" by (auto simp: lock_ok_def)
  with lock have "h = None" by simp
  show ?case
  proof (rule lock_okI [where h = "Some i"])
    fix j assume "j < length (threads (s\<lparr>locked := True, threads := (threads s)[i := rest]\<rparr>))"
    with h(2) lock(2,3) \<open>h = None\<close>
    show "sections (Some i = Some j) (threads (s\<lparr>locked := True, threads := (threads s)[i := rest]\<rparr>) ! j)"
      by (cases "i = j") force+
  qed (use lock(1) in simp_all)
next
  case (body s i rest)
  then obtain h where h: "locked s \<longleftrightarrow> h \<noteq> None"
      "\<forall>i < length (threads s). sections (h = Some i) (threads s ! i)" by (auto simp: lock_ok_def)
  show ?case
  proof (rule lock_okI [where h = h])
    fix j assume "j < length (threads (s\<lparr>threads := (threads s)[i := rest]\<rparr>))"
    with h(2) body(2,3)
    show "sections (h = Some j) (threads (s\<lparr>threads := (threads s)[i := rest]\<rparr>) ! j)"
      by (cases "i = j") force+
  qed (use body(1) h(1) in simp_all)
next
  case (unlock s i rest)
  then obtain h where h: "locked s \<longleftrightarrow> h \<noteq> None"
      "\<forall>i < length (threads s). sections (h = Some i) (threads s ! i)" by (auto simp: lock_ok_def)
  with unlock(2,3) have hi: "h = Some i" by force
  with h(1) have "locked s" by simp
  have "lock_ok (s\<lparr>locked := False, threads := (threads s)[i := rest]\<rparr>)"
  proof (rule lock_okI [where h = None])
    fix j assume "j < length (threads (s\<lparr>locked := False, threads := (threads s)[i := rest]\<rparr>))"
    with h(2) unlock(2,3) hi
    show "sections (None = Some j) (threads (s\<lparr>locked := False, threads := (threads s)[i := rest]\<rparr>) ! j)"
      by (cases "i = j") force+
  qed (use unlock(1) in simp_all)
  with \<open>locked s\<close> show ?case by simp
qed

lemma lock_steps_ok: "lock_steps s t \<Longrightarrow> lock_ok s \<Longrightarrow> lock_ok t"
  by (induction rule: lock_steps.induct) (auto intro: lock_step_ok)

lemma initial_ok: "list_all (sections False) ts \<Longrightarrow> lock_ok (initial ts)"
  by (rule lock_okI [where h = None]) (simp_all add: initial_def list_all_length)

lemma lock_ok_in_body: "lock_ok s \<Longrightarrow> in_body s \<le> 1"
proof -
  assume "lock_ok s"
  then obtain h where h: "\<forall>i < length (threads s). sections (h = Some i) (threads s ! i)"
    by (auto simp: lock_ok_def)
  let ?P = "\<lambda>t. case t of Body # _ \<Rightarrow> True | _ \<Rightarrow> False"
  have "{i. i < length (threads s) \<and> ?P (threads s ! i)} \<subseteq> {i. h = Some i}"
  proof clarify
    fix i assume "i < length (threads s)" and b: "?P (threads s ! i)"
    with h have "sections (h = Some i) (threads s ! i)" by simp
    with b show "h = Some i" by (auto split: list.splits action.splits)
  qed
  then have "card {i. i < length (threads s) \<and> ?P (threads s ! i)} \<le> card {i. h = Some i}"
    by (intro card_mono) (cases h; auto)+
  also have "\<dots> \<le> 1" by (cases h) auto
  finally show ?thesis by (simp add: in_body_def length_filter_conv_card)
qed

text \<open>
  Among operations that only have critical sections the mutex works: any number of depth checks and
  removals, interleaved in any way, never end in the runtime's fatal error, and never two of them are in
  their critical sections at once.
\<close>

theorem critical_sections_exclude:
  assumes "lock_steps (initial (replicate n critical_section)) s"
  shows "\<not> fatal s \<and> in_body s \<le> 1"
proof -
  have "lock_ok (initial (replicate n critical_section))"
    by (rule initial_ok) (simp add: list_all_iff critical_section_def)
  from lock_steps_ok [OF assms this] have ok: "lock_ok s" .
  then have "\<not> fatal s" by (simp add: lock_ok_def)
  with lock_ok_in_body [OF ok] show ?thesis by simp
qed

theorem critical_sections_exclude_witness:
  "\<not> fatal (initial [critical_section, critical_section]) \<and>
   in_body (initial [critical_section, critical_section]) \<le> 1"
  using critical_sections_exclude [of 2, OF lock_steps_refl] by (simp add: numeral_2_eq_2)

section \<open>With resets\<close>

lemma lock_steps_cons: "lock_steps t u \<Longrightarrow> lock_step s t \<Longrightarrow> lock_steps s u"
  by (induction rule: lock_steps.induct) (blast intro: lock_steps_refl lock_steps_step)+

lemma lock_step_at:
  assumes "\<not> fatal s" and "i < length (threads s)" and "threads s ! i = a # rest"
    and "t = (case a of
        Reset \<Rightarrow> s\<lparr>locked := False, threads := (threads s)[i := rest]\<rparr>
      | Lock \<Rightarrow> s\<lparr>locked := True, threads := (threads s)[i := rest]\<rparr>
      | Body \<Rightarrow> s\<lparr>threads := (threads s)[i := rest]\<rparr>
      | Unlock \<Rightarrow> (if locked s then s\<lparr>locked := False, threads := (threads s)[i := rest]\<rparr>
                    else s\<lparr>fatal := True\<rparr>))"
    and "a = Lock \<longrightarrow> \<not> locked s"
  shows "lock_step s t"
  using assms lock_step.intros [of s i rest] by (cases a) simp_all

text \<open>
  C28: a refresh breaks the mutex: with one depth check and one refresh there is an interleaving in which
  both are in their critical sections at once, and from there one that ends in the fatal ``unlock of
  unlocked mutex'', which takes the whole provider down.
\<close>

theorem refresh_breaks_mutex:
  "\<exists>s t. lock_steps (initial [critical_section, refresh_actions]) s \<and> in_body s = 2 \<and>
    lock_steps s t \<and> fatal t"
proof -
  let ?st = "\<lambda>l f a b. \<lparr>locked = l, fatal = f, threads = [a, b]\<rparr>"
  let ?s = "?st True False [Body, Unlock] [Body, Unlock]"
  have "lock_step (initial [critical_section, refresh_actions])
      (?st True False [Body, Unlock] [Reset, Lock, Body, Unlock])"
    by (rule lock_step_at [where i = 0 and a = Lock and rest = "[Body, Unlock]"]) (simp_all add: initial_def critical_section_def refresh_actions_def)
  moreover have "lock_step (?st True False [Body, Unlock] [Reset, Lock, Body, Unlock])
      (?st False False [Body, Unlock] [Lock, Body, Unlock])"
    by (rule lock_step_at [where i = 1 and a = Reset and rest = "[Lock, Body, Unlock]"]) simp_all
  moreover have "lock_step (?st False False [Body, Unlock] [Lock, Body, Unlock]) ?s"
    by (rule lock_step_at [where i = 1 and a = Lock and rest = "[Body, Unlock]"]) simp_all
  ultimately have 1: "lock_steps (initial [critical_section, refresh_actions]) ?s"
    by (meson lock_steps_cons lock_steps_refl)
  have "lock_step ?s (?st True False [Unlock] [Body, Unlock])"
    by (rule lock_step_at [where i = 0 and a = Body and rest = "[Unlock]"]) simp_all
  moreover have "lock_step (?st True False [Unlock] [Body, Unlock]) (?st True False [Unlock] [Unlock])"
    by (rule lock_step_at [where i = 1 and a = Body and rest = "[Unlock]"]) simp_all
  moreover have "lock_step (?st True False [Unlock] [Unlock]) (?st False False [] [Unlock])"
    by (rule lock_step_at [where i = 0 and a = Unlock and rest = "[]"]) simp_all
  moreover have "lock_step (?st False False [] [Unlock]) (?st False True [] [Unlock])"
    by (rule lock_step_at [where i = 1 and a = Unlock and rest = "[]"]) simp_all
  ultimately have 2: "lock_steps ?s (?st False True [] [Unlock])"
    by (meson lock_steps_cons lock_steps_refl)
  have "in_body ?s = 2" by (simp add: in_body_def)
  with 1 2 show ?thesis by force
qed

end
