(* ===== verification/Pod_Cache.thy ===== *)
theory Pod_Cache
  imports Warm_Pool
begin

text \<open>
  \<open>internal/ec2provider/podcache.go\<close> and \<open>metapod.go\<close>.  A \<open>MetaPod\<close> is shared by pointer, so it lives in
  a heap; the provider's cache is a Go map from keys to such pointers, and is itself a pointer that is
  nil until the provider is given a cache.  The locale \<open>pod_store\<close> is what a client of the cache
  relies on.
\<close>

section \<open>Data\<close>

record MetaPod =
  mp_pod :: pod_ref
  mp_monitor :: "nat option"
  mp_notifier :: "nat option"

type_synonym pod_cache = "(string, nat) go_map"

record 'w prov = "'w warm" +
  metapods_at :: "nat \<Rightarrow> MetaPod option"
  pods :: "pod_cache option"
  podNotifier :: "nat option"

definition load_metapod :: "nat \<Rightarrow> (('w, 'z) prov_scheme, MetaPod) go" where
  "load_metapod r = andthen (gets (\<lambda>s. metapods_at s r)) deref"

definition store_metapod :: "nat \<Rightarrow> MetaPod \<Rightarrow> (('w, 'z) prov_scheme, unit) go" where
  "store_metapod r m = modify (\<lambda>s. s\<lparr>metapods_at := (metapods_at s)(r \<mapsto> m)\<rparr>)"

definition NewMetaPod ::
  "pod_ref \<Rightarrow> nat option \<Rightarrow> nat option \<Rightarrow> (('w, 'z) prov_scheme, nat) go" where
  "NewMetaPod p monitor notifier =
     andthen new_ref (\<lambda>r.
     andthen (store_metapod r \<lparr>mp_pod = p, mp_monitor = monitor, mp_notifier = notifier\<rparr>) (\<lambda>_.
     ret r))"

section \<open>The cache\<close>

definition NewPodCache :: pod_cache where
  "NewPodCache = make_map"

text \<open>The provider's cache, through its pointer.\<close>

definition the_cache :: "(('w, 'z) prov_scheme, pod_cache) go" where
  "the_cache = andthen (gets pods) deref"

definition GetList :: "(('w, 'z) prov_scheme, nat list) go" where
  "GetList =
     andthen the_cache (\<lambda>m.
     andthen next_choice (\<lambda>order.
     ret (map snd (range_map order m))))"

definition GetPodList :: "(('w, 'z) prov_scheme, pod_ref list) go" where
  "GetPodList =
     andthen the_cache (\<lambda>m.
     andthen next_choice (\<lambda>order.
     collect (\<lambda>(_, r). andthen (load_metapod r) (\<lambda>mp. ret (mp_pod mp))) (range_map order m)))"

definition Get :: "string \<Rightarrow> (('w, 'z) prov_scheme, nat option) go" where
  "Get key = andthen the_cache (\<lambda>m. ret (lookup m key))"

definition Set :: "string \<Rightarrow> nat \<Rightarrow> (('w, 'z) prov_scheme, unit) go" where
  "Set key val =
     andthen the_cache (\<lambda>m. modify (\<lambda>s. s\<lparr>pods := Some (assign key val m)\<rparr>))"

definition Delete :: "string \<Rightarrow> (('w, 'z) prov_scheme, unit) go" where
  "Delete key =
     andthen the_cache (\<lambda>m. modify (\<lambda>s. s\<lparr>pods := Some (delete_key key m)\<rparr>))"

text \<open>
  The two halves of \<open>UpdatePod\<close>: the lookup holds the read lock, the write after it holds no lock.
\<close>

definition write_back :: "string \<Rightarrow> pod_ref \<Rightarrow> nat \<Rightarrow> (('w, 'z) prov_scheme, unit) go" where
  "write_back key p r =
     andthen (load_metapod r) (\<lambda>mp.
     andthen (store_metapod r (mp\<lparr>mp_pod := p\<rparr>)) (\<lambda>_.
     Set key r))"

definition cache_UpdatePod ::
  "string \<Rightarrow> pod_ref \<Rightarrow> (('w, 'z) prov_scheme, go_error option) go" where
  "cache_UpdatePod key p =
     andthen (Get key) (\<lambda>metaPod. case metaPod of
       None \<Rightarrow> ret (Some (ErrorString (''Can't find cache member with key '' @ key @ '' to update'')))
     | Some r \<Rightarrow> andthen (write_back key p r) (\<lambda>_. ret None))"

text \<open>
  \<open>Populate\<close> fills a cache that no one else knows yet; \<open>pod.DeepCopy()\<close> is a new pod object.
\<close>

definition new_pod :: "pod \<Rightarrow> (('w, 'z) prov_scheme, pod_ref) go" where
  "new_pod p = andthen new_ref (\<lambda>r. andthen (store_pod r p) (\<lambda>_. ret r))"

fun Populate :: "pod list \<Rightarrow> pod_cache \<Rightarrow> (('w, 'z) prov_scheme, pod_cache) go" where
  "Populate [] m = ret m"
| "Populate (p # ps) m =
     andthen (new_pod p) (\<lambda>r.
     andthen (NewMetaPod r None None) (\<lambda>mp.
     Populate ps (assign (GetPodCacheKey (Namespace p) (PodName p)) mp m)))"

lemma store_metapod_run [go_simps]:
  "store_metapod r m s = (s\<lparr>metapods_at := (metapods_at s)(r \<mapsto> m)\<rparr>, Ret ())"
  by (simp add: store_metapod_def go_simps)

lemma load_metapod_run: "metapods_at s r = Some m \<Longrightarrow> load_metapod r s = (s, Ret m)"
  by (simp add: load_metapod_def go_simps)

lemma the_cache_run: "pods s = Some m \<Longrightarrow> the_cache s = (s, Ret m)"
  by (simp add: the_cache_def go_simps)

lemma cache_runs:
  "pods s = Some m \<Longrightarrow> Get key s = (s, Ret (lookup m key))"
  "pods s = Some m \<Longrightarrow> Set key val s = (s\<lparr>pods := Some (assign key val m)\<rparr>, Ret ())"
  "pods s = Some m \<Longrightarrow> Delete key s = (s\<lparr>pods := Some (delete_key key m)\<rparr>, Ret ())"
  by (simp_all add: Get_def Set_def Delete_def go_simps the_cache_run)

lemma cache_nil:
  "pods s = None \<Longrightarrow> Get key s = (s, Crash NilDeref)"
  "pods s = None \<Longrightarrow> Set key val s = (s, Crash NilDeref)"
  "pods s = None \<Longrightarrow> Delete key s = (s, Crash NilDeref)"
  by (simp_all add: Get_def Set_def Delete_def the_cache_def go_simps)

section \<open>The interface of the cache\<close>

text \<open>
  A store of values under keys in the state: what it holds (\<open>view\<close>) after each operation, and that the
  operations return in every good state and keep it good.
\<close>

locale pod_store =
  fixes view :: "'s \<Rightarrow> 'k \<Rightarrow> 'v option"
    and good :: "'s \<Rightarrow> bool"
    and get_op :: "'k \<Rightarrow> ('s, 'v option) go"
    and set_op :: "'k \<Rightarrow> 'v \<Rightarrow> ('s, unit) go"
    and del_op :: "'k \<Rightarrow> ('s, unit) go"
  assumes get_runs: "good s \<Longrightarrow> get_op k s = (s, Ret (view s k))"
    and set_runs: "good s \<Longrightarrow>
      \<exists>t. set_op k v s = (t, Ret ()) \<and> good t \<and> view t = (view s)(k \<mapsto> v)"
    and del_runs: "good s \<Longrightarrow>
      \<exists>t. del_op k s = (t, Ret ()) \<and> good t \<and> view t = (view s)(k := None)"
begin

lemma get_after_set:
  assumes "good s"
  shows "snd (andthen (set_op k v) (\<lambda>_. get_op k') s) = Ret (if k' = k then Some v else view s k')"
proof -
  from set_runs [OF assms] obtain t where
    "set_op k v s = (t, Ret ())" "good t" "view t = (view s)(k \<mapsto> v)" by blast
  then show ?thesis using get_runs [of t k'] by (simp add: andthen_run)
qed

lemma set_then_delete:
  assumes "good s"
  shows "\<exists>t. andthen (set_op k v) (\<lambda>_. del_op k) s = (t, Ret ()) \<and> good t \<and>
    view t = (view s)(k := None)"
proof -
  from set_runs [OF assms] obtain t where
    t: "set_op k v s = (t, Ret ())" "good t" "view t = (view s)(k \<mapsto> v)" by blast
  from del_runs [OF t(2)] obtain u where
    "del_op k t = (u, Ret ())" "good u" "view u = (view t)(k := None)" by blast
  with t show ?thesis by (simp add: andthen_run)
qed

lemma delete_all:
  assumes "good s"
  shows "\<exists>t. for_each del_op ks s = (t, Ret ()) \<and> good t \<and> view t = view s |` (- set ks)"
  using assms
proof (induction ks arbitrary: s)
  case (Cons k ks)
  from del_runs [OF Cons.prems] obtain t where
    t: "del_op k s = (t, Ret ())" "good t" "view t = (view s)(k := None)" by blast
  from Cons.IH [OF t(2)] obtain u where
    "for_each del_op ks t = (u, Ret ())" "good u" "view u = view t |` (- set ks)" by blast
  with t show ?case by (auto simp: andthen_run restrict_map_def fun_eq_iff)
qed (auto simp: ret_run restrict_map_def fun_eq_iff)

end

definition cache_view :: "('w, 'z) prov_scheme \<Rightarrow> string \<Rightarrow> nat option" where
  "cache_view s = (case pods s of None \<Rightarrow> (\<lambda>_. None) | Some m \<Rightarrow> lookup m)"

definition cache_good :: "('w, 'z) prov_scheme \<Rightarrow> bool" where
  "cache_good s \<longleftrightarrow> (case pods s of None \<Rightarrow> False | Some m \<Rightarrow> go_map_ok m)"

interpretation pc: pod_store cache_view cache_good Get Set Delete
proof unfold_locales
  fix s :: "('a, 'b) prov_scheme" and k :: string and v :: nat
  assume "cache_good s"
  then obtain m where m: "pods s = Some m" "go_map_ok m"
    by (auto simp: cache_good_def split: option.splits)
  show "Get k s = (s, Ret (cache_view s k))"
    using m by (simp add: cache_runs cache_view_def)
  show "\<exists>t. Set k v s = (t, Ret ()) \<and> cache_good t \<and> cache_view t = (cache_view s)(k \<mapsto> v)"
    using m gm.look_put [OF m(2), of k v] gm.ok_put [OF m(2), of k v]
    by (auto simp: cache_runs cache_good_def cache_view_def fun_eq_iff)
  show "\<exists>t. Delete k s = (t, Ret ()) \<and> cache_good t \<and> cache_view t = (cache_view s)(k := None)"
    using m gm.look_del [OF m(2), of k] gm.ok_del [OF m(2), of k]
    by (auto simp: cache_runs cache_good_def cache_view_def fun_eq_iff)
qed

section \<open>What the cache does\<close>

definition sample_prov :: "'w \<Rightarrow> pod_cache \<Rightarrow> 'w prov" where
  "sample_prov w m = \<lparr>world = w, config = Some sample_config, counters = (\<lambda>_. 0), choices = [],
     clock = 5, pods_at = [0 \<mapsto> sample_pod], notified = [], utilsNotifier = Some 9,
     monitors_at = Map.empty, handlers_at = [1 \<mapsto> \<lparr>in_chan = 0, IsReceiving = False\<rparr>],
     podmons_at = Map.empty, cancelled_ctxs = [], fresh_ref = 3, VKState = empty_vk_state,
     nodeName = [], metapods_at = [2 \<mapsto> \<lparr>mp_pod = 0, mp_monitor = None, mp_notifier = None\<rparr>],
     pods = Some m, podNotifier = Some 9\<rparr>"

lemma sample_prov_fields [simp]:
  "config (sample_prov w m) = Some sample_config" "world (sample_prov w m) = w"
  "pods (sample_prov w m) = Some m" "pods_at (sample_prov w m) = [0 \<mapsto> sample_pod]"
  "handlers_at (sample_prov w m) = [1 \<mapsto> \<lparr>in_chan = 0, IsReceiving = False\<rparr>]"
  "metapods_at (sample_prov w m) = [2 \<mapsto> \<lparr>mp_pod = 0, mp_monitor = None, mp_notifier = None\<rparr>]"
  "podNotifier (sample_prov w m) = Some 9" "podmons_at (sample_prov w m) = Map.empty"
  "fresh_ref (sample_prov w m) = 3" "monitors_at (sample_prov w m) = Map.empty"
  "VKState (sample_prov w m) = empty_vk_state" "notified (sample_prov w m) = []"
  "utilsNotifier (sample_prov w m) = Some 9"
  by (simp_all add: sample_prov_def)

text \<open>
  The cache is a map: a key that was set is found with the last value set, a deleted one is not
  found, other keys are untouched, and no operation fails once the provider has a cache.
\<close>

theorem cache_is_a_map:
  fixes s :: "('w, 'z) prov_scheme"
  assumes "cache_good s"
  shows "snd (andthen (Set k v) (\<lambda>_. Get k') s) = Ret (if k' = k then Some v else cache_view s k') \<and>
    (\<exists>t. andthen (Set k v) (\<lambda>_. Delete k) s = (t, Ret ()) \<and> cache_good t \<and>
      cache_view t = (cache_view s)(k := None))"
  using pc.get_after_set [OF assms] pc.set_then_delete [OF assms] by blast

theorem cache_is_a_map_witness:
  "snd (andthen (Set ''default-web'' 2) (\<lambda>_. Get ''default-web'') (sample_prov () make_map)) = Ret (Some 2)"
  using cache_is_a_map [of "sample_prov () make_map" "''default-web''" 2 "''default-web''"]
  by (simp add: cache_good_def gm.ok_empty)

text \<open>
  An update can bring a deleted pod back: \<open>UpdatePod\<close> gives up its lock between the lookup and the
  write, so if the pod is deleted in between, the write puts the entry back into the cache; the same
  update after the deletion would have been refused.
\<close>

theorem UpdatePod_resurrects:
  fixes s :: "('w, 'z) prov_scheme"
  assumes "cache_good s" and "cache_view s key = Some r" and "metapods_at s r = Some mp"
  shows "snd (Get key s) = Ret (Some r) \<and>
    (\<exists>t. andthen (Delete key) (\<lambda>_. write_back key p r) s = (t, Ret ()) \<and> cache_view t key = Some r) \<and>
    (\<exists>t e. andthen (Delete key) (\<lambda>_. cache_UpdatePod key p) s = (t, Ret (Some e)) \<and>
      cache_view t key = None)"
proof -
  obtain m where m: "pods s = Some m" "go_map_ok m"
    using assms(1) by (auto simp: cache_good_def split: option.splits)
  then show ?thesis
    using assms(2,3) gm.look_del [OF m(2), of key key]
      gm.look_put [OF gm.ok_del [OF m(2), of key], of key r key]
    by (simp add: cache_runs andthen_run write_back_def load_metapod_run store_metapod_run
        cache_UpdatePod_def cache_view_def ret_run)
qed

theorem UpdatePod_resurrects_witness:
  "\<exists>t. andthen (Delete ''default-web'') (\<lambda>_. write_back ''default-web'' 0 2)
      (sample_prov () [(''default-web'', 2)]) = (t, Ret ()) \<and> cache_view t ''default-web'' = Some 2"
  using UpdatePod_resurrects [of "sample_prov () [(''default-web'', 2)]" "''default-web''" 2
      "\<lparr>mp_pod = 0, mp_monitor = None, mp_notifier = None\<rparr>" 0]
  by (simp add: cache_good_def go_map_ok_def cache_view_def lookup_def)

definition pod_key :: "pod \<Rightarrow> string" where
  "pod_key p = GetPodCacheKey (Namespace p) (PodName p)"

lemma Populate_keeps:
  "Populate ps m s = (t, Ret m') \<Longrightarrow> go_map_ok m \<Longrightarrow>
   go_map_ok m' \<and> fresh_ref s \<le> fresh_ref t \<and>
   (\<forall>r < fresh_ref s. pods_at t r = pods_at s r \<and> metapods_at t r = metapods_at s r) \<and>
   (\<forall>k. k \<notin> pod_key ` set ps \<longrightarrow> lookup m' k = lookup m k)"
proof (induction ps arbitrary: m s)
  case Nil
  then show ?case by (simp add: ret_run)
next
  case (Cons p ps)
  let ?f = "fresh_ref s"
  let ?s = "s\<lparr>pods_at := (pods_at s)(?f \<mapsto> p), fresh_ref := Suc (Suc ?f),
    metapods_at := (metapods_at s)(Suc ?f \<mapsto> \<lparr>mp_pod = ?f, mp_monitor = None, mp_notifier = None\<rparr>)\<rparr>"
  have "Populate ps (assign (pod_key p) (Suc ?f) m) ?s = (t, Ret m')"
    using Cons.prems(1)
    by (simp add: new_pod_def NewMetaPod_def andthen_run new_ref_run store_pod_run store_metapod_run
        ret_run pod_key_def)
  from Cons.IH [OF this gm.ok_put [OF Cons.prems(2)]] show ?case
    using gm.look_put [OF Cons.prems(2)] by auto
qed

text \<open>The pod that a key stands for in a list: the last one listed, the only one if keys do not clash.\<close>

definition listed_last :: "pod list \<Rightarrow> string \<Rightarrow> pod" where
  "listed_last ps k = last (filter (\<lambda>q. pod_key q = k) ps)"

lemma listed_last_Cons:
  "listed_last (p # ps) k = (if k \<in> pod_key ` set ps then listed_last ps k
     else if pod_key p = k then p else listed_last ps k)"
  by (auto simp: listed_last_def filter_empty_conv)

lemma listed_last_unique: "distinct (map pod_key ps) \<Longrightarrow> p \<in> set ps \<Longrightarrow> listed_last ps (pod_key p) = p"
  by (induction ps) (auto simp: listed_last_Cons image_iff)

definition rehydrated :: "('w, 'z) prov_scheme \<Rightarrow> pod_cache \<Rightarrow> string \<Rightarrow> pod \<Rightarrow> bool" where
  "rehydrated t m k p \<longleftrightarrow> (\<exists>r copy. lookup m k = Some r \<and>
     metapods_at t r = Some \<lparr>mp_pod = copy, mp_monitor = None, mp_notifier = None\<rparr> \<and>
     pods_at t copy = Some p)"

lemma Populate_finds:
  fixes s :: "('w, 'z) prov_scheme"
  shows "\<exists>t m. Populate ps NewPodCache s = (t, Ret m) \<and> go_map_ok m \<and>
    list_all (\<lambda>p. rehydrated t m (pod_key p) (listed_last ps (pod_key p))) ps"
proof -
  have gen: "go_map_ok m0 \<Longrightarrow> \<exists>t m. Populate ps m0 s = (t, Ret m) \<and> go_map_ok m \<and>
    list_all (\<lambda>p. rehydrated t m (pod_key p) (listed_last ps (pod_key p))) ps" for m0
  proof (induction ps arbitrary: m0 s)
    case Nil
    then show ?case by (simp add: ret_run)
  next
    case (Cons p ps)
    let ?f = "fresh_ref s"
    let ?mp = "\<lparr>mp_pod = ?f, mp_monitor = None, mp_notifier = None\<rparr>"
    let ?s = "s\<lparr>pods_at := (pods_at s)(?f \<mapsto> p), fresh_ref := Suc (Suc ?f),
      metapods_at := (metapods_at s)(Suc ?f \<mapsto> ?mp)\<rparr>"
    let ?m = "assign (pod_key p) (Suc ?f) m0"
    have step: "Populate (p # ps) m0 s = Populate ps ?m ?s"
      by (simp add: new_pod_def NewMetaPod_def andthen_run new_ref_run store_pod_run store_metapod_run
          ret_run pod_key_def)
    have ok: "go_map_ok ?m" by (rule gm.ok_put [OF Cons.prems(1)])
    from Cons.IH [OF ok, of ?s] obtain t m where
      IH: "Populate ps ?m ?s = (t, Ret m)" "go_map_ok m"
        "\<forall>p \<in> set ps. rehydrated t m (pod_key p) (listed_last ps (pod_key p))"
      unfolding list_all_iff by blast
    have keep: "\<forall>r < Suc (Suc ?f). pods_at t r = pods_at ?s r \<and> metapods_at t r = metapods_at ?s r"
      and look: "\<forall>k. k \<notin> pod_key ` set ps \<longrightarrow> lookup m k = lookup ?m k"
      using Populate_keeps [OF IH(1) ok] by simp_all
    have "rehydrated t m (pod_key p) p" if "pod_key p \<notin> pod_key ` set ps"
      using that keep look gm.look_put [OF Cons.prems(1)] unfolding rehydrated_def
      by (intro exI [of _ "Suc ?f"] exI [of _ ?f]) simp
    then have "\<forall>q \<in> set (p # ps). rehydrated t m (pod_key q) (listed_last (p # ps) (pod_key q))"
      using IH(3) by (auto simp: listed_last_Cons image_iff)
    then show ?case using IH(1,2) step unfolding list_all_iff by (intro exI conjI) auto
  qed
  show ?thesis unfolding NewPodCache_def by (rule gen) (rule gm.ok_empty)
qed

text \<open>
  Rehydrating the cache from Kubernetes' list finds every pod again under its key, as a copy of its
  own with neither monitor nor notifier; of pods that share a key the last one listed.
\<close>

theorem Populate_finds_pods:
  fixes s :: "('w, 'z) prov_scheme"
  shows "\<exists>t m. Populate ps NewPodCache s = (t, Ret m) \<and> go_map_ok m \<and>
    list_all (\<lambda>p. rehydrated t m (pod_key p) (listed_last ps (pod_key p))) ps"
  by (rule Populate_finds)

end
