(* ===== verification/Pod_Cache_Lock.thy ===== *)
theory Pod_Cache_Lock
  imports "HOL-Library.Multiset"
begin

text \<open>
  The read-write mutex of the pod cache (\<open>podcache.go\<close>) and the map it guards.  Every call of Virtual Kubelet
  and the status loop use the cache from goroutines of their own; each is here the sequence of what it does to
  the mutex and to the map.  A Go map marks that it is being written; an access that finds the mark set ends
  the process with ``concurrent map writes'' or ``concurrent map read and map write'', which no \<open>recover\<close>
  stops.  \<open>UpdatePod\<close> looks its entry up under the mutex and writes the map without it.
\<close>

section \<open>What the operations do\<close>

datatype access = RLock | RUnlock | WLock | WUnlock | Read | WriteBegin | WriteEnd

text \<open>\<open>Get\<close>, the two lists (with the number of elements they visit), \<open>Set\<close> and \<open>Delete\<close>, and \<open>UpdatePod\<close>,
which stops when the key is not \<open>found\<close>.\<close>

definition get_accesses :: "access list" where
  "get_accesses = [RLock, Read, RUnlock]"

definition list_accesses :: "nat \<Rightarrow> access list" where
  "list_accesses n = RLock # replicate n Read @ [RUnlock]"

definition set_accesses :: "access list" where
  "set_accesses = [WLock, WriteBegin, WriteEnd, WUnlock]"

definition update_accesses :: "bool \<Rightarrow> access list" where
  "update_accesses found = get_accesses @ (if found then [WriteBegin, WriteEnd] else [])"

record cache_lock =
  readers :: nat
  writer :: bool
  writing :: bool
  map_fatal :: bool
  goroutines :: "access list list"

text \<open>
  One access; \<open>None\<close> is waiting for the mutex.  Go also makes a reader wait behind a waiting writer; that
  only rules out some of the interleavings here.
\<close>

fun perform :: "access \<Rightarrow> cache_lock \<Rightarrow> cache_lock option" where
  "perform RLock s = (if writer s then None else Some (s\<lparr>readers := Suc (readers s)\<rparr>))"
| "perform RUnlock s = Some (if readers s = 0 then s\<lparr>map_fatal := True\<rparr> else s\<lparr>readers := readers s - 1\<rparr>)"
| "perform WLock s = (if writer s \<or> readers s > 0 then None else Some (s\<lparr>writer := True\<rparr>))"
| "perform WUnlock s = Some (if writer s then s\<lparr>writer := False\<rparr> else s\<lparr>map_fatal := True\<rparr>)"
| "perform Read s = Some (if writing s then s\<lparr>map_fatal := True\<rparr> else s)"
| "perform WriteBegin s = Some (if writing s then s\<lparr>map_fatal := True\<rparr> else s\<lparr>writing := True\<rparr>)"
| "perform WriteEnd s = Some (if writing s then s\<lparr>writing := False\<rparr> else s\<lparr>map_fatal := True\<rparr>)"

inductive cache_lock_step :: "cache_lock \<Rightarrow> cache_lock \<Rightarrow> bool" where
  access: "\<not> map_fatal s \<Longrightarrow> i < length (goroutines s) \<Longrightarrow> goroutines s ! i = a # rest \<Longrightarrow> perform a s = Some t \<Longrightarrow>
    cache_lock_step s (t\<lparr>goroutines := (goroutines s)[i := rest]\<rparr>)"

inductive cache_lock_steps :: "cache_lock \<Rightarrow> cache_lock \<Rightarrow> bool" where
  no_access: "cache_lock_steps s s"
| more_accesses: "cache_lock_steps s t \<Longrightarrow> cache_lock_step t u \<Longrightarrow> cache_lock_steps s u"

definition unlocked :: "access list list \<Rightarrow> cache_lock" where
  "unlocked gs = \<lparr>readers = 0, writer = False, writing = False, map_fatal = False, goroutines = gs\<rparr>"

text \<open>A given interleaving: which goroutine has each turn.\<close>

fun schedule :: "nat list \<Rightarrow> cache_lock \<Rightarrow> cache_lock option" where
  "schedule [] s = Some s"
| "schedule (i # is) s = (if map_fatal s \<or> length (goroutines s) \<le> i then None else
     (case goroutines s ! i of [] \<Rightarrow> None
      | a # rest \<Rightarrow> (case perform a s of None \<Rightarrow> None
          | Some t \<Rightarrow> schedule is (t\<lparr>goroutines := (goroutines s)[i := rest]\<rparr>))))"

lemma steps_first: "cache_lock_steps t u \<Longrightarrow> cache_lock_step s t \<Longrightarrow> cache_lock_steps s u"
  by (induction rule: cache_lock_steps.induct) (blast intro: no_access more_accesses)+

lemma schedule_steps: "schedule is s = Some t \<Longrightarrow> cache_lock_steps s t"
proof (induction "is" s rule: schedule.induct)
  case (2 i "is" s)
  from 2(2) obtain a rest u where "\<not> map_fatal s" "i < length (goroutines s)" "goroutines s ! i = a # rest"
      "perform a s = Some u" "schedule is (u\<lparr>goroutines := (goroutines s)[i := rest]\<rparr>) = Some t"
    by (auto split: if_splits list.splits option.splits)
  with 2(1) [of a rest u] cache_lock_step.access [of s i a rest u] show ?case by (auto intro: steps_first)
qed (simp add: no_access)

section \<open>Under the mutex\<close>

text \<open>Where a goroutine is that only touches the map under the mutex, and what it may still do from there.\<close>

datatype place = Outside | Reading | Writing | Midway

fun guarded :: "place \<Rightarrow> access list \<Rightarrow> bool" where
  "guarded Outside [] \<longleftrightarrow> True"
| "guarded Outside (RLock # r) \<longleftrightarrow> guarded Reading r"
| "guarded Outside (WLock # r) \<longleftrightarrow> guarded Writing r"
| "guarded Reading (Read # r) \<longleftrightarrow> guarded Reading r"
| "guarded Reading (RUnlock # r) \<longleftrightarrow> guarded Outside r"
| "guarded Writing (WriteBegin # r) \<longleftrightarrow> guarded Midway r"
| "guarded Writing (WUnlock # r) \<longleftrightarrow> guarded Outside r"
| "guarded Midway (WriteEnd # r) \<longleftrightarrow> guarded Writing r"
| "guarded _ _ \<longleftrightarrow> False"

lemma guarded_append: "guarded p xs \<Longrightarrow> guarded Outside ys \<Longrightarrow> guarded p (xs @ ys)"
  by (induction p xs rule: guarded.induct) simp_all

lemma guarded_reads: "guarded Reading (replicate n Read @ RUnlock # xs) = guarded Outside xs"
  by (induction n) simp_all

lemma guarded_operations:
  "guarded Outside get_accesses" "guarded Outside (list_accesses n)" "guarded Outside set_accesses"
  by (simp_all add: get_accesses_def list_accesses_def set_accesses_def guarded_reads)

text \<open>The mutex counts the goroutines that read, and is held by the one that writes.\<close>

definition places_ok :: "cache_lock \<Rightarrow> place multiset \<Rightarrow> bool" where
  "places_ok s M \<longleftrightarrow> readers s = count M Reading \<and> count M Writing + count M Midway = (if writer s then 1 else 0) \<and>
     (writer s \<longrightarrow> readers s = 0) \<and> (writing s \<longleftrightarrow> 0 < count M Midway) \<and> \<not> map_fatal s"

definition cache_lock_ok :: "cache_lock \<Rightarrow> bool" where
  "cache_lock_ok s \<longleftrightarrow> (\<exists>ps. list_all2 guarded ps (goroutines s) \<and> places_ok s (mset ps))"

lemma perform_guarded:
  assumes "guarded p (a # r)" and "perform a s = Some t" and "places_ok s (add_mset p M)"
  shows "\<exists>q. guarded q r \<and> places_ok t (add_mset q M)"
proof -
  consider (RLock) "p = Outside" "a = RLock" "guarded Reading r" | (WLock) "p = Outside" "a = WLock" "guarded Writing r"
    | (Read) "p = Reading" "a = Read" "guarded Reading r" | (RUnlock) "p = Reading" "a = RUnlock" "guarded Outside r"
    | (Begin) "p = Writing" "a = WriteBegin" "guarded Midway r" | (WUnlock) "p = Writing" "a = WUnlock" "guarded Outside r"
    | (End) "p = Midway" "a = WriteEnd" "guarded Writing r"
    using assms(1) by (cases p; cases a) simp_all
  then show ?thesis
  proof cases
    case RLock
    then show ?thesis using assms(2,3) by (intro exI [of _ Reading]) (auto simp: places_ok_def simp del: count_greater_zero_iff split: if_splits)
  next
    case WLock
    then show ?thesis using assms(2,3) by (intro exI [of _ Writing]) (auto simp: places_ok_def simp del: count_greater_zero_iff split: if_splits)
  next
    case Read
    then show ?thesis using assms(2,3) by (intro exI [of _ Reading]) (auto simp: places_ok_def simp del: count_greater_zero_iff split: if_splits)
  next
    case RUnlock
    then show ?thesis using assms(2,3) by (intro exI [of _ Outside]) (auto simp: places_ok_def simp del: count_greater_zero_iff split: if_splits)
  next
    case Begin
    then show ?thesis using assms(2,3) by (intro exI [of _ Midway]) (auto simp: places_ok_def simp del: count_greater_zero_iff split: if_splits)
  next
    case WUnlock
    then show ?thesis using assms(2,3) by (intro exI [of _ Outside]) (auto simp: places_ok_def simp del: count_greater_zero_iff split: if_splits)
  next
    case End
    then show ?thesis using assms(2,3) by (intro exI [of _ Writing]) (auto simp: places_ok_def simp del: count_greater_zero_iff split: if_splits)
  qed
qed

lemma places_ok_goroutines [simp]: "places_ok (s\<lparr>goroutines := gs\<rparr>) M = places_ok s M"
  by (simp add: places_ok_def)

lemma cache_lock_step_ok: "cache_lock_step s t \<Longrightarrow> cache_lock_ok s \<Longrightarrow> cache_lock_ok t"
proof (induction rule: cache_lock_step.induct)
  case (access s i a rest t)
  then obtain ps where ps: "list_all2 guarded ps (goroutines s)" "places_ok s (mset ps)"
    by (auto simp: cache_lock_ok_def)
  have i: "i < length ps" using ps(1) access(2) by (simp add: list_all2_lengthD)
  have "guarded (ps ! i) (a # rest)" using list_all2_nthD2 [OF ps(1) access(2)] access(3) by simp
  moreover have "mset ps = add_mset (ps ! i) (mset ps - {#ps ! i#})" using i by simp
  ultimately obtain q where q: "guarded q rest" "places_ok t (add_mset q (mset ps - {#ps ! i#}))"
    using perform_guarded [OF _ access(4)] ps(2) by metis
  have "list_all2 guarded (ps[i := q]) ((goroutines s)[i := rest])"
    using ps(1) q(1) by (rule list_all2_update_cong)
  moreover have "mset (ps[i := q]) = add_mset q (mset ps - {#ps ! i#})" using i by (rule mset_update)
  ultimately show ?case using q(2) unfolding cache_lock_ok_def by (intro exI [of _ "ps[i := q]"]) simp
qed

lemma cache_lock_steps_ok: "cache_lock_steps s t \<Longrightarrow> cache_lock_ok s \<Longrightarrow> cache_lock_ok t"
  by (induction rule: cache_lock_steps.induct) (auto intro: cache_lock_step_ok)

lemma unlocked_ok:
  assumes "list_all (guarded Outside) gs"
  shows "cache_lock_ok (unlocked gs)"
  unfolding cache_lock_ok_def
  by (rule exI [of _ "replicate (length gs) Outside"])
    (use assms in \<open>auto simp: unlocked_def places_ok_def list_all2_conv_all_nth list_all_length\<close>)

text \<open>An operation of the cache that keeps to the mutex.\<close>

inductive locked_operation :: "access list \<Rightarrow> bool" where
  "locked_operation get_accesses"
| "locked_operation (list_accesses n)"
| "locked_operation set_accesses"

lemma guarded_concat: "list_all locked_operation ops \<Longrightarrow> guarded Outside (concat ops)"
proof (induction ops)
  case (Cons x ops)
  then have "guarded Outside x" by (auto elim: locked_operation.cases simp: guarded_operations)
  then show ?case using Cons by (simp add: guarded_append)
qed simp

text \<open>
  C26: as long as nobody calls \<open>UpdatePod\<close>, the cache is safe: any number of goroutines, each performing any
  sequence of lookups, listings, insertions and deletions, interleaved in any way, never end in the runtime's
  fatal error of concurrent map accesses.
\<close>

theorem locked_cache_is_safe:
  assumes "list_all (list_all locked_operation) workers"
    and "cache_lock_steps (unlocked (map concat workers)) s"
  shows "\<not> map_fatal s"
proof -
  have "list_all (guarded Outside) (map concat workers)"
    using assms(1) by (induction workers) (simp_all add: guarded_concat)
  from cache_lock_steps_ok [OF assms(2) unlocked_ok [OF this]] show ?thesis
    by (auto simp: cache_lock_ok_def places_ok_def)
qed

theorem locked_cache_is_safe_witness:
  "\<exists>s. schedule [0, 0, 0, 1, 1] (unlocked [get_accesses, set_accesses]) = Some s \<and> \<not> map_fatal s"
proof -
  let ?ws = "[[get_accesses], [set_accesses]]"
  obtain s where s: "schedule [0, 0, 0, 1, 1] (unlocked (map concat ?ws)) = Some s"
    by (simp add: unlocked_def get_accesses_def set_accesses_def)
  have "list_all (list_all locked_operation) ?ws" by (simp add: locked_operation.intros)
  from locked_cache_is_safe [OF this schedule_steps [OF s]] s show ?thesis
    by (simp del: schedule.simps)
qed

section \<open>Without it\<close>

text \<open>
  C27: \<open>UpdatePod\<close> of a cached pod races with everything else: whichever operation another goroutine performs on the cache, a
  lookup, a listing of at least one pod, an insertion, a deletion or a second \<open>UpdatePod\<close>, and although that
  operation keeps to the mutex, there is an interleaving that ends in the fatal error of concurrent map
  accesses, which takes the provider down.
\<close>

theorem update_races:
  assumes "locked_operation op \<and> op \<noteq> list_accesses 0 \<or> op = update_accesses True"
  shows "\<exists>s. cache_lock_steps (unlocked [update_accesses True, op]) s \<and> map_fatal s"
proof -
  have "\<exists>s. schedule ([0, 0, 0, 0] @ is) (unlocked [update_accesses True, op]) = Some s \<and> map_fatal s \<Longrightarrow> ?thesis" for "is"
    by (blast dest: schedule_steps)
  note show_by = this
  note simps = unlocked_def update_accesses_def get_accesses_def set_accesses_def list_accesses_def
  consider (get) "op = get_accesses" | (list) n where "op = list_accesses (Suc n)" | (set) "op = set_accesses"
    | (update) "op = update_accesses True"
    using assms by (auto elim!: locked_operation.cases) (metis not0_implies_Suc)
  then show ?thesis
  proof cases
    case get
    then show ?thesis by (intro show_by [of "[1, 1]"]) (simp add: simps)
  next
    case list
    then show ?thesis by (intro show_by [of "[1, 1]"]) (simp add: simps)
  next
    case set
    then show ?thesis by (intro show_by [of "[1, 1]"]) (simp add: simps)
  next
    case update
    then show ?thesis by (intro show_by [of "[1, 1]"]) (simp add: simps)
  qed
qed

theorem update_races_witness:
  "\<exists>s. cache_lock_steps (unlocked [update_accesses True, list_accesses 1]) s \<and> map_fatal s"
proof (rule update_races)
  have "list_accesses 1 \<noteq> list_accesses 0" by (simp add: list_accesses_def)
  then show "locked_operation (list_accesses 1) \<and> list_accesses 1 \<noteq> list_accesses 0 \<or> list_accesses 1 = update_accesses True"
    by (simp add: locked_operation.intros)
qed

end
