(* ===== verification/Vkvma_Client.thy ===== *)
theory Vkvma_Client
  imports Sample_Cloud
begin

text \<open>
  \<open>internal/vkvmaclient/vkvmaclient.go\<close>: the gRPC client of the agent on an instance.  gRPC, Kubernetes'
  client, the command line and the environment are outside the program: they are fields of \<open>platform\<close>,
  beside those of the AWS SDK.  A connection is a number; a client without one is \<open>None\<close>.
\<close>

section \<open>The platform\<close>

record backoff_params =
  bp_BaseDelay :: int
  bp_Multiplier :: rat
  bp_Jitter :: rat
  bp_MaxDelay :: int

record dial_request =
  dialAddr :: string
  dial_timeout :: int
  connectParams :: backoff_params
  MinConnectTimeout :: int
  dial_keepalive :: "(int \<times> int) option"

text \<open>
  \<open>DialContext\<close> blocks until the connection is up or the context's timeout is over; the boolean is
  whether the context is done when it returns.
\<close>

record 'w platform = "'w sdk" +
  DialContext :: "dial_request \<Rightarrow> 'w \<Rightarrow> ((go_error + nat) \<times> bool) \<times> 'w"
  conn_ready :: "nat \<Rightarrow> 'w \<Rightarrow> bool"
  rpc_LaunchApplication :: "nat \<Rightarrow> pod \<Rightarrow> 'w \<Rightarrow> go_error option \<times> 'w"
  rpc_TerminateApplication :: "nat \<Rightarrow> 'w \<Rightarrow> go_error option \<times> 'w"
  rpc_Watch :: "nat \<Rightarrow> 'w \<Rightarrow> go_error option \<times> 'w"
  rpc_WatchApplicationHealth :: "nat \<Rightarrow> 'w \<Rightarrow> go_error option \<times> 'w"
  Getenv :: "string \<Rightarrow> string"
  set_klog_level :: "string \<Rightarrow> 'w \<Rightarrow> unit \<times> 'w"
  read_config :: "'w reader"
  unmarshal_config :: decoder

section \<open>The client\<close>

record VkvmaClient =
  vc_config :: VkvmaConfig
  address :: string
  port :: int
  connection :: "nat option"
  serviceConfig :: string

definition NewVkvmaClient :: "string \<Rightarrow> int \<Rightarrow> (('w, 'z) base_scheme, VkvmaClient) go" where
  "NewVkvmaClient ip p =
     andthen Config (\<lambda>cfg.
     ret \<lparr>vc_config = VKVMAgentConnectionConfig cfg, address = ip, port = p, connection = None,
       serviceConfig = []\<rparr>)"

definition NewVkvmaPodClient :: "pod_ref \<Rightarrow> (('w, 'z) kube_scheme, VkvmaClient) go" where
  "NewVkvmaPodClient r =
     andthen Config (\<lambda>cfg.
     andthen (load_pod r) (\<lambda>p.
     NewVkvmaClient (PodIP (Status p)) (Port (VKVMAgentConnectionConfig cfg))))"

definition IsConnected :: "('w, 'e) platform_scheme \<Rightarrow> VkvmaClient \<Rightarrow> (('w, 'z) base_scheme, bool) go" where
  "IsConnected pf v =
     (case connection v of
        None \<Rightarrow> ret False
      | Some c \<Rightarrow> gets (\<lambda>s. conn_ready pf c (world s)))"

definition dial_request_of :: "VkvmaClient \<Rightarrow> dial_request" where
  "dial_request_of v = \<lparr>
     dialAddr = address v @ '':'' @ itoa_int (port v),
     dial_timeout = Seconds (TimeoutSeconds (vc_config v)),
     connectParams = \<lparr>bp_BaseDelay = Seconds (BaseDelaySeconds (Backoff (vc_config v))),
       bp_Multiplier = Multiplier (Backoff (vc_config v)), bp_Jitter = Jitter (Backoff (vc_config v)),
       bp_MaxDelay = Seconds (MaxDelaySeconds (Backoff (vc_config v)))\<rparr>,
     MinConnectTimeout = Seconds (MinConnectTimeoutSeconds (vc_config v)),
     dial_keepalive =
       (if KeepaliveEnabled (vc_config v)
        then Some (Seconds (KeepaliveTimeSeconds (Keepalive (vc_config v))),
                   Seconds (KeepaliveTimeoutSeconds (Keepalive (vc_config v))))
        else None)\<rparr>"

text \<open>
  The \<open>select\<close> after the dial: its timer is new, so it is never ready; the \<open>default\<close> case stores the
  connection unless the context is done, whether or not the dial failed.
\<close>

definition Connect ::
  "('w, 'e) platform_scheme \<Rightarrow> VkvmaClient \<Rightarrow>
   (('w, 'z) base_scheme, VkvmaClient \<times> (go_error + nat)) go" where
  "Connect pf v =
     andthen (call (DialContext pf (dial_request_of v))) (\<lambda>(conn, ctxDone).
     (let v = (if ctxDone then v
               else v\<lparr>connection := (case conn of Inl _ \<Rightarrow> None | Inr c \<Rightarrow> Some c)\<rparr>)
      in case conn of
           Inl err \<Rightarrow> ret (v, Inl err)
         | Inr c \<Rightarrow> ret (v, Inr c)))"

text \<open>A service client is the connection it was made from.\<close>

definition GetHealthClient ::
  "('w, 'e) platform_scheme \<Rightarrow> VkvmaClient \<Rightarrow>
   (('w, 'z) base_scheme, VkvmaClient \<times> (go_error + nat option)) go" where
  "GetHealthClient pf v =
     andthen (IsConnected pf v) (\<lambda>ok.
     if \<not> ok then
       andthen (Connect pf v) (\<lambda>(v, r). case r of
         Inl err \<Rightarrow> ret (v, Inl err)
       | Inr _ \<Rightarrow> ret (v, Inr (connection v)))
     else ret (v, Inr (connection v)))"

definition GetApplicationLifecycleClient ::
  "('w, 'e) platform_scheme \<Rightarrow> VkvmaClient \<Rightarrow>
   (('w, 'z) base_scheme, VkvmaClient \<times> (go_error + nat option)) go" where
  "GetApplicationLifecycleClient pf v =
     andthen (IsConnected pf v) (\<lambda>ok.
     if \<not> ok then
       andthen (Connect pf v) (\<lambda>(v, r). case r of
         Inl err \<Rightarrow> ret (v, Inl err)
       | Inr _ \<Rightarrow> ret (v, Inr (connection v)))
     else ret (v, Inr (connection v)))"

text \<open>A call on a service client; without a connection it dereferences nil.\<close>

definition rpc :: "nat option \<Rightarrow> (nat \<Rightarrow> 'w \<Rightarrow> 'r \<times> 'w) \<Rightarrow> (('w, 'z) base_scheme, 'r) go" where
  "rpc client f = andthen (deref client) (\<lambda>c. call (f c))"

text \<open>
  \<open>getStream\<close> of the two monitors \<open>createMonitors\<close> makes: whether a stream came out (an error at any step
  gives the nil stream).
\<close>

definition open_health_stream ::
  "('w, 'e) platform_scheme \<Rightarrow> pod_ref \<Rightarrow> (('w, 'z) kube_scheme, bool) go" where
  "open_health_stream pf p =
     andthen (NewVkvmaPodClient p) (\<lambda>v.
     andthen (GetHealthClient pf v) (\<lambda>(v, hc). case hc of
       Inl err \<Rightarrow> ret False
     | Inr client \<Rightarrow>
         andthen (rpc client (rpc_Watch pf)) (\<lambda>err. ret (err = None))))"

definition open_application_stream ::
  "('w, 'e) platform_scheme \<Rightarrow> pod_ref \<Rightarrow> (('w, 'z) kube_scheme, bool) go" where
  "open_application_stream pf p =
     andthen (NewVkvmaPodClient p) (\<lambda>v.
     andthen (GetApplicationLifecycleClient pf v) (\<lambda>(v, alc). case alc of
       Inl err \<Rightarrow> ret False
     | Inr client \<Rightarrow>
         andthen (rpc client (rpc_WatchApplicationHealth pf)) (\<lambda>err. ret (err = None))))"

section \<open>Facts\<close>

definition fresh_client :: "ProviderConfig \<Rightarrow> string \<Rightarrow> int \<Rightarrow> VkvmaClient" where
  "fresh_client cfg ip p = \<lparr>vc_config = VKVMAgentConnectionConfig cfg, address = ip, port = p,
     connection = None, serviceConfig = []\<rparr>"

lemma NewVkvmaClient_run:
  "config s = Some cfg \<Longrightarrow> NewVkvmaClient ip p s = (s, Ret (fresh_client cfg ip p))"
  by (simp add: NewVkvmaClient_def andthen_Config ret_run fresh_client_def)

lemma GetApplicationLifecycleClient_run:
  assumes "connection v = None"
    and "DialContext pf (dial_request_of v) (world s) = ((conn, ctxDone), w)"
  shows "\<exists>v'. GetApplicationLifecycleClient pf v s = (s\<lparr>world := w\<rparr>, Ret (v',
    case conn of Inl err \<Rightarrow> Inl err | Inr c \<Rightarrow> Inr (if ctxDone then None else Some c)))"
  using assms
  by (cases conn; cases ctxDone)
    (simp_all add: GetApplicationLifecycleClient_def IsConnected_def Connect_def andthen_run call_run
      ret_run Let_def)

text \<open>
  A connection that comes up just when the timeout is over is lost: \<open>Connect\<close> reports success, but
  the client keeps no connection, so the service client is built on nil and the first call through it
  crashes the provider; with the context still alive the client uses exactly the dialled connection.
\<close>

theorem Connect_loses_late_connection:
  fixes s :: "('w, 'z) base_scheme"
  assumes "connection v = None"
    and "DialContext pf (dial_request_of v) (world s) = ((Inr c, ctxDone), w)"
  shows "\<exists>v'. GetApplicationLifecycleClient pf v s =
      (s\<lparr>world := w\<rparr>, Ret (v', Inr (if ctxDone then None else Some c))) \<and>
    (ctxDone \<longrightarrow> snd (rpc (None :: nat option) f (s\<lparr>world := w\<rparr>)) = Crash NilDeref)"
  using GetApplicationLifecycleClient_run [OF assms] by (auto simp: rpc_def die_run)

section \<open>A concrete platform\<close>

definition cloud_platform :: "cloud platform" where
  "cloud_platform = \<lparr>LoadDefaultConfig = (\<lambda>_ w. (None, w)), ec2_NewFromConfig = (\<lambda>_. cloud_service),
     PresignGetObject_op = (\<lambda>_ bk w. (Inr (''https://'' @ fst bk @ ''/'' @ snd bk), w)),
     unmarshal_tags = (\<lambda>_. [(''Team'', '' a '')]),
     DialContext = (\<lambda>_ w. ((Inr 7, False), w)), conn_ready = (\<lambda>_ _. True),
     rpc_LaunchApplication = (\<lambda>_ _ w. (None, w)), rpc_TerminateApplication = (\<lambda>_ w. (None, w)),
     rpc_Watch = (\<lambda>_ w. (None, w)), rpc_WatchApplicationHealth = (\<lambda>_ w. (None, w)),
     Getenv = (\<lambda>k. if k = ''POD_NAME'' then ''vk-0'' else []), set_klog_level = (\<lambda>_ w. ((), w)),
     read_config = (\<lambda>_ w. (Inr ''{}'', w)),
     unmarshal_config = (\<lambda>_ c. (c\<lparr>ManagementSubnet := ''subnet-1''\<rparr>, None))\<rparr>"

lemma cloud_platform_fields [simp]:
  "LoadDefaultConfig cloud_platform = (\<lambda>_ w. (None, w))"
  "ec2_NewFromConfig cloud_platform = (\<lambda>_. cloud_service)"
  "PresignGetObject_op cloud_platform = (\<lambda>_ bk w. (Inr (''https://'' @ fst bk @ ''/'' @ snd bk), w))"
  "unmarshal_tags cloud_platform = (\<lambda>_. [(''Team'', '' a '')])"
  "DialContext cloud_platform = (\<lambda>_ w. ((Inr 7, False), w))"
  "conn_ready cloud_platform = (\<lambda>_ _. True)"
  "rpc_LaunchApplication cloud_platform = (\<lambda>_ _ w. (None, w))"
  "rpc_TerminateApplication cloud_platform = (\<lambda>_ w. (None, w))"
  "Getenv cloud_platform = (\<lambda>k. if k = ''POD_NAME'' then ''vk-0'' else [])"
  "set_klog_level cloud_platform = (\<lambda>_ w. ((), w))"
  "read_config cloud_platform = (\<lambda>_ w. (Inr ''{}'', w))"
  "unmarshal_config cloud_platform = (\<lambda>_ c. (c\<lparr>ManagementSubnet := ''subnet-1''\<rparr>, None))"
  "Svc (the_client cloud_platform cfg) = cloud_service"
  by (simp_all add: cloud_platform_def the_client_def)

lemma cloud_platform_loads [simp]: "sdk_loads cloud_platform cfg w w' \<longleftrightarrow> w' = w"
  by (auto simp: sdk_loads_def)

theorem Connect_loses_late_connection_witness:
  "\<exists>v'. GetApplicationLifecycleClient (cloud_platform\<lparr>DialContext := (\<lambda>_ w. ((Inr 7, True), w))\<rparr>)
       (fresh_client sample_config ''10.0.0.5'' 8200) (sample_kube empty_cloud) =
     (sample_kube empty_cloud, Ret (v', Inr None))"
  using Connect_loses_late_connection [of "fresh_client sample_config ''10.0.0.5'' 8200"
      "cloud_platform\<lparr>DialContext := (\<lambda>_ w. ((Inr 7, True), w))\<rparr>" "sample_kube empty_cloud" 7 True
      empty_cloud "\<lambda>_ w. ((), w)"]
  by (auto simp: fresh_client_def sample_kube_def)

lemma dial_address: "dialAddr (dial_request_of (fresh_client cfg ip p)) = ip @ '':'' @ itoa_int p"
  by (simp add: dial_request_of_def fresh_client_def)

end
