(* ===== verification/Eni_Node.thy ===== *)
theory Eni_Node
  imports Ec2_Utils Vkvma_Client
begin

text \<open>
  \<open>internal/ec2provider/eninode.go\<close>: the virtual node's name, which is the private DNS name of a network
  interface found or created by its \<open>Name\<close> tag, and the description of the node given to Kubernetes.
\<close>

section \<open>The node's name\<close>

record EniNode =
  en_name :: string
  en_hostname :: string
  en_lastTransitionTime :: nat

definition getOrCreateNodeName ::
  "string \<Rightarrow> string \<Rightarrow> 'w Client \<Rightarrow> (('w, 'z) base_scheme, go_error + string) go" where
  "getOrCreateNodeName tagValue subnetId ec2Client =
     (if tagValue = [] \<or> subnetId = []
      then ret (Inl (ErrorString ''Parameters tagValue, subnetId  are required. ''))
      else
        andthen (GetNetworkInterfaceByTagName tagValue ec2Client) (\<lambda>found. case found of
          Inl err \<Rightarrow> andthen (Inc NodeNameErrors) (\<lambda>_. ret (Inl err))
        | Inr (privateIP, _) \<Rightarrow>
            andthen
              (if privateIP = [] then
                 andthen (CreateNetworkInterface tagValue subnetId ec2Client) (\<lambda>created.
                 ret (case created of Inl _ \<Rightarrow> [] | Inr (ip, _) \<Rightarrow> ip))
               else ret privateIP) (\<lambda>privateIP.
            ret (Inr (''fargate-'' @ privateIP)))))"

definition GetOrCreateEniNode ::
  "('w, 'e) platform_scheme \<Rightarrow> (('w, 'z) base_scheme, go_error + EniNode) go" where
  "GetOrCreateEniNode pf =
     andthen Config (\<lambda>cfg.
     andthen (NewEc2Client pf) (\<lambda>c. case c of
       Inl err \<Rightarrow> ret (Inl err)
     | Inr ec2Client \<Rightarrow>
         (let vkPodName = Getenv pf ''POD_NAME'';
              eniTag = (if vkPodName \<noteq> [] then ClusterName cfg @ ''-'' @ vkPodName
                        else ClusterName cfg)
          in
          andthen (getOrCreateNodeName eniTag (ManagementSubnet cfg) ec2Client) (\<lambda>r. case r of
            Inl err \<Rightarrow> ret (Inl err)
          | Inr node \<Rightarrow>
              andthen Now (\<lambda>t.
              ret (Inr \<lparr>en_name = node, en_hostname = node, en_lastTransitionTime = t\<rparr>))))))"

section \<open>The node's description\<close>

record node_condition =
  NodeConditionType :: string
  NodeConditionStatus :: string
  LastHeartbeatTime :: nat
  NodeTransitionTime :: nat
  NodeReason :: string
  NodeMessage :: string

record k8s_node =
  NodeObjectName :: string
  Labels :: "(string, string) go_map"
  Capacity :: "(string \<times> string) list"
  Allocatable :: "(string \<times> string) list"
  NodeConditions :: "node_condition list"
  KubeletVersion :: string
  NodeOperatingSystem :: string
  Architecture :: string

text \<open>
  The passed node is overwritten completely except for the fields the program does not use, so the
  result does not depend on it.  Quantities are kept as the strings that \<open>MustParse\<close> reads.
\<close>

definition Configure :: "EniNode \<Rightarrow> (('w, 'z) base_scheme, k8s_node) go" where
  "Configure en =
     andthen Now (\<lambda>now.
     (let defaultCapacity = [(''cpu'', DefaultCpuCapacity), (''memory'', DefaultMemoryCapacity),
            (''storage'', DefaultStorageCapacity), (''pods'', DefaultPodCapacity)];
          cond = (\<lambda>type status. \<lparr>NodeConditionType = type, NodeConditionStatus = status,
            LastHeartbeatTime = now, NodeTransitionTime = en_lastTransitionTime en,
            NodeReason = ''Virtual Kubelet is ready'', NodeMessage = ''ok''\<rparr>)
      in ret \<lparr>NodeObjectName = en_name en,
           Labels = [(''type'', ''virtual-kubelet''), (''kubernetes.io/role'', ''agent''),
             (''beta.kubernetes.io/os'', to_lower DefaultOperatingSystem),
             (''kubernetes.io/hostname'', en_hostname en),
             (''alpha.service-controller.kubernetes.io/exclude-balancer'', ''true'')],
           Capacity = defaultCapacity, Allocatable = defaultCapacity,
           NodeConditions = [cond ''Ready'' ''True'', cond ''PIDPressure'' ''False'',
             cond ''MemoryPressure'' ''False'', cond ''DiskPressure'' ''False'',
             cond ''NetworkUnavailable'' ''False'', cond ''KubeletConfigOk'' ''True''],
           KubeletVersion = [], NodeOperatingSystem = DefaultOperatingSystem,
           Architecture = ''amd64''\<rparr>))"

definition Ping :: "('s, go_error option) go" where
  "Ping = die (GoPanic ''What should this do? Check that ENI exists and/or is reachable?'')"

definition NotifyNodeStatus :: "nat option \<Rightarrow> ('s, unit) go" where
  "NotifyNodeStatus cb =
     die (GoPanic ''Save the passed-in callback and use it to notify VK of any node status changes'')"

section \<open>Facts\<close>

definition eni_tag :: "('w, 'e) platform_scheme \<Rightarrow> ProviderConfig \<Rightarrow> string" where
  "eni_tag pf cfg =
     (if Getenv pf ''POD_NAME'' = [] then ClusterName cfg
      else ClusterName cfg @ ''-'' @ Getenv pf ''POD_NAME'')"

lemma GetOrCreateEniNode_start:
  assumes "config s = Some cfg" and "sdk_loads pf cfg (world s) w1"
  shows "GetOrCreateEniNode pf s =
    andthen (getOrCreateNodeName (eni_tag pf cfg) (ManagementSubnet cfg) (the_client pf cfg)) (\<lambda>r.
      case r of Inl err \<Rightarrow> ret (Inl err)
      | Inr node \<Rightarrow> andthen Now (\<lambda>t.
          ret (Inr \<lparr>en_name = node, en_hostname = node, en_lastTransitionTime = t\<rparr>)))
      (s\<lparr>world := w1\<rparr>)"
  using assms
  by (simp add: GetOrCreateEniNode_def andthen_Config andthen_NewEc2Client [OF assms] eni_tag_def Let_def)

lemma GetOrCreateEniNode_stable:
  fixes s :: "('w, 'z) base_scheme"
  assumes "config s = Some cfg" and "sdk_loads pf cfg (world s) w1"
    and "eni_tag pf cfg \<noteq> []" and "ManagementSubnet cfg \<noteq> []"
    and "svc_DescribeNetworkInterfaces (Svc (the_client pf cfg))
      [Filter ''tag:Name'' [eni_tag pf cfg]] w1 = (Inr enis, w2)"
    and "enis \<noteq> []" and "last enis = \<lparr>PrivateDnsName = Some dns, NetworkInterfaceId = Some eni\<rparr>"
    and "dns \<noteq> []"
    and "list_all interface_complete enis"
  shows "GetOrCreateEniNode pf s = (s\<lparr>world := w2\<rparr>,
    Ret (Inr \<lparr>en_name = ''fargate-'' @ dns, en_hostname = ''fargate-'' @ dns,
      en_lastTransitionTime = clock s\<rparr>))"
  using assms
  by (simp add: GetOrCreateEniNode_start getOrCreateNodeName_def andthen_run
      GetNetworkInterfaceByTagName_run ret_run Now_run)

text \<open>
  An interface that exists already names the node: when the interfaces with the cluster's and
  the process's tag are complete and there is one with a DNS name, no interface is created (the only AWS
  call is the lookup) and the node is called after the last of them, so a restarted process gets its name
  back.
\<close>

theorem node_name_is_stable:
  fixes s :: "('w, 'z) base_scheme"
  assumes "config s = Some cfg" and "sdk_loads pf cfg (world s) w1"
    and "eni_tag pf cfg \<noteq> []" and "ManagementSubnet cfg \<noteq> []"
    and "svc_DescribeNetworkInterfaces (Svc (the_client pf cfg))
      [Filter ''tag:Name'' [eni_tag pf cfg]] w1 = (Inr enis, w2)"
    and "enis \<noteq> []" and "last enis = \<lparr>PrivateDnsName = Some dns, NetworkInterfaceId = Some eni\<rparr>"
    and "dns \<noteq> []"
    and "list_all interface_complete enis"
  shows "GetOrCreateEniNode pf s = (s\<lparr>world := w2\<rparr>,
    Ret (Inr \<lparr>en_name = ''fargate-'' @ dns, en_hostname = ''fargate-'' @ dns,
      en_lastTransitionTime = clock s\<rparr>))"
  by (rule GetOrCreateEniNode_stable [OF assms])

theorem node_name_is_stable_witness:
  "GetOrCreateEniNode cloud_platform (sample_kube (empty_cloud\<lparr>cloud_enis :=
       [\<lparr>PrivateDnsName = Some ''ip-10-0-0-3'', NetworkInterfaceId = Some ''eni-3''\<rparr>]\<rparr>)) =
     (sample_kube (empty_cloud\<lparr>cloud_enis :=
       [\<lparr>PrivateDnsName = Some ''ip-10-0-0-3'', NetworkInterfaceId = Some ''eni-3''\<rparr>]\<rparr>),
      Ret (Inr \<lparr>en_name = ''fargate-ip-10-0-0-3'', en_hostname = ''fargate-ip-10-0-0-3'',
        en_lastTransitionTime = 5\<rparr>))"
proof -
  let ?eni = "\<lparr>PrivateDnsName = Some ''ip-10-0-0-3'', NetworkInterfaceId = Some ''eni-3''\<rparr>"
  let ?w = "empty_cloud\<lparr>cloud_enis := [?eni]\<rparr>"
  have "ManagementSubnet sample_config \<noteq> []"
    by (simp add: sample_config_def empty_config_def defaults_defs)
  then show ?thesis
    using node_name_is_stable [of "sample_kube ?w" sample_config cloud_platform ?w "[?eni]" ?w
        "''ip-10-0-0-3''" "''eni-3''"]
    by (simp add: sample_kube_def eni_tag_def interface_complete_def)
qed

text \<open>
  A failed creation is swallowed: when there is no interface yet and EC2 refuses to create one, the
  provider still starts, on a node called \<open>fargate-\<close>, the same name for every process it happens to; only
  the counter \<open>CreateENIErrors\<close> tells.
\<close>

theorem failed_interface_still_names_node:
  fixes s :: "('w, 'z) base_scheme"
  assumes "config s = Some cfg" and "sdk_loads pf cfg (world s) w1"
    and "eni_tag pf cfg \<noteq> []" and "ManagementSubnet cfg \<noteq> []"
    and "svc_DescribeNetworkInterfaces (Svc (the_client pf cfg))
      [Filter ''tag:Name'' [eni_tag pf cfg]] w1 = (Inr [], w2)"
    and "\<forall>input. svc_CreateNetworkInterface (Svc (the_client pf cfg)) input w2 = (Inl err, w3)"
  shows "GetOrCreateEniNode pf s =
    (s\<lparr>world := w3, counters := (counters s)(CreateENIErrors := Suc (counters s CreateENIErrors))\<rparr>,
     Ret (Inr \<lparr>en_name = ''fargate-'', en_hostname = ''fargate-'', en_lastTransitionTime = clock s\<rparr>))"
  using assms
  by (simp add: GetOrCreateEniNode_start getOrCreateNodeName_def GetNetworkInterfaceByTagName_run
      CreateNetworkInterface_def client_CreateNetworkInterface_def andthen_run call_run ret_run Now_run Inc_run)

theorem failed_interface_still_names_node_witness:
  "let pf = cloud_platform\<lparr>ec2_NewFromConfig := (\<lambda>_. cloud_service\<lparr>svc_CreateNetworkInterface :=
        (\<lambda>_ w. (Inl (ErrorString ''AddressLimitExceeded''), w))\<rparr>)\<rparr>
   in \<exists>node. snd (GetOrCreateEniNode pf (sample_kube empty_cloud)) = Ret (Inr node) \<and>
        en_name node = ''fargate-''"
proof -
  let ?svc = "cloud_service\<lparr>svc_CreateNetworkInterface :=
        (\<lambda>_ w. (Inl (ErrorString ''AddressLimitExceeded''), w))\<rparr>"
  let ?pf = "cloud_platform\<lparr>ec2_NewFromConfig := (\<lambda>_. ?svc)\<rparr>"
  have svc: "Svc (the_client ?pf sample_config) = ?svc" by (simp add: the_client_def)
  have "ManagementSubnet sample_config \<noteq> []"
    by (simp add: sample_config_def empty_config_def defaults_defs)
  then show ?thesis
    using failed_interface_still_names_node [of "sample_kube empty_cloud" sample_config ?pf empty_cloud
        empty_cloud "ErrorString ''AddressLimitExceeded''" empty_cloud]
    by (simp add: svc sample_kube_def eni_tag_def sdk_loads_def empty_cloud_def)
qed

text \<open>The description given to Kubernetes: one ready node whose name and hostname label are the ENI's.\<close>

lemma Configure_describes:
  "\<exists>node. Configure en s = (s, Ret node) \<and> NodeObjectName node = en_name en \<and>
     lookup (Labels node) ''kubernetes.io/hostname'' = Some (en_hostname en) \<and>
     lookup (Labels node) ''beta.kubernetes.io/os'' = Some ''linux'' \<and>
     Capacity node = Allocatable node \<and>
     [NodeConditionType c. c \<leftarrow> NodeConditions node, NodeConditionStatus c = ''True''] =
       [''Ready'', ''KubeletConfigOk'']"
proof -
  have "to_lower DefaultOperatingSystem = ''linux''" by code_simp
  then show ?thesis
    by (simp add: Configure_def Now_run andthen_run ret_run Let_def lookup_def)
qed

end
