(* ===== verification/Compute.thy ===== *)
theory Compute
  imports Eni_Node Pod_Cache Warm_Pool_Facts
begin

text \<open>
  \<open>internal/ec2provider/compute.go\<close>: where a pod's instance comes from (the one it already has, the warm
  pool, or a new launch) and how it is given back.
\<close>

section \<open>The provider structure\<close>

record 'w computeManager =
  cm_ec2Client :: "'w Client"

text \<open>
  The fields of \<open>Ec2Provider\<close> that are set once; the cache \<open>pods\<close> and the callback \<open>podNotifier\<close>, which
  change, are in the state \<open>prov\<close>.  The remaining fields are never used.
\<close>

record 'w Ec2Provider =
  ProviderNodeName :: string
  ProviderEniNode :: EniNode
  computeManager :: "'w computeManager"
  defaultHandler :: nat
  warmPool :: "'w WarmPoolManager"

definition NewComputeManager ::
  "('w, 'e) sdk_scheme \<Rightarrow> (('w, 'z) base_scheme, go_error + 'w computeManager) go" where
  "NewComputeManager sdk =
     andthen (NewEc2Client sdk) (\<lambda>c. case c of
       Inl err \<Rightarrow> ret (Inl err)
     | Inr client \<Rightarrow> ret (Inr \<lparr>cm_ec2Client = client\<rparr>))"

section \<open>Getting and deleting compute\<close>

definition instance_id_key :: string where
  "instance_id_key = ''compute.amazonaws.com/instance-id''"

definition podHasInstance ::
  "('w, 'e) sdk_scheme \<Rightarrow> pod_ref \<Rightarrow> (('w, 'z) kube_scheme, bool) go" where
  "podHasInstance sdk r =
     andthen (load_pod r) (\<lambda>p.
     (let podInstanceID = annotation p instance_id_key in
      if podInstanceID \<noteq> [] then
        andthen (NewEc2Client sdk) (\<lambda>c. case c of
          Inl err \<Rightarrow> ret False
        | Inr ec2Client \<Rightarrow>
            andthen (DescribeInstanceStatus ec2Client [podInstanceID]) (\<lambda>res. case res of
              Inl err \<Rightarrow> ret False
            | Inr None \<Rightarrow> ret False
            | Inr (Some statuses) \<Rightarrow>
                if length statuses \<noteq> 1 then ret False
                else (case statuses ! 0 of
                  None \<Rightarrow> ret False
                | Some name \<Rightarrow> if name = ''running'' then ret True else ret False)))
      else ret False))"

text \<open>The error of the user data is overwritten, and the user data is then empty.\<close>

definition createCompute ::
  "('w, 'e) sdk_scheme \<Rightarrow> pod_ref \<Rightarrow> (('w, 'z) kube_scheme, go_error + string \<times> string) go" where
  "createCompute sdk r =
     andthen Config (\<lambda>cfg.
     andthen (GenerateVKVMUserData sdk (S3Bucket (BootstrapConf cfg)) (S3Key (BootstrapConf cfg))
       (VMInitData (VMConf cfg)) (AgentInitData (BootstrapConf cfg))) (\<lambda>ud.
     (let finalUserData = (case ud of Inl _ \<Rightarrow> [] | Inr u \<Rightarrow> u) in
      andthen (CreateEC2 sdk r finalUserData (S3Bucket (BootstrapConf cfg)) (S3Key (BootstrapConf cfg)))
        (\<lambda>created. case created of
          Inl err \<Rightarrow> ret (Inl (ErrorString (''failed to create ec2 instance, error : '' @ Error err @ '' '')))
        | Inr instanceID \<Rightarrow>
            andthen (GetPrivateIP sdk instanceID) (\<lambda>ip. case ip of
              Inl err \<Rightarrow> ret (Inl err)
            | Inr privateIP \<Rightarrow>
                andthen (update_pod r (\<lambda>p. p\<lparr>Status := (Status p)\<lparr>PodIP := privateIP\<rparr>\<rparr>)) (\<lambda>_.
                ret (Inr (instanceID, privateIP))))))))"

definition GetCompute ::
  "('w, 'e) sdk_scheme \<Rightarrow> 'w Ec2Provider \<Rightarrow> pod_ref \<Rightarrow>
   (('w, 'z) warm_scheme, go_error + string \<times> string) go" where
  "GetCompute sdk p r =
     andthen (podHasInstance sdk r) (\<lambda>has.
     if has then
       andthen (load_pod r) (\<lambda>pod. ret (Inr (annotation pod instance_id_key, PodIP (Status pod))))
     else
       andthen (load_pod r) (\<lambda>pod.
       if PodIsWarmPool pod (length (wpm_config (warmPool p))) then
         andthen (GetWarmPoolInstanceIfExist (warmPool p)) (\<lambda>(instanceID, privateIP, instanceFound).
         if instanceFound then
           andthen (set_annotation r instance_id_key instanceID) (\<lambda>_.
           andthen (update_pod r (\<lambda>pod. pod\<lparr>Status := (Status pod)\<lparr>PodIP := privateIP\<rparr>\<rparr>)) (\<lambda>_.
           andthen (load_pod r) (\<lambda>pod.
           andthen (updateEC2Tags (warmPool p) instanceID ''set_pod'' pod) (\<lambda>err. case err of
             Some e \<Rightarrow> ret (Inl e)
           | None \<Rightarrow> ret (Inr (instanceID, privateIP))))))
         else ret (Inl (ErrorString ''no instance in 'Ready' state'')))
       else createCompute sdk r))"

definition deleteCompute ::
  "('w, 'e) sdk_scheme \<Rightarrow> pod_ref \<Rightarrow> (('w, 'z) kube_scheme, go_error option) go" where
  "deleteCompute sdk r =
     andthen (load_pod r) (\<lambda>p.
     andthen (TerminateEC2 sdk (annotation p instance_id_key)) (\<lambda>res.
     ret (case res of Inl err \<Rightarrow> Some err | Inr _ \<Rightarrow> None)))"

definition DeleteCompute ::
  "('w, 'e) sdk_scheme \<Rightarrow> pod_ref \<Rightarrow> (('w, 'z) kube_scheme, go_error option) go" where
  "DeleteCompute sdk r = deleteCompute sdk r"

section \<open>Reuse\<close>

text \<open>EC2 says that exactly one instance has this id and that it is running.\<close>

definition says_running :: "(go_error + string option list option) \<Rightarrow> bool" where
  "says_running res \<longleftrightarrow> res = Inr (Some [Some ''running''])"

lemma podHasInstance_run:
  assumes "config s = Some cfg" and "sdk_loads sdk cfg (world s) w1" and "pods_at s r = Some p"
    and "annotation p instance_id_key \<noteq> []"
    and "svc_DescribeInstanceStatus (Svc (the_client sdk cfg)) [annotation p instance_id_key] w1 = (res, w2)"
  shows "podHasInstance sdk r s = (s\<lparr>world := w2\<rparr>, Ret (says_running res))"
  using assms
  by (auto simp: podHasInstance_def andthen_load_pod andthen_NewEc2Client DescribeInstanceStatus_def
      andthen_call ret_run says_running_def Let_def length_1_conv split: sum.splits option.splits)

lemma podHasInstance_none:
  "pods_at s r = Some p \<Longrightarrow> annotation p instance_id_key = [] \<Longrightarrow> podHasInstance sdk r s = (s, Ret False)"
  by (simp add: podHasInstance_def andthen_load_pod ret_run)

lemma GetCompute_reuse_run:
  assumes "config s = Some cfg" and "sdk_loads sdk cfg (world s) w1" and "pods_at s r = Some p"
    and "annotation p instance_id_key = iid" and "iid \<noteq> []"
    and "svc_DescribeInstanceStatus (Svc (the_client sdk cfg)) [iid] w1 =
      (Inr (Some [Some ''running'']), w2)"
  shows "GetCompute sdk prov r s = (s\<lparr>world := w2\<rparr>, Ret (Inr (iid, PodIP (Status p))))"
proof -
  have "podHasInstance sdk r s = (s\<lparr>world := w2\<rparr>, Ret True)"
    using podHasInstance_run [OF assms(1-3)] assms(4-6) by (simp add: says_running_def)
  then show ?thesis
    using assms(3,4) by (simp add: GetCompute_def andthen_run load_pod_run ret_run)
qed

text \<open>
  C17: a pod whose annotation names a running instance keeps it: creating the pod again (after a restart of
  the provider, or of a pod controller) launches and takes nothing, whatever the warm pool is: the only
  AWS call is the status query, and the state of the warm pool, the pod and the counters are as before.
\<close>

theorem GetCompute_reuses_instance:
  fixes s :: "('w, 'z) warm_scheme"
  assumes "config s = Some cfg" and "sdk_loads sdk cfg (world s) w1" and "pods_at s r = Some p"
    and "annotation p instance_id_key = iid" and "iid \<noteq> []"
    and "svc_DescribeInstanceStatus (Svc (the_client sdk cfg)) [iid] w1 =
      (Inr (Some [Some ''running'']), w2)"
  shows "GetCompute sdk prov r s = (s\<lparr>world := w2\<rparr>, Ret (Inr (iid, PodIP (Status p))))"
  by (rule GetCompute_reuse_run [OF assms])

section \<open>The warm pool\<close>

text \<open>Every entry of the maps is one of the instances, in the map of its status.\<close>

definition described :: "ec2_instance list \<Rightarrow> vk_state \<Rightarrow> bool" where
  "described is vk \<longleftrightarrow> (\<forall>q k e. lookup (entries (pool_map q vk)) k = Some e \<longrightarrow>
     (\<exists>i \<in> set is. InstanceId i = Some k \<and> PrivateIpAddress i = Some (PrivateIP e) \<and>
       classify i = Some q) \<and> InfoInstanceID e = k)"

lemma described_add:
  assumes "vk_ok vk" and "complete i" and "i \<in> set is" and "described is vk"
  shows "described is (add_instance i vk)"
proof (cases "classify i")
  case None
  then show ?thesis using assms(4) by (simp add: add_instance_def)
next
  case (Some p)
  obtain iid ip where f: "InstanceId i = Some iid" "PrivateIpAddress i = Some ip"
    using assms(2) by (auto simp: complete_def)
  have ok: "go_map_ok (entries (pool_map q vk))" for q
    using assms(1) unfolding vk_ok_def by (auto split: option.splits dest: spec [of _ q])
  show ?thesis
    unfolding described_def
  proof (intro allI impI)
    fix q k e
    assume l: "lookup (entries (pool_map q (add_instance i vk))) k = Some e"
    show "(\<exists>i \<in> set is. InstanceId i = Some k \<and> PrivateIpAddress i = Some (PrivateIP e) \<and>
        classify i = Some q) \<and> InfoInstanceID e = k"
    proof (cases "q = p \<and> k = iid")
      case True
      then have "e = fresh_info iid ip"
        using l Some f ok by (simp add: add_instance_def pool_map_put_pool gm.look_put)
      then show ?thesis
        using True assms(3) Some f by (auto simp: fresh_info_def)
    next
      case False
      then have "lookup (entries (pool_map q vk)) k = Some e"
        using l Some f ok by (auto simp: add_instance_def pool_map_put_pool gm.look_put split: if_splits)
      then show ?thesis using assms(4) unfolding described_def by blast
    qed
  qed
qed

lemma described_fold:
  "set js \<subseteq> set is \<Longrightarrow> list_all complete js \<Longrightarrow> vk_ok vk \<Longrightarrow> described is vk \<Longrightarrow>
   described is (fold add_instance js vk) \<and> vk_ok (fold add_instance js vk)"
  by (induction js arbitrary: vk) (auto simp: described_add vk_ok_add_instance)

lemma described_empty: "described is empty_vk_state"
  unfolding described_def
proof (intro allI impI)
  fix q k e assume "lookup (entries (pool_map q empty_vk_state)) k = Some e"
  then show "(\<exists>i \<in> set is. InstanceId i = Some k \<and> PrivateIpAddress i = Some (PrivateIP e) \<and>
      classify i = Some q) \<and> InfoInstanceID e = k"
    by (cases q) (simp_all add: empty_vk_state_def gm.look_empty)
qed

text \<open>
  A refresh while \<open>CreateTags\<close> may fail: an instance whose change from pending to ready cannot be tagged
  is left out of the maps.
\<close>

definition tag_refused :: "'w Client \<Rightarrow> string \<Rightarrow> bool" where
  "tag_refused client iid \<longleftrightarrow>
     (\<exists>input w. Resources input = [iid] \<and> isl (fst (svc_CreateTags (Svc client) input w)))"

definition stays_pending :: "'w Client \<Rightarrow> ec2_instance \<Rightarrow> bool" where
  "stays_pending client i \<longleftrightarrow> status_of i = Some operationPendingWarmpool \<and>
     tag_refused client (the (InstanceId i))"

lemma updateEC2Tags_outcome:
  fixes s :: "('w, 'z) warm_scheme"
  assumes "config s = Some cfg"
  shows "\<exists>input w n err. Resources input = [iid] \<and>
    updateEC2Tags wpm iid reason p s =
      (s\<lparr>world := w, counters := (counters s)(EC2TagCreationErrors := n)\<rparr>, Ret err) \<and>
    svc_CreateTags (Svc (wpm_ec2Client wpm)) input (world s) =
      (case err of None \<Rightarrow> Inr () | Some e \<Rightarrow> Inl e, w)"
proof -
  obtain spec where tags: "populateEC2Tags reason p s = (s, Ret [spec])"
    using populateEC2Tags_run [OF assms] by blast
  let ?in = "\<lparr>Resources = [iid], NewTags = Tags spec\<rparr>"
  let ?n = "counters s EC2TagCreationErrors"
  have same: "(counters s)(EC2TagCreationErrors := ?n) = counters s" by simp
  obtain r w where r: "svc_CreateTags (Svc (wpm_ec2Client wpm)) ?in (world s) = (r, w)" by fastforce
  note run = updateEC2Tags_def andthen_run index_def CreateTags_def call_run ret_run Inc_run
  show ?thesis
  proof (cases r)
    case (Inl e)
    with tags r show ?thesis
      by (intro exI [of _ ?in] exI [of _ w] exI [of _ "Suc ?n"] exI [of _ "Some e"]) (simp add: run)
  next
    case (Inr u)
    with tags r show ?thesis
      by (intro exI [of _ ?in] exI [of _ w] exI [of _ ?n] exI [of _ None]) (simp add: run)
  qed
qed

lemma load_status_tag_outcome:
  fixes s :: "('w, 'z) warm_scheme"
  assumes "config s = Some cfg" and "vk_ok (VKState s)"
    and "InstanceId i = Some iid" and "PrivateIpAddress i = Some ip" and "InstanceState i = Some st"
    and "TagKey t = Some status_key" and "TagValue t = Some v"
  shows "\<exists>w n vk. load_tag wpm i t s =
      (s\<lparr>world := w, counters := (counters s)(EC2TagCreationErrors := n), VKState := vk\<rparr>, Ret ()) \<and>
    (vk = (case classify_status v (Some st) of
        None \<Rightarrow> VKState s | Some p \<Rightarrow> put_pool p iid (fresh_info iid ip) (VKState s)) \<or>
     vk = VKState s \<and> v = operationPendingWarmpool \<and> tag_refused (wpm_ec2Client wpm) iid)"
proof (cases "v = operationPendingWarmpool \<and> st = ''running''")
  case True
  from updateEC2Tags_outcome [OF assms(1), of iid wpm setReady empty_pod] obtain input w n err where
    u: "Resources input = [iid]" "updateEC2Tags wpm iid setReady empty_pod s =
      (s\<lparr>world := w, counters := (counters s)(EC2TagCreationErrors := n)\<rparr>, Ret err)"
      "svc_CreateTags (Svc (wpm_ec2Client wpm)) input (world s) =
        (case err of None \<Rightarrow> Inr () | Some e \<Rightarrow> Inl e, w)" by blast
  show ?thesis
  proof (cases err)
    case None
    then show ?thesis
      using True assms(2-7) u(2)
      by (intro exI [of _ w] exI [of _ n] exI [of _ "put_pool InReady iid (fresh_info iid ip) (VKState s)"])
        (simp add: load_tag_def status_key_def with_info_def andthen_run put_runs)
  next
    case (Some e)
    then have "tag_refused (wpm_ec2Client wpm) iid" using u(1,3) unfolding tag_refused_def
      by (intro exI [of _ input] exI [of _ "world s"]) simp
    then show ?thesis
      using True assms(2-7) u(2) Some
      by (intro exI [of _ w] exI [of _ n] exI [of _ "VKState s"])
        (simp add: load_tag_def status_key_def andthen_run ret_run)
  qed
next
  case False
  have same: "(counters s)(EC2TagCreationErrors := counters s EC2TagCreationErrors) = counters s" by simp
  show ?thesis
    using False assms(2-7)
    by (intro exI [of _ "world s"] exI [of _ "counters s EC2TagCreationErrors"])
      (auto simp: load_tag_def status_key_def with_info_def put_runs ret_run)
qed

lemma load_instance_outcome:
  fixes s :: "('w, 'z) warm_scheme"
  assumes "config s = Some cfg" and "vk_ok (VKState s)" and "complete i"
  shows "\<exists>w n vk. load_instance wpm i s =
      (s\<lparr>world := w, counters := (counters s)(EC2TagCreationErrors := n), VKState := vk\<rparr>, Ret ()) \<and>
    (vk = add_instance i (VKState s) \<or> vk = VKState s \<and> stays_pending (wpm_ec2Client wpm) i)"
proof (cases "find (\<lambda>t. TagKey t = Some status_key) (InstanceTags i)")
  case None
  then have "load_tag wpm i t s = (s, Ret ())" if "t \<in> set (InstanceTags i)" for t
    using that assms(3) by (auto simp: complete_def list_all_iff find_None_iff intro: load_other_tag)
  then have "load_instance wpm i s = (s, Ret ())"
    unfolding load_instance_def by (rule for_each_same)
  with None show ?thesis
    by (intro exI [of _ "world s"] exI [of _ "counters s EC2TagCreationErrors"] exI [of _ "VKState s"])
      (simp add: add_instance_def classify_def status_of_def)
next
  case (Some t)
  obtain xs ys where ts: "InstanceTags i = xs @ t # ys" and key: "TagKey t = Some status_key"
    and skip: "\<And>us s' :: ('w, 'z) warm_scheme. set us \<subseteq> set xs \<union> set ys \<Longrightarrow>
      for_each (load_tag wpm i) us s' = (s', Ret ())"
    using status_tag_alone [OF assms(3) Some] by blast
  obtain iid ip st v where f: "InstanceId i = Some iid" "PrivateIpAddress i = Some ip"
      "InstanceState i = Some st" "TagValue t = Some v"
    using assms(3) ts by (auto simp: complete_def)
  from load_status_tag_outcome [OF assms(1,2) f(1-3) key f(4)] obtain w n vk where
    l: "load_tag wpm i t s =
      (s\<lparr>world := w, counters := (counters s)(EC2TagCreationErrors := n), VKState := vk\<rparr>, Ret ())"
    "vk = (case classify_status v (Some st) of
        None \<Rightarrow> VKState s | Some p \<Rightarrow> put_pool p iid (fresh_info iid ip) (VKState s)) \<or>
     vk = VKState s \<and> v = operationPendingWarmpool \<and> tag_refused (wpm_ec2Client wpm) iid" by blast
  have "add_instance i (VKState s) = (case classify_status v (Some st) of
      None \<Rightarrow> VKState s | Some p \<Rightarrow> put_pool p iid (fresh_info iid ip) (VKState s))"
    using Some f by (simp only: add_instance_def classify_def status_of_def option.case option.sel)
  moreover have "status_of i = Some v" using Some f by (simp add: status_of_def)
  ultimately have "vk = add_instance i (VKState s) \<or>
      vk = VKState s \<and> stays_pending (wpm_ec2Client wpm) i"
    using l(2) f(1) by (auto simp: stays_pending_def)
  moreover have "load_instance wpm i s =
      (s\<lparr>world := w, counters := (counters s)(EC2TagCreationErrors := n), VKState := vk\<rparr>, Ret ())"
    unfolding load_instance_def ts for_each_append by (simp add: andthen_run skip l(1))
  ultimately show ?thesis by blast
qed

lemma load_instances_outcome:
  fixes s :: "('w, 'z) warm_scheme"
  assumes "config s = Some cfg" and "vk_ok (VKState s)" and "list_all complete is"
  shows "\<exists>w n js. for_each (load_instance wpm) is s =
      (s\<lparr>world := w, counters := (counters s)(EC2TagCreationErrors := n),
         VKState := fold add_instance js (VKState s)\<rparr>, Ret ()) \<and> set js \<subseteq> set is \<and>
    (\<forall>i \<in> set is. i \<in> set js \<or> stays_pending (wpm_ec2Client wpm) i)"
  using assms
proof (induction "is" arbitrary: s)
  case Nil
  show ?case
    by (intro exI [of _ "world s"] exI [of _ "counters s EC2TagCreationErrors"] exI [of _ "[]"])
      (simp add: ret_run)
next
  case (Cons i "is")
  from load_instance_outcome [of s cfg i wpm] Cons.prems obtain w n vk where
    step: "load_instance wpm i s =
      (s\<lparr>world := w, counters := (counters s)(EC2TagCreationErrors := n), VKState := vk\<rparr>, Ret ())"
      (is "_ = (?t, _)") and
    vk: "vk = add_instance i (VKState s) \<or> vk = VKState s \<and> stays_pending (wpm_ec2Client wpm) i"
    by auto
  have "config ?t = Some cfg" "vk_ok (VKState ?t)" "list_all complete is"
    using Cons.prems vk by (auto simp: vk_ok_add_instance)
  from Cons.IH [OF this] obtain w' n' js where
    rest: "for_each (load_instance wpm) is ?t =
      (?t\<lparr>world := w', counters := (counters ?t)(EC2TagCreationErrors := n'),
         VKState := fold add_instance js (VKState ?t)\<rparr>, Ret ())" "set js \<subseteq> set is"
      "\<forall>i \<in> set is. i \<in> set js \<or> stays_pending (wpm_ec2Client wpm) i" by blast
  have run: "for_each (load_instance wpm) (i # is) s =
      (s\<lparr>world := w', counters := (counters s)(EC2TagCreationErrors := n'),
         VKState := fold add_instance js vk\<rparr>, Ret ())"
    using step rest(1) by (simp add: andthen_run)
  show ?case
  proof (cases "vk = add_instance i (VKState s)")
    case True
    then have "for_each (load_instance wpm) (i # is) s =
        (s\<lparr>world := w', counters := (counters s)(EC2TagCreationErrors := n'),
           VKState := fold add_instance (i # js) (VKState s)\<rparr>, Ret ())" using run by simp
    moreover have "set (i # js) \<subseteq> set (i # is)"
      "\<forall>k \<in> set (i # is). k \<in> set (i # js) \<or> stays_pending (wpm_ec2Client wpm) k"
      using rest(2,3) by auto
    ultimately show ?thesis by blast
  next
    case False
    then have "for_each (load_instance wpm) (i # is) s =
        (s\<lparr>world := w', counters := (counters s)(EC2TagCreationErrors := n'),
           VKState := fold add_instance js (VKState s)\<rparr>, Ret ())" "stays_pending (wpm_ec2Client wpm) i"
      using run vk by simp_all
    moreover from this have "set js \<subseteq> set (i # is)"
      "\<forall>k \<in> set (i # is). k \<in> set js \<or> stays_pending (wpm_ec2Client wpm) k"
      using rest(2,3) by auto
    ultimately show ?thesis by blast
  qed
qed

lemma RefreshWarmPoolFromEC2_outcome:
  fixes s :: "('w, 'z) warm_scheme"
  assumes "config s = Some cfg"
    and "svc_DescribeInstances (Svc (wpm_ec2Client wpm)) (refresh_input s cfg) (world s) = (Inr out, w)"
    and "list_all complete (concat (Reservations out))"
  shows "\<exists>w' n js. RefreshWarmPoolFromEC2 wpm s =
      (s\<lparr>world := w', counters := (counters s)(EC2TagCreationErrors := n),
         VKState := fold add_instance js empty_vk_state\<rparr>, Ret ()) \<and>
    set js \<subseteq> set (concat (Reservations out)) \<and>
    (\<forall>i \<in> set (concat (Reservations out)). i \<in> set js \<or> stays_pending (wpm_ec2Client wpm) i)"
proof -
  let ?s = "s\<lparr>VKState := empty_vk_state, world := w\<rparr>"
  have "config ?s = Some cfg" "vk_ok (VKState ?s)" using assms(1) by (simp_all add: vk_ok_empty)
  from load_instances_outcome [OF this assms(3), of wpm] obtain w' n js where
    run: "for_each (load_instance wpm) (concat (Reservations out)) ?s =
      (?s\<lparr>world := w', counters := (counters ?s)(EC2TagCreationErrors := n),
         VKState := fold add_instance js (VKState ?s)\<rparr>, Ret ())"
    and js: "set js \<subseteq> set (concat (Reservations out))"
      "\<forall>i \<in> set (concat (Reservations out)). i \<in> set js \<or> stays_pending (wpm_ec2Client wpm) i" by blast
  have "RefreshWarmPoolFromEC2 wpm s =
      (s\<lparr>world := w', counters := (counters s)(EC2TagCreationErrors := n),
         VKState := fold add_instance js empty_vk_state\<rparr>, Ret ())"
    using assms(1,2) run
    by (simp add: RefreshWarmPoolFromEC2_def checkEC2TagsForState_def refresh_input_def go_simps heap_runs
        DescribeInstances_def no_input_def for_each_concat again_def)
  with js show ?thesis by blast
qed

lemma GetWarmPoolInstanceIfExist_run:
  fixes s :: "('w, 'z) warm_scheme"
  assumes "config s = Some cfg"
    and "svc_DescribeInstances (Svc (wpm_ec2Client wpm)) (refresh_input s cfg) (world s) = (Inr out, w)"
    and "list_all complete (concat (Reservations out))"
  shows "(\<exists>w' ch n vk i iid ip. GetWarmPoolInstanceIfExist wpm s =
        (s\<lparr>world := w', choices := ch, counters := (counters s)(EC2TagCreationErrors := n), VKState := vk\<rparr>,
         Ret (iid, ip, True)) \<and>
      i \<in> set (concat (Reservations out)) \<and> InstanceId i = Some iid \<and>
      PrivateIpAddress i = Some ip \<and> classify i = Some InReady \<and> iid \<notin> pool_ids InReady vk) \<or>
    (\<exists>w' n vk. GetWarmPoolInstanceIfExist wpm s =
        (s\<lparr>world := w', counters := (counters s)(EC2TagCreationErrors := n), VKState := vk\<rparr>,
         Ret ([], [], False)) \<and>
      (\<forall>i \<in> set (concat (Reservations out)). classify i = Some InReady \<longrightarrow>
         stays_pending (wpm_ec2Client wpm) i))"
proof -
  let ?is = "concat (Reservations out)"
  obtain w' n js where refresh: "RefreshWarmPoolFromEC2 wpm s =
      (s\<lparr>world := w', counters := (counters s)(EC2TagCreationErrors := n),
         VKState := fold add_instance js empty_vk_state\<rparr>, Ret ())"
    and js: "set js \<subseteq> set ?is" "\<forall>i \<in> set ?is. i \<in> set js \<or> stays_pending (wpm_ec2Client wpm) i"
    using RefreshWarmPoolFromEC2_outcome [OF assms] by blast
  let ?vk = "fold add_instance js empty_vk_state"
  let ?m = "entries (ReadyEC2 ?vk)"
  have complete: "list_all complete js" using assms(3) js(1) by (auto simp: list_all_iff)
  have ok: "described js ?vk" "vk_ok ?vk"
    using described_fold [OF subset_refl complete vk_ok_empty described_empty] by blast+
  have m: "go_map_ok ?m" by (rule vk_ok_split(2) [OF ok(2)])
  show ?thesis
  proof (cases "?m = []")
    case True
    then have "pool_ids InReady ?vk = {}" by (auto simp: pool_ids_def lookup_def)
    moreover have "pool_ids InReady ?vk =
        {k. \<exists>i \<in> set js. InstanceId i = Some k \<and> classify i = Some InReady}"
      using pool_ids_fold [OF vk_ok_empty complete, of InReady]
      by (auto simp: pool_ids_def empty_vk_state_def gm.look_empty)
    moreover have "\<exists>k. InstanceId i = Some k" if "i \<in> set js" for i
      using that complete unfolding list_all_iff complete_def by blast
    ultimately have "\<forall>i \<in> set ?is. classify i = Some InReady \<longrightarrow> stays_pending (wpm_ec2Client wpm) i"
      using js(2) by blast
    moreover have "GetWarmPoolInstanceIfExist wpm s =
        (s\<lparr>world := w', counters := (counters s)(EC2TagCreationErrors := n), VKState := ?vk\<rparr>,
         Ret ([], [], False))"
      using True refresh by (simp add: GetWarmPoolInstanceIfExist_def andthen_run gets_run ret_run)
    ultimately show ?thesis by blast
  next
    case False
    let ?t = "s\<lparr>world := w', counters := (counters s)(EC2TagCreationErrors := n), VKState := ?vk\<rparr>"
    obtain k e ch where pop: "pop ?m ?t = (?t\<lparr>choices := ch\<rparr>, Ret (e, delete_key k ?m))"
        "lookup ?m k = Some e"
      using pop_run [OF False m] by blast
    then have "(\<exists>i \<in> set js. InstanceId i = Some k \<and> PrivateIpAddress i = Some (PrivateIP e) \<and>
        classify i = Some InReady) \<and> InfoInstanceID e = k"
      using ok(1) unfolding described_def by (metis pool_map.simps(1))
    then obtain i where i: "i \<in> set ?is" "InstanceId i = Some k" "PrivateIpAddress i = Some (PrivateIP e)"
      "classify i = Some InReady" "InfoInstanceID e = k" using js(1) by blast
    let ?vk' = "?vk\<lparr>ReadyEC2 := Some (delete_key k ?m)\<rparr>"
    have "k \<notin> pool_ids InReady ?vk'"
      by (simp add: pool_ids_def gm.look_del [OF m] domIff)
    moreover have "GetWarmPoolInstanceIfExist wpm s =
        (s\<lparr>world := w', choices := ch, counters := (counters s)(EC2TagCreationErrors := n), VKState := ?vk'\<rparr>,
         Ret (k, PrivateIP e, True))"
      using refresh pop(1) False i(5)
      by (simp add: GetWarmPoolInstanceIfExist_def andthen_run gets_run ret_run modify_run)
    ultimately show ?thesis using i(1-4) by blast
  qed
qed

text \<open>
  The pod at \<open>r\<close> gets the instance \<open>iid\<close>, one of those described as ready; and the result when the
  \<open>set_pod\<close> tagging of that instance, the last call, leaves the world \<open>w'\<close>.
\<close>

definition pod_gets :: "ec2_instance list \<Rightarrow> pod_ref \<Rightarrow> ('w, 'z) warm_scheme \<Rightarrow> ('w, 'z) warm_scheme \<Rightarrow>
  string \<Rightarrow> string \<Rightarrow> bool" where
  "pod_gets is r s t iid ip \<longleftrightarrow>
     (\<exists>i \<in> set is. InstanceId i = Some iid \<and> PrivateIpAddress i = Some ip \<and> classify i = Some InReady) \<and>
     iid \<notin> pool_ids InReady (VKState t) \<and>
     (\<exists>p. pods_at t = (pods_at s)(r \<mapsto> p) \<and> annotation p instance_id_key = iid \<and> PodIP (Status p) = ip)"

definition last_tagging :: "'w Client \<Rightarrow> string \<Rightarrow> string \<Rightarrow> 'w \<Rightarrow> go_error + string \<times> string \<Rightarrow> bool" where
  "last_tagging client iid ip w' res \<longleftrightarrow>
     (\<exists>input w out. Resources input = [iid] \<and> svc_CreateTags (Svc client) input w = (out, w') \<and>
       res = (case out of Inl err \<Rightarrow> Inl err | Inr _ \<Rightarrow> Inr (iid, ip)))"

text \<open>
  C6: with a warm pool configured, a pod without an instance is served from the pool or not at all, and no
  instance is ever launched for it.  Either the pod takes one of the instances EC2 describes as ready: its
  id goes into the annotation, its address into the status, it leaves the ready map, and the result is
  that id and address, unless the final \<open>set_pod\<close> tagging fails, when that error is returned although the
  pod keeps both.  Or there is no ready instance, except perhaps pending ones whose promotion could not be
  tagged, and \<open>GetCompute\<close> fails with \<open>no instance in 'Ready' state\<close> and leaves the pod alone.
  The only counter that can change is that of failed taggings.  (The architecture document says that an
  instance will be launched if no appropriate one exists; the code's comments and its error say otherwise.)
\<close>

theorem GetCompute_from_warm_pool:
  fixes s :: "('w, 'z) warm_scheme"
  assumes "config s = Some cfg" and "pods_at s r = Some p" and "Annotations p = Some m"
    and "annotation p instance_id_key = []" and "wpm_config (warmPool prov) \<noteq> []"
    and "svc_DescribeInstances (Svc (wpm_ec2Client (warmPool prov))) (refresh_input s cfg) (world s) =
      (Inr out, w)" and "list_all complete (concat (Reservations out))"
  shows "\<exists>t res. GetCompute sdk prov r s = (t, Ret res) \<and>
    (\<forall>c. c \<noteq> EC2TagCreationErrors \<longrightarrow> counters t c = counters s c) \<and>
    ((\<exists>iid ip. pod_gets (concat (Reservations out)) r s t iid ip \<and>
        last_tagging (wpm_ec2Client (warmPool prov)) iid ip (world t) res) \<or>
     (res = Inl (ErrorString ''no instance in 'Ready' state'') \<and> pods_at t = pods_at s \<and>
      (\<forall>i \<in> set (concat (Reservations out)). classify i = Some InReady \<longrightarrow>
         stays_pending (wpm_ec2Client (warmPool prov)) i)))"
  using GetWarmPoolInstanceIfExist_run [OF assms(1,6,7)]
proof (elim disjE exE conjE)
  fix w' ch n vk i iid ip
  assume take: "GetWarmPoolInstanceIfExist (warmPool prov) s =
      (s\<lparr>world := w', choices := ch, counters := (counters s)(EC2TagCreationErrors := n), VKState := vk\<rparr>,
       Ret (iid, ip, True))"
    and i: "i \<in> set (concat (Reservations out))" "InstanceId i = Some iid" "PrivateIpAddress i = Some ip"
      "classify i = Some InReady" "iid \<notin> pool_ids InReady vk"
  let ?p = "p\<lparr>Annotations := Some (assign instance_id_key iid m)\<rparr>"
  let ?p' = "?p\<lparr>Status := (Status p)\<lparr>PodIP := ip\<rparr>\<rparr>"
  let ?t = "s\<lparr>world := w', choices := ch, counters := (counters s)(EC2TagCreationErrors := n), VKState := vk,
    pods_at := (pods_at s)(r \<mapsto> ?p')\<rparr>"
  have "config ?t = Some cfg" using assms(1) by simp
  from updateEC2Tags_outcome [OF this, of iid "warmPool prov" "''set_pod''" ?p'] obtain input w'' n' err where
    tag: "Resources input = [iid]" "updateEC2Tags (warmPool prov) iid ''set_pod'' ?p' ?t =
      (?t\<lparr>world := w'', counters := (counters ?t)(EC2TagCreationErrors := n')\<rparr>, Ret err)" (is "_ = (?u, _)")
      "svc_CreateTags (Svc (wpm_ec2Client (warmPool prov))) input (world ?t) =
        (case err of None \<Rightarrow> Inr () | Some e \<Rightarrow> Inl e, w'')" by blast
  let ?res = "case err of None \<Rightarrow> Inr (iid, ip) | Some e \<Rightarrow> Inl e"
  have "GetCompute sdk prov r s = (?u, Ret ?res)"
    using assms(2-5) take tag(2)
    by (cases err) (simp_all add: GetCompute_def andthen_run podHasInstance_none load_pod_run PodIsWarmPool_def
        set_annotation_run update_pod_run ret_run)
  moreover have "last_tagging (wpm_ec2Client (warmPool prov)) iid ip (world ?u) ?res"
    unfolding last_tagging_def using tag(1,3) by (intro exI conjI) (assumption | simp split: option.split)+
  moreover have "annotation ?p' instance_id_key = iid"
    using annotation_assign [where p = "p\<lparr>Status := (Status p)\<lparr>PodIP := ip\<rparr>\<rparr>"] by (simp add: annotation_def)
  then have "pod_gets (concat (Reservations out)) r s ?u iid ip"
    unfolding pod_gets_def using i by (intro conjI bexI [of _ i] exI [of _ ?p']) simp_all
  moreover have "\<forall>c. c \<noteq> EC2TagCreationErrors \<longrightarrow> counters ?u c = counters s c" by simp
  ultimately show ?thesis by blast
next
  fix w' n vk
  assume none: "GetWarmPoolInstanceIfExist (warmPool prov) s =
      (s\<lparr>world := w', counters := (counters s)(EC2TagCreationErrors := n), VKState := vk\<rparr>,
       Ret ([], [], False))" (is "_ = (?t, _)")
    and left: "\<forall>i \<in> set (concat (Reservations out)). classify i = Some InReady \<longrightarrow>
      stays_pending (wpm_ec2Client (warmPool prov)) i"
  have "GetCompute sdk prov r s = (?t, Ret (Inl (ErrorString ''no instance in 'Ready' state'')))"
    using none assms(2,4,5) by (simp add: GetCompute_def andthen_run podHasInstance_none load_pod_run
        PodIsWarmPool_def ret_run)
  moreover have "pods_at ?t = pods_at s" "\<forall>c. c \<noteq> EC2TagCreationErrors \<longrightarrow> counters ?t c = counters s c"
    by simp_all
  ultimately show ?thesis using left by blast
qed

section \<open>Launching\<close>

lemma GetPrivateIP_run:
  assumes "config s = Some cfg" and "sdk_loads sdk cfg (world s) w1"
    and "wait_InstanceRunning (Svc (the_client sdk cfg)) (WaiterSvc (the_client sdk cfg))
      60000000000 (by_id iid) w1 = (None, w2)"
    and "svc_DescribeInstances (Svc (the_client sdk cfg)) (by_id iid) w2 = (Inr out, w3)"
    and "sole_instance out = Some i" and "PrivateIpAddress i = Some ip" and "InstanceState i = Some st"
  shows "GetPrivateIP sdk iid s = (s\<lparr>world := w3\<rparr>, Ret (Inr ip))"
proof -
  have out: "Reservations out = [[i]]"
    using assms(5) by (auto simp: sole_instance_def split: list.splits)
  with assms show ?thesis
    by (simp add: GetPrivateIP_def andthen_NewEc2Client [OF assms(1,2)] NewInstanceRunningWaiter_def
        DescribeInstances_def andthen_call nanoseconds_def ret_run Let_def)
qed

lemma GetPrivateIP_timeout:
  assumes "config s = Some cfg" and "sdk_loads sdk cfg (world s) w1"
    and "wait_InstanceRunning (Svc (the_client sdk cfg)) (WaiterSvc (the_client sdk cfg))
      60000000000 (by_id iid) w1 = (Some err, w2)"
  shows "GetPrivateIP sdk iid s =
    (s\<lparr>world := w2\<rparr>, Ret (Inl (ErrorString (Error err @ '' , Input instanceId :'' @ iid))))"
  using assms
  by (simp add: GetPrivateIP_def andthen_NewEc2Client [OF assms(1,2)] NewInstanceRunningWaiter_def
      andthen_call nanoseconds_def ret_run)

text \<open>The user data the launch gets: none at all when the bootstrap URL cannot be signed.\<close>

definition launch_data :: "ProviderConfig \<Rightarrow> go_error + string \<Rightarrow> string" where
  "launch_data cfg out = (case out of
     Inl _ \<Rightarrow> []
   | Inr url \<Rightarrow> EncodeUserData (EncodeUserData (replaceHTMLEscapes (marshal_user_data
       \<lparr>VmInit = VMInitData (VMConf cfg), UserBootstrapAgent = AgentInitData (BootstrapConf cfg),
        PresignedURL = url\<rparr>))))"

text \<open>
  \<open>launches\<close>: AWS signs or refuses the URL (\<open>presigned\<close>), then launches one instance, named \<open>iid\<close>, for the
  request made of pod \<open>p\<close>; this takes the world from \<open>w\<close> to \<open>w'\<close>.
\<close>

definition launches ::
  "('w, 'e) sdk_scheme \<Rightarrow> ProviderConfig \<Rightarrow> pod \<Rightarrow> nat \<Rightarrow> go_error + string \<Rightarrow> string \<Rightarrow> 'w \<Rightarrow> 'w \<Rightarrow> bool" where
  "launches sdk cfg p order presigned iid w w' \<longleftrightarrow> (\<exists>w1 w2 w3 inst.
     sdk_loads sdk cfg w w1 \<and>
     PresignGetObject_op sdk (http_settings cfg)
       (S3Bucket (BootstrapConf cfg), S3Key (BootstrapConf cfg)) w1 = (presigned, w2) \<and>
     sdk_loads sdk cfg w2 w3 \<and>
     runs_instance sdk cfg (launch_request p (pod_tags sdk p order) (launch_data cfg presigned)) w3
       (Inr [inst]) w' \<and> InstanceId inst = Some iid)"

lemma CreateEC2_step:
  assumes "config s = Some cfg" and "pods_at s r = Some p" and "Annotations p = Some m"
    and "launches sdk cfg p (next_order s) presigned iid (world s) w"
  shows "createCompute sdk r s =
    andthen (GetPrivateIP sdk iid) (\<lambda>ip. case ip of
        Inl err \<Rightarrow> ret (Inl err)
      | Inr privateIP \<Rightarrow>
          andthen (update_pod r (\<lambda>p. p\<lparr>Status := (Status p)\<lparr>PodIP := privateIP\<rparr>\<rparr>)) (\<lambda>_.
          ret (Inr (iid, privateIP))))
      (s\<lparr>world := w, choices := tl (choices s),
         pods_at := (pods_at s)(r \<mapsto> p\<lparr>Annotations := Some (assign instance_id_key iid m)\<rparr>),
         counters := (counters s)(EC2Launched := Suc (counters s EC2Launched))\<rparr>)"
proof -
  obtain w1 w2 w3 inst where l: "sdk_loads sdk cfg (world s) w1"
     "PresignGetObject_op sdk (http_settings cfg)
       (S3Bucket (BootstrapConf cfg), S3Key (BootstrapConf cfg)) w1 = (presigned, w2)"
     "sdk_loads sdk cfg w2 w3"
     "runs_instance sdk cfg (launch_request p (pod_tags sdk p (next_order s)) (launch_data cfg presigned)) w3
       (Inr [inst]) w" "InstanceId inst = Some iid"
    using assms(4) unfolding launches_def by (elim exE conjE) (rule that)
  let ?s = "s\<lparr>world := w2\<rparr>"
  have s2: "config ?s = Some cfg" "sdk_loads sdk cfg (world ?s) w3" "pods_at ?s r = Some p"
    "next_order ?s = next_order s"
    using assms(1,2) l(3) by (simp_all add: next_order_def)
  have "createCompute sdk r s =
    andthen (CreateEC2 sdk r (launch_data cfg presigned) (S3Bucket (BootstrapConf cfg)) (S3Key (BootstrapConf cfg)))
        (\<lambda>created. case created of
          Inl err \<Rightarrow> ret (Inl (ErrorString (''failed to create ec2 instance, error : '' @ Error err @ '' '')))
        | Inr instanceID \<Rightarrow>
            andthen (GetPrivateIP sdk instanceID) (\<lambda>ip. case ip of
              Inl err \<Rightarrow> ret (Inl err)
            | Inr privateIP \<Rightarrow>
                andthen (update_pod r (\<lambda>p. p\<lparr>Status := (Status p)\<lparr>PodIP := privateIP\<rparr>\<rparr>)) (\<lambda>_.
                ret (Inr (instanceID, privateIP))))) ?s"
    by (cases presigned) (simp_all only: createCompute_def andthen_Config [OF assms(1)] Let_def
        andthen_run [of "GenerateVKVMUserData _ _ _ _ _"] GenerateVKVMUserData_run [OF assms(1) l(1,2)]
        launch_data_def sum.case prod.case outcome.case)
  also have "\<dots> = andthen (GetPrivateIP sdk iid) (\<lambda>ip. case ip of
        Inl err \<Rightarrow> ret (Inl err)
      | Inr privateIP \<Rightarrow>
          andthen (update_pod r (\<lambda>p. p\<lparr>Status := (Status p)\<lparr>PodIP := privateIP\<rparr>\<rparr>)) (\<lambda>_.
          ret (Inr (iid, privateIP))))
      (s\<lparr>world := w, choices := tl (choices s),
         pods_at := (pods_at s)(r \<mapsto> p\<lparr>Annotations := Some (assign instance_id_key iid m)\<rparr>),
         counters := (counters s)(EC2Launched := Suc (counters s EC2Launched))\<rparr>)"
    using l(4,5) assms(3)
    by (simp add: andthen_run [of "CreateEC2 _ _ _ _ _"] s2(4) instance_id_key_def Let_def
        CreateEC2_run [OF s2(1-3), unfolded s2(4), OF l(4)])
  finally show ?thesis .
qed

text \<open>
  C7: without a warm pool, a pod without an instance gets one launched for it alone: one launch, whose
  request is read off the pod's annotations; the pod then carries the new id and the address EC2
  describes once the instance runs.  The launch goes ahead with empty user data, so without its
  bootstrap agent, when the URL of the agent cannot be signed.
\<close>

theorem GetCompute_launches_for_pod:
  fixes s :: "('w, 'z) warm_scheme"
  assumes "config s = Some cfg" and "pods_at s r = Some p" and "Annotations p = Some m"
    and "annotation p instance_id_key = []" and "wpm_config (warmPool prov) = []"
    and "launches sdk cfg p (next_order s) presigned iid (world s) w" and "sdk_loads sdk cfg w w1"
    and "wait_InstanceRunning (Svc (the_client sdk cfg)) (WaiterSvc (the_client sdk cfg))
      60000000000 (by_id iid) w1 = (None, w2)"
    and "svc_DescribeInstances (Svc (the_client sdk cfg)) (by_id iid) w2 = (Inr out, w3)"
    and "sole_instance out = Some i" and "PrivateIpAddress i = Some ip" and "InstanceState i = Some st"
  shows "\<exists>t p'. GetCompute sdk prov r s = (t, Ret (Inr (iid, ip))) \<and>
    pods_at t = (pods_at s)(r \<mapsto> p') \<and> annotation p' instance_id_key = iid \<and> PodIP (Status p') = ip \<and>
    world t = w3 \<and> VKState t = VKState s \<and>
    counters t = (counters s)(EC2Launched := Suc (counters s EC2Launched)) \<and>
    (isl presigned \<longrightarrow> launch_data cfg presigned = [])"
proof -
  let ?p = "p\<lparr>Annotations := Some (assign instance_id_key iid m)\<rparr>"
  let ?p' = "?p\<lparr>Status := (Status p)\<lparr>PodIP := ip\<rparr>\<rparr>"
  let ?s = "s\<lparr>world := w, choices := tl (choices s), pods_at := (pods_at s)(r \<mapsto> ?p),
     counters := (counters s)(EC2Launched := Suc (counters s EC2Launched))\<rparr>"
  have "config ?s = Some cfg" "sdk_loads sdk cfg (world ?s) w1" using assms(1,7) by simp_all
  note ip = GetPrivateIP_run [OF this assms(8-12)]
  have "annotation ?p' instance_id_key = iid"
    using annotation_assign [where p = "p\<lparr>Status := (Status p)\<lparr>PodIP := ip\<rparr>\<rparr>"] by (simp add: annotation_def)
  moreover have "GetCompute sdk prov r s = createCompute sdk r s"
    using assms(2,4,5)
    by (simp add: GetCompute_def andthen_run podHasInstance_none load_pod_run PodIsWarmPool_def)
  moreover have "createCompute sdk r s =
      (?s\<lparr>world := w3, pods_at := (pods_at s)(r \<mapsto> ?p')\<rparr>, Ret (Inr (iid, ip)))"
    using CreateEC2_step [OF assms(1-3,6)] ip
    by (simp add: andthen_run update_pod_run ret_run)
  ultimately show ?thesis
    by (intro exI [of _ "?s\<lparr>world := w3, pods_at := (pods_at s)(r \<mapsto> ?p')\<rparr>"] exI [of _ ?p'])
      (simp add: launch_data_def split: sum.splits)
qed

section \<open>Concrete runs\<close>

definition sample_provider :: "WarmPoolConfig list \<Rightarrow> cloud Ec2Provider" where
  "sample_provider pools = \<lparr>ProviderNodeName = ''fargate-ip-10-0-0-3'',
     ProviderEniNode = \<lparr>en_name = ''fargate-ip-10-0-0-3'', en_hostname = ''fargate-ip-10-0-0-3'',
       en_lastTransitionTime = 0\<rparr>,
     computeManager = \<lparr>cm_ec2Client = the_client cloud_sdk sample_config\<rparr>,
     defaultHandler = 1, warmPool = sample_wpm pools\<rparr>"

definition with_instance :: "string \<Rightarrow> pod \<Rightarrow> pod" where
  "with_instance iid p = p\<lparr>Annotations := Some [(instance_id_key, iid)]\<rparr>"

lemma annotation_with_instance [simp]:
  "annotation (with_instance iid p) instance_id_key = iid"
  "Status (with_instance iid p) = Status p"
  "PodName (with_instance iid p) = PodName p" "Namespace (with_instance iid p) = Namespace p"
  by (simp_all add: annotation_def with_instance_def lookup_def)

lemma annotation_sample [simp]: "annotation sample_pod k = []"
  by (simp add: annotation_def sample_pod_def lookup_def)

theorem GetCompute_reuses_instance_witness:
  "let s = (sample_prov (empty_cloud\<lparr>vms := [sample_vm ''i-7'' ''running'' ''x'']\<rparr>) make_map)
        \<lparr>pods_at := [0 \<mapsto> with_instance ''i-7'' sample_pod]\<rparr>
   in GetCompute cloud_platform (sample_provider []) 0 s = (s, Ret (Inr (''i-7'', ''10.0.0.7'')))"
proof -
  let ?w = "empty_cloud\<lparr>vms := [sample_vm ''i-7'' ''running'' ''x'']\<rparr>"
  let ?s = "(sample_prov ?w make_map)\<lparr>pods_at := [0 \<mapsto> with_instance ''i-7'' sample_pod]\<rparr>"
  have "svc_DescribeInstanceStatus (Svc (the_client cloud_platform sample_config)) [''i-7''] ?w =
      (Inr (Some [Some ''running'']), ?w)"
    by (simp add: cloud_status_def sample_vm_def)
  then have "GetCompute cloud_platform (sample_provider []) 0 ?s =
      (?s\<lparr>world := ?w\<rparr>, Ret (Inr (''i-7'', PodIP (Status (with_instance ''i-7'' sample_pod)))))"
    by (intro GetCompute_reuses_instance [where cfg = sample_config and ?w1.0 = ?w]) simp_all
  moreover have "?s\<lparr>world := ?w\<rparr> = ?s" by (simp add: sample_prov_def)
  ultimately show ?thesis by (simp add: Let_def) (simp add: sample_pod_def)
qed

theorem GetCompute_from_warm_pool_witness:
  "\<exists>t. GetCompute cloud_platform (sample_provider [sample_pool 1]) 0 (sample_prov ready_cloud make_map) =
      (t, Ret (Inr (''i-7'', ''10.0.0.5''))) \<and>
    map_option (\<lambda>p. annotation p instance_id_key) (pods_at t 0) = Some ''i-7''"
proof -
  let ?s = "sample_prov ready_cloud make_map"
  let ?out = "\<lparr>Reservations = [[ready_vm]], NextToken = None\<rparr>"
  have wpm: "warmPool (sample_provider [sample_pool 1]) = sample_wpm [sample_pool 1]"
    by (simp add: sample_provider_def)
  have node: "nodeName ?s = []" by (simp add: sample_prov_def)
  have "refresh_input ?s sample_config = refresh_input (sample_warm ready_cloud empty_vk_state) sample_config"
    by (simp add: refresh_input_def node)
  then have d: "svc_DescribeInstances (Svc (wpm_ec2Client (warmPool (sample_provider [sample_pool 1]))))
      (refresh_input ?s sample_config) (world ?s) = (Inr ?out, ready_cloud)"
    using describe_ready [of "[sample_pool 1]" empty_vk_state] by (simp add: wpm)
  have "config ?s = Some sample_config" "pods_at ?s 0 = Some sample_pod" "Annotations sample_pod = Some []"
    "annotation sample_pod instance_id_key = []"
    "wpm_config (warmPool (sample_provider [sample_pool 1])) \<noteq> []"
    by (simp_all add: wpm sample_wpm_def) (simp add: sample_pod_def)
  note use = GetCompute_from_warm_pool [OF this d, of cloud_platform]
  have "list_all complete (concat (Reservations ?out))" by (simp add: ready_vm_facts)
  note use = use [OF this]
  have tags: "svc_CreateTags (Svc (wpm_ec2Client (warmPool (sample_provider [sample_pool 1])))) = cloud_tag"
    by (simp add: wpm sample_wpm_def)
  have "\<not> stays_pending c ready_vm" for c :: "cloud Client"
    using ready_vm_facts(2) by (simp add: stays_pending_def operations)
  moreover have "PrivateIpAddress ready_vm = Some ''10.0.0.5''" by (simp add: ready_vm_def sample_vm_def)
  ultimately show ?thesis using use ready_vm_facts(3,4)
    by (auto simp: tags cloud_tag_def pod_gets_def last_tagging_def)
qed

theorem GetCompute_launches_for_pod_witness:
  "\<exists>t. GetCompute cloud_platform (sample_provider []) 0 (sample_prov empty_cloud make_map) =
      (t, Ret (Inr (''i-1'', ''10.0.0.1''))) \<and> length (vms (world t)) = 1 \<and> counters t EC2Launched = 1"
proof -
  let ?s = "sample_prov empty_cloud make_map"
  let ?url = "Inr (''https://'' @ S3Bucket (BootstrapConf sample_config) @ ''/'' @
    S3Key (BootstrapConf sample_config))"
  let ?in = "launch_request sample_pod (pod_tags cloud_platform sample_pod (next_order ?s))
    (launch_data sample_config ?url)"
  let ?vm = "hd (projr (fst (cloud_run ?in empty_cloud)))"
  let ?w = "snd (cloud_run ?in empty_cloud)"
  have "InstanceId ?vm = Some ''i-1''"
    by (simp add: cloud_run_def Let_def empty_cloud_def)
  moreover have "runs_instance cloud_platform sample_config ?in empty_cloud (Inr [?vm]) ?w"
    by (simp add: runs_instance_def cloud_run_def Let_def)
  ultimately have l: "launches cloud_platform sample_config sample_pod (next_order ?s) ?url ''i-1'' (world ?s) ?w"
    unfolding launches_def
    by (intro exI [of _ empty_cloud] exI [of _ ?vm] conjI) simp_all
  have f: "config ?s = Some sample_config" "pods_at ?s 0 = Some sample_pod" "Annotations sample_pod = Some []"
    "annotation sample_pod instance_id_key = []" "wpm_config (warmPool (sample_provider [])) = []"
    by (simp_all add: sample_provider_def sample_wpm_def) (simp add: sample_pod_def)
  have ip: "sdk_loads cloud_platform sample_config ?w ?w"
    "wait_InstanceRunning (Svc (the_client cloud_platform sample_config))
       (WaiterSvc (the_client cloud_platform sample_config)) 60000000000 (by_id ''i-1'') ?w = (None, ?w)"
    "svc_DescribeInstances (Svc (the_client cloud_platform sample_config)) (by_id ''i-1'') ?w =
      (Inr \<lparr>Reservations = [[?vm]], NextToken = None\<rparr>, ?w)"
    "sole_instance \<lparr>Reservations = [[?vm]], NextToken = None\<rparr> = Some ?vm"
    "PrivateIpAddress ?vm = Some ''10.0.0.1''" "InstanceState ?vm = Some ''pending''"
    by (simp_all add: cloud_run_def cloud_describe_def Let_def empty_cloud_def by_id_def sole_instance_def)
  have "length (vms ?w) = 1" by (simp add: cloud_run_def Let_def empty_cloud_def)
  moreover have "counters ?s EC2Launched = 0" by (simp add: sample_prov_def)
  ultimately show ?thesis
    using GetCompute_launches_for_pod [OF f l ip] by (auto simp del: One_nat_def)
qed

end
