(* ===== verification/Provider.thy ===== *)
theory Provider
  imports Compute
begin

text \<open>
  \<open>internal/ec2provider/ec2provider.go\<close>: the provider that Virtual Kubelet calls.  It ties the other
  parts together: the pod cache, the pod monitors, the compute manager with its warm pool, the agent's
  client and the notifier of Virtual Kubelet.  \<open>klog\<close> calls are left out unless evaluating their
  arguments can crash.
\<close>

section \<open>Start-up\<close>

text \<open>The loop over \<open>os.Args\<close>, which are \<open>args\<close>; an error of \<open>Set\<close> is ignored.\<close>

definition updateVerbosityLevel ::
  "('w, 'e) platform_scheme \<Rightarrow> string list \<Rightarrow> (('w, 'z) base_scheme, unit) go" where
  "updateVerbosityLevel pf args =
     for_each (\<lambda>(i, arg).
       if arg = ''--klog.v'' then
         andthen (index args (i + 1)) (\<lambda>v. call (set_klog_level pf v))
       else ret ()) (enumerate 0 args)"

text \<open>
  \<open>NewEc2Provider\<close> up to the two goroutines it starts at the end, the metrics endpoint and the status
  loop.  A provider starts without a cache and without a notifier.
\<close>

definition NewEc2Provider ::
  "('w, 'e) platform_scheme \<Rightarrow> string list \<Rightarrow> string \<Rightarrow>
   (('w, 'z) prov_scheme, go_error + 'w Ec2Provider) go" where
  "NewEc2Provider pf args configPath =
     andthen (updateVerbosityLevel pf args) (\<lambda>_.
     andthen (InitConfig (read_config pf) (unmarshal_config pf) (Some (FileLoader configPath))) (\<lambda>_.
     andthen (modify (\<lambda>s. s\<lparr>pods := None, podNotifier := None\<rparr>)) (\<lambda>_.
     andthen (GetOrCreateEniNode pf) (\<lambda>node. case node of
       Inl err \<Rightarrow> ret (Inl err)
     | Inr eniNode \<Rightarrow>
         andthen (NewWarmPool pf) (\<lambda>wp. case wp of
           Inl err \<Rightarrow> die (GoPanic ''handle warm pool instantiation error'')
         | Inr wpm \<Rightarrow>
             andthen (fillAndMaintain pf wpm) (\<lambda>_.
             andthen (NewComputeManager pf) (\<lambda>cm. case cm of
               Inl err \<Rightarrow> die (GoPanic ''handle compute manager instantiation error'')
             | Inr cm \<Rightarrow>
                 andthen NewCheckHandler (\<lambda>handler.
                 ret (Inr \<lparr>ProviderNodeName = en_name eniNode, ProviderEniNode = eniNode,
                   computeManager = cm, defaultHandler = handler, warmPool = wpm\<rparr>)))))))))"

section \<open>Helpers\<close>

text \<open>\<open>launchApplication\<close>: on an error the instance is terminated and the pod leaves the cache.\<close>

definition clean_up :: "('w, 'e) platform_scheme \<Rightarrow> pod_ref \<Rightarrow> (('w, 'z) prov_scheme, unit) go" where
  "clean_up pf r =
     andthen (DeleteCompute pf r) (\<lambda>_.
     andthen (load_pod r) (\<lambda>pod.
     Delete (GetPodCacheKey (Namespace pod) (PodName pod))))"

definition launchApplication ::
  "('w, 'e) platform_scheme \<Rightarrow> pod_ref \<Rightarrow> (('w, 'z) prov_scheme, go_error option) go" where
  "launchApplication pf r =
     andthen (load_pod r) (\<lambda>pod.
     andthen Config (\<lambda>cfg.
     andthen (NewVkvmaClient (PodIP (Status pod)) (Port (VKVMAgentConnectionConfig cfg))) (\<lambda>vkvmaClient.
     andthen (GetApplicationLifecycleClient pf vkvmaClient) (\<lambda>(_, appClient). case appClient of
       Inl err \<Rightarrow>
         andthen (Inc GRPCAppClientErrors) (\<lambda>_.
         andthen (clean_up pf r) (\<lambda>_. ret (Some err)))
     | Inr client \<Rightarrow>
         andthen (load_pod r) (\<lambda>pod.
         andthen (rpc client (\<lambda>c. rpc_LaunchApplication pf c pod)) (\<lambda>err. case err of
           Some e \<Rightarrow> andthen (clean_up pf r) (\<lambda>_. ret (Some e))
         | None \<Rightarrow> ret None))))))"

definition stopPodMonitor :: "nat option \<Rightarrow> (('w, 'z) prov_scheme, go_error option) go" where
  "stopPodMonitor metaPod =
     (case metaPod of
        None \<Rightarrow> ret (Some (ErrorString ''metaPod or metaPod.monitor is nil''))
      | Some mpr \<Rightarrow>
          andthen (load_metapod mpr) (\<lambda>mp. case mp_monitor mp of
            None \<Rightarrow> ret (Some (ErrorString ''metaPod or metaPod.monitor is nil''))
          | Some monitor \<Rightarrow> andthen (Stop monitor) (\<lambda>_. ret None)))"

definition terminateApp ::
  "('w, 'e) platform_scheme \<Rightarrow> nat option \<Rightarrow> (('w, 'z) prov_scheme, go_error option) go" where
  "terminateApp pf metaPod =
     andthen (deref metaPod) (\<lambda>mpr.
     andthen (load_metapod mpr) (\<lambda>mp.
     andthen (load_pod (mp_pod mp)) (\<lambda>pod.
     andthen Config (\<lambda>cfg.
     andthen (NewVkvmaClient (PodIP (Status pod)) (Port (VKVMAgentConnectionConfig cfg))) (\<lambda>vkvmaClient.
     andthen (GetApplicationLifecycleClient pf vkvmaClient) (\<lambda>(_, appClient). case appClient of
       Inl err \<Rightarrow> andthen (Inc GRPCAppClientErrors) (\<lambda>_. ret (Some err))
     | Inr client \<Rightarrow> rpc client (rpc_TerminateApplication pf)))))))"

definition terminated_state :: "string \<Rightarrow> string \<Rightarrow> nat \<Rightarrow> container_state" where
  "terminated_state message reason now =
     \<lparr>Waiting = None, Running = None,
      Terminated = Some \<lparr>TerminatedMessage = message, FinishedAt = now, TerminatedReason = reason\<rparr>\<rparr>"

definition terminate_status :: "container_state \<Rightarrow> pod_status \<Rightarrow> pod_status" where
  "terminate_status st status = status\<lparr>Phase := ''Succeeded'', Reason := ''ProviderPodDeleted'',
     ContainerStatuses := map (\<lambda>c. c\<lparr>Ready := False, ContainerState := st\<rparr>) (ContainerStatuses status)\<rparr>"

definition notifyPodDelete :: "pod_ref \<Rightarrow> (('w, 'z) prov_scheme, unit) go" where
  "notifyPodDelete r =
     andthen Now (\<lambda>now.
     andthen (update_pod r (\<lambda>p. p\<lparr>Status :=
       terminate_status (terminated_state ''Pod deletion requested'' [] now) (Status p)\<rparr>)) (\<lambda>_.
     andthen (gets podNotifier) (\<lambda>notifier. call_notifier notifier r)))"

section \<open>The pod life cycle\<close>

definition CreatePod ::
  "('w, 'e) platform_scheme \<Rightarrow> 'w Ec2Provider \<Rightarrow> pod_ref \<Rightarrow> (('w, 'z) prov_scheme, go_error option) go" where
  "CreatePod pf p r =
     andthen (load_pod r) (\<lambda>pod.
     andthen (NewPodMonitor r (defaultHandler p)) (\<lambda>mon. case mon of
       Inl err \<Rightarrow> ret (Some err)
     | Inr podMonitor \<Rightarrow>
         (let podKey = GetPodCacheKey (Namespace pod) (PodName pod) in
          andthen (gets podNotifier) (\<lambda>notifier.
          andthen (NewMetaPod r (Some podMonitor) notifier) (\<lambda>metaPod.
          andthen (Set podKey metaPod) (\<lambda>_.
          andthen (GetCompute pf p r) (\<lambda>compute. case compute of
            Inl err \<Rightarrow> andthen (Delete podKey) (\<lambda>_. ret (Some err))
          | Inr (instanceID, privateIP) \<Rightarrow>
              andthen (update_pod r (\<lambda>p. p\<lparr>Status :=
                (Status p)\<lparr>PodIP := privateIP, HostIP := privateIP\<rparr>\<rparr>)) (\<lambda>_.
              andthen (launchApplication pf r) (\<lambda>launchErr. case launchErr of
                Some err \<Rightarrow> andthen (Inc LaunchApplicationErrors) (\<lambda>_. ret (Some err))
              | None \<Rightarrow>
                  andthen (load_pod r) (\<lambda>pod.
                  andthen
                    (if PodIsWarmPool pod (length (wpm_config (warmPool p)))
                     then updateEC2Tags (warmPool p) instanceID ''set_in_use'' pod
                     else ret None) (\<lambda>tagErr. case tagErr of
                    Some err \<Rightarrow> ret (Some err)
                  | None \<Rightarrow>
                      andthen (Start podMonitor) (\<lambda>_.
                      andthen (gets podNotifier) (\<lambda>notifier.
                      andthen (call_notifier notifier r) (\<lambda>_.
                      andthen (Inc PodsLaunched) (\<lambda>_. ret None)))))))))))))))"

definition UpdatePod :: "pod_ref \<Rightarrow> (('w, 'z) prov_scheme, go_error option) go" where
  "UpdatePod r =
     andthen (load_pod r) (\<lambda>pod.
     cache_UpdatePod (GetPodCacheKey (Namespace pod) (PodName pod)) r)"

text \<open>The two log calls that read \<open>metaPod.pod\<close> when something failed crash on a nil \<open>metaPod\<close>.\<close>

definition DeletePod ::
  "('w, 'e) platform_scheme \<Rightarrow> pod_ref \<Rightarrow> (('w, 'z) prov_scheme, go_error option) go" where
  "DeletePod pf r =
     andthen (load_pod r) (\<lambda>pod.
     (let podKey = GetPodCacheKey (Namespace pod) (PodName pod) in
      andthen (Get podKey) (\<lambda>metaPod.
      andthen (stopPodMonitor metaPod) (\<lambda>stopErr. case stopErr of
        Some err \<Rightarrow> andthen (deref metaPod) (\<lambda>_. ret (Some err))
      | None \<Rightarrow>
          andthen (terminateApp pf metaPod) (\<lambda>appErr.
          andthen (if appErr \<noteq> None then Inc TerminateApplicationErrors else ret ()) (\<lambda>_.
          andthen (DeleteCompute pf r) (\<lambda>computeErr. case computeErr of
            Some err \<Rightarrow> andthen (deref metaPod) (\<lambda>_. ret (Some err))
          | None \<Rightarrow>
              andthen (Delete podKey) (\<lambda>_.
              andthen Now (\<lambda>now.
              andthen (update_pod r (\<lambda>p. p\<lparr>Status := terminate_status
                (terminated_state ''EC2 Provider terminated container upon deletion''
                   ''ProviderPodContainerDeleted'' now) (Status p)\<rparr>)) (\<lambda>_.
              andthen (notifyPodDelete r) (\<lambda>_.
              ret None)))))))))))"

definition GetPod :: "string \<Rightarrow> string \<Rightarrow> (('w, 'z) prov_scheme, go_error + pod_ref) go" where
  "GetPod namespace name =
     andthen (Get (GetPodCacheKey namespace name)) (\<lambda>metaPod. case metaPod of
       None \<Rightarrow> ret (Inl (NotFoundError (''Pod '' @ name @ ''('' @ namespace @ '') does not exist'')))
     | Some mpr \<Rightarrow> andthen (load_metapod mpr) (\<lambda>mp. ret (Inr (mp_pod mp))))"

text \<open>The returned pointer into the pod, as the status it points to.\<close>

definition GetPodStatus :: "string \<Rightarrow> string \<Rightarrow> (('w, 'z) prov_scheme, go_error + pod_status) go" where
  "GetPodStatus namespace name =
     andthen (Get (GetPodCacheKey namespace name)) (\<lambda>metaPod. case metaPod of
       None \<Rightarrow> ret (Inl (NotFoundError (''Pod '' @ name @ ''('' @ namespace @ '') does not exist'')))
     | Some mpr \<Rightarrow>
         andthen (load_metapod mpr) (\<lambda>mp.
         andthen (load_pod (mp_pod mp)) (\<lambda>pod. ret (Inr (Status pod)))))"

definition GetPods :: "(('w, 'z) prov_scheme, go_error + pod_ref list) go" where
  "GetPods = andthen GetPodList (\<lambda>podList. ret (Inr podList))"

definition NotifyPods :: "nat option \<Rightarrow> (('w, 'z) prov_scheme, unit) go" where
  "NotifyPods f = andthen (modify (\<lambda>s. s\<lparr>podNotifier := f\<rparr>)) (\<lambda>_. SetNotifier f)"

text \<open>The node that Virtual Kubelet passed, as it is afterwards.\<close>

definition ConfigureNode :: "'w Ec2Provider \<Rightarrow> (('w, 'z) base_scheme, k8s_node) go" where
  "ConfigureNode p = Configure (ProviderEniNode p)"

definition GetContainerLogs :: "string \<Rightarrow> string \<Rightarrow> string \<Rightarrow> ('s, go_error + unit) go" where
  "GetContainerLogs namespace podName containerName = ret (Inl (NotFoundError ''Not yet implemented''))"

definition RunInContainer ::
  "string \<Rightarrow> string \<Rightarrow> string \<Rightarrow> string list \<Rightarrow> ('s, go_error option) go" where
  "RunInContainer namespace podName containerName cmd =
     ret (Some (NotFoundError ''Not yet implemented''))"

definition GetStatsSummary :: "('s, go_error + unit) go" where
  "GetStatsSummary = ret (Inl (NotFoundError ''Not yet implemented''))"

definition recreatePod ::
  "('w, 'e) platform_scheme \<Rightarrow> 'w Ec2Provider \<Rightarrow> pod_ref \<Rightarrow> (('w, 'z) prov_scheme, unit) go" where
  "recreatePod pf p r =
     andthen (load_pod r) (\<lambda>pod.
     (let podKey = GetPodCacheKey (Namespace pod) (PodName pod) in
      andthen (Get podKey) (\<lambda>metaPod.
      andthen (stopPodMonitor metaPod) (\<lambda>err.
      andthen (if err \<noteq> None then andthen (deref metaPod) (\<lambda>_. ret ()) else ret ()) (\<lambda>_.
      andthen (DeleteCompute pf r) (\<lambda>_.
      andthen (notifyPodDelete r) (\<lambda>_.
      andthen (Delete podKey) (\<lambda>_.
      andthen (CreatePod pf p r) (\<lambda>_. ret ())))))))))"

definition handlePodStatusUpdate ::
  "pod_ref \<Rightarrow> pod_status \<Rightarrow> (('w, 'z) prov_scheme, go_error option) go" where
  "handlePodStatusUpdate r podStatus =
     andthen (update_pod r (\<lambda>p. p\<lparr>Status := podStatus\<rparr>)) (\<lambda>_.
     andthen (gets podNotifier) (\<lambda>notifier.
     andthen (call_notifier notifier r) (\<lambda>_. ret None)))"

section \<open>Restoring the cache\<close>

definition restart_monitor :: "nat \<Rightarrow> (('w, 'z) prov_scheme, unit) go" where
  "restart_monitor mpr =
     andthen (load_metapod mpr) (\<lambda>mp.
     andthen (load_pod (mp_pod mp)) (\<lambda>_.
     andthen NewCheckHandler (\<lambda>handler.
     andthen (NewPodMonitor (mp_pod mp) handler) (\<lambda>mon.
     (let monitor = (case mon of Inl _ \<Rightarrow> None | Inr pm \<Rightarrow> Some pm) in
      andthen (store_metapod mpr (mp\<lparr>mp_monitor := monitor\<rparr>)) (\<lambda>_.
      andthen (deref monitor) Start))))))"

definition PopulateCache :: "pod_cache \<Rightarrow> (('w, 'z) prov_scheme, unit) go" where
  "PopulateCache cache =
     andthen next_choice (\<lambda>order.
     andthen (for_each restart_monitor (map snd (range_map order cache))) (\<lambda>_.
     modify (\<lambda>s. s\<lparr>pods := Some cache\<rparr>)))"

section \<open>The status loop\<close>

text \<open>
  \<open>statusLoop\<close> up to its first tick, with the interval of its ticker; it runs in a goroutine of its own,
  whose panic ends the process.
\<close>

definition statusLoop :: "(('w, 'z) base_scheme, int) go" where
  "statusLoop = andthen Config (\<lambda>cfg. NewTicker (Seconds (StatusIntervalSeconds cfg)))"

text \<open>
  What one tick of \<open>statusLoop\<close> reports: the number of pods and the states of their monitors by pod name;
  \<open>prev\<close> is what the previous tick reported, which stays while there is no cache.
\<close>

definition monitor_states :: "nat \<Rightarrow> (('w, 'z) prov_scheme, string \<times> string) go" where
  "monitor_states mpr =
     andthen (load_metapod mpr) (\<lambda>mp.
     andthen (deref (mp_monitor mp)) (\<lambda>pmr.
     andthen (load_podmon pmr) (\<lambda>pm.
     andthen (collect load_monitor (Monitors pm)) (\<lambda>ms.
     andthen (load_pod (mp_pod mp)) (\<lambda>pod.
     ret (PodName pod, join '', '' (map monitor_String ms)))))))"

definition status_tick ::
  "nat \<times> (string, string) go_map \<Rightarrow> (('w, 'z) prov_scheme, nat \<times> (string, string) go_map) go" where
  "status_tick prev =
     andthen (gets pods) (\<lambda>cache.
     if cache \<noteq> None then
       andthen GetList (\<lambda>metaPods.
       andthen (collect monitor_states metaPods) (\<lambda>states.
       ret (length metaPods, fold (\<lambda>(name, st). assign name st) states make_map)))
     else ret prev)"

end
