(* ===== verification/Provider_Frame.thy ===== *)
theory Provider_Frame
  imports Provider
begin

text \<open>
  What getting and deleting compute and talking to the agent leave alone: these operations change the
  outside world, the counters, the warm pool and the pods' annotations and status, and nothing else of the
  provider's state.
\<close>

definition pod_names :: "(nat \<Rightarrow> pod option) \<Rightarrow> nat \<Rightarrow> (string \<times> string) option" where
  "pod_names h r = map_option (\<lambda>p. (Namespace p, PodName p)) (h r)"

definition frame :: "('w, 'z) prov_scheme \<Rightarrow> _" where
  "frame s = (config s, clock s, pod_names (pods_at s), (monitors_at s, handlers_at s, podmons_at s,
     cancelled_ctxs s, fresh_ref s), (notified s, utilsNotifier s, podNotifier s), (metapods_at s, pods s))"

definition framed :: "(('w, 'z) prov_scheme, 'a) go \<Rightarrow> bool" where
  "framed m \<longleftrightarrow> (\<forall>f. keeps (\<lambda>s. frame s = f) m)"

named_theorems framed_intro

lemma framedI: "(\<And>f. keeps (\<lambda>s. frame s = f) m) \<Longrightarrow> framed m"
  by (simp add: framed_def)

lemma framedD: "framed m \<Longrightarrow> m s = (t, x) \<Longrightarrow> frame t = frame s"
  unfolding framed_def keeps_def by (metis fst_conv)

lemma framed_basic [framed_intro]:
  "framed (ret a)" "framed (die c)" "framed (gets g)" "framed (deref p)" "framed (index xs i)"
  by (auto simp: framed_def intro: keeps_intro)

lemma framed_andthen [framed_intro]: "framed m \<Longrightarrow> (\<And>a. framed (f a)) \<Longrightarrow> framed (andthen m f)"
  by (auto simp: framed_def intro!: keeps_andthen)

lemma framed_loops [framed_intro]:
  "(\<And>x. framed (g x)) \<Longrightarrow> framed (for_each g xs)"
  "(\<And>x. framed (h x)) \<Longrightarrow> framed (collect h xs)"
  by (auto simp: framed_def intro!: keeps_for_each keeps_collect)

lemma framed_cases [framed_intro]:
  "(b \<Longrightarrow> framed m) \<Longrightarrow> (\<not> b \<Longrightarrow> framed n) \<Longrightarrow> framed (if b then m else n)"
  "(\<And>e. framed (f e)) \<Longrightarrow> (\<And>a. framed (g a)) \<Longrightarrow> framed (case x of Inl e \<Rightarrow> f e | Inr a \<Rightarrow> g a)"
  "framed m' \<Longrightarrow> (\<And>a. framed (k a)) \<Longrightarrow> framed (case y of None \<Rightarrow> m' | Some a \<Rightarrow> k a)"
  "(\<And>a b. framed (h a b)) \<Longrightarrow> framed (case z of (a, b) \<Rightarrow> h a b)"
  by (auto split: sum.splits option.splits prod.splits)

lemma framed_effects [framed_intro]:
  "framed (call g)" "framed (Inc k)" "framed next_choice" "framed Now" "framed Config"
  "framed (load_pod r)"
  by (auto intro!: framedI keepsI
      simp: go_simps frame_def Config_def load_pod_def deref_def split: option.splits)

lemma framed_pod [framed_intro]:
  "framed (update_pod r (\<lambda>p. p\<lparr>Status := g p\<rparr>))" "framed (set_annotation r k v)"
  by (auto intro!: framedI keepsI ext
      simp: go_simps frame_def update_pod_def set_annotation_def load_pod_def pod_names_def deref_def
      split: option.splits)

lemma framed_vk [framed_intro]: "framed (modify (\<lambda>s. s\<lparr>VKState := g s\<rparr>))"
  by (auto intro!: framedI keepsI simp: go_simps frame_def)

section \<open>AWS\<close>

lemma framed_clients [framed_intro]: "framed (NewEc2Client sdk)" "framed (NewS3Client sdk)"
  unfolding NewEc2Client_def NewS3Client_def Let_def by (rule framed_intro)+

lemma framed_calls [framed_intro]:
  "framed (DescribeInstanceStatus c i1)" "framed (DescribeInstances c i2)" "framed (RunInstances c i3)"
  "framed (TerminateInstances c i4)" "framed (CreateTags c i5)" "framed (NewInstanceRunningWaiter c i6)"
  "framed (PresignGetObject sc b k)"
  unfolding client_calls by (rule framed_intro)+

lemma framed_TerminateEC2 [framed_intro]: "framed (TerminateEC2 sdk iid)"
  unfolding TerminateEC2_def by (rule framed_intro)+

lemma framed_GetPrivateIP [framed_intro]: "framed (GetPrivateIP sdk iid)"
  unfolding GetPrivateIP_def Let_def by (rule framed_intro)+

lemma framed_CreateEC2 [framed_intro]: "framed (CreateEC2 sdk r u b k)"
  unfolding CreateEC2_def EC2RunInstancesUtil_def Let_def by (rule framed_intro)+

lemma framed_GenerateVKVMUserData [framed_intro]: "framed (GenerateVKVMUserData sdk b k vm ag)"
  unfolding GenerateVKVMUserData_def SignURL_def Let_def by (rule framed_intro)+

section \<open>Compute\<close>

lemma framed_updateEC2Tags [framed_intro]: "framed (updateEC2Tags wpm iid reason p)"
  unfolding updateEC2Tags_def populateEC2Tags_def Let_def by (rule framed_intro)+

lemma framed_put_info [framed_intro]: "framed (put_info k v m)"
  unfolding put_info_def by (rule framed_intro)+

lemma framed_puts:
  "framed (put_ready k v)" "framed (put_provisioning k v)" "framed (put_unhealthy k v)"
  "framed (put_allocated k v)"
  unfolding put_ready_def put_provisioning_def put_unhealthy_def put_allocated_def
  by (rule framed_intro)+

lemma framed_with_info: "(\<And>k v. framed (put k v)) \<Longrightarrow> framed (with_info i put)"
  unfolding with_info_def by (rule framed_intro | assumption)+

lemma framed_load_tag [framed_intro]: "framed (load_tag wpm i t)"
  unfolding load_tag_def by (rule framed_intro framed_with_info framed_puts)+

lemma framed_load_instance [framed_intro]: "framed (load_instance wpm i)"
  unfolding load_instance_def by (rule framed_intro)+

lemma framed_refresh [framed_intro]: "framed (RefreshWarmPoolFromEC2 wpm)"
proof -
  have loop: "framed (refresh_loop n wpm outer input)" for n outer input
    by (induction n arbitrary: outer input)
      (simp_all add: Let_def, (rule framed_intro | assumption)+)
  show ?thesis
    unfolding RefreshWarmPoolFromEC2_def checkEC2TagsForState_def by (rule framed_intro loop)+
qed

lemma framed_GetWarmPoolInstanceIfExist [framed_intro]: "framed (GetWarmPoolInstanceIfExist wpm)"
  unfolding GetWarmPoolInstanceIfExist_def pop_def popKey_def by (rule framed_intro)+

lemma framed_podHasInstance [framed_intro]: "framed (podHasInstance sdk r)"
  unfolding podHasInstance_def Let_def by (rule framed_intro)+

lemma framed_createCompute [framed_intro]: "framed (createCompute sdk r)"
  unfolding createCompute_def Let_def by (rule framed_intro)+

lemma framed_GetCompute [framed_intro]: "framed (GetCompute sdk p r)"
  unfolding GetCompute_def by (rule framed_intro)+

lemma framed_DeleteCompute [framed_intro]: "framed (DeleteCompute sdk r)"
  unfolding DeleteCompute_def deleteCompute_def by (rule framed_intro)+

section \<open>The agent\<close>

lemma framed_agent [framed_intro]:
  "framed (NewVkvmaClient ip n)" "framed (GetApplicationLifecycleClient pf v)" "framed (rpc c g)"
  unfolding NewVkvmaClient_def GetApplicationLifecycleClient_def IsConnected_def Connect_def rpc_def Let_def
  by (rule framed_intro)+

lemma framed_terminateApp [framed_intro]: "framed (terminateApp pf mp)"
  unfolding terminateApp_def load_metapod_def by (rule framed_intro)+

end
