(* ===== verification/Provider_Facts.thy ===== *)
theory Provider_Facts
  imports Provider_Frame
begin

text \<open>
  What the provider's methods do to its state, whatever AWS and the agents answer: creating pods, deleting
  them, the failures in between, and what is left behind.
\<close>

section \<open>Creating a pod\<close>

text \<open>The state in which \<open>CreatePod\<close> asks for compute: the monitor is made and the pod is in the cache.\<close>

definition with_metapod ::
  "ProviderConfig \<Rightarrow> pod_ref \<Rightarrow> string \<Rightarrow> nat \<Rightarrow> nat \<Rightarrow> pod_cache \<Rightarrow> ('w, 'z) prov_scheme \<Rightarrow> ('w, 'z) prov_scheme" where
  "with_metapod cfg r key h chan m s = (let f = fresh_ref s in
     (with_podmon cfg r h chan s)\<lparr>
       fresh_ref := Suc (Suc (Suc (Suc f))),
       metapods_at := (metapods_at s)(Suc (Suc (Suc f)) \<mapsto>
         \<lparr>mp_pod = r, mp_monitor = Some f, mp_notifier = podNotifier s\<rparr>),
       pods := Some (assign key (Suc (Suc (Suc f))) m)\<rparr>)"

text \<open>The parts of \<open>CreatePod\<close> from the compute on.\<close>

definition watch_and_notify :: "pod_ref \<Rightarrow> nat \<Rightarrow> (('w, 'z) prov_scheme, go_error option) go" where
  "watch_and_notify r podMonitor =
     andthen (Start podMonitor) (\<lambda>_.
     andthen (gets podNotifier) (\<lambda>notifier.
     andthen (call_notifier notifier r) (\<lambda>_.
     andthen (Inc PodsLaunched) (\<lambda>_. ret None))))"

definition tag_in_use ::
  "'w Ec2Provider \<Rightarrow> string \<Rightarrow> pod \<Rightarrow> (('w, 'z) prov_scheme, go_error option) go" where
  "tag_in_use p instanceID pod =
     (if PodIsWarmPool pod (length (wpm_config (warmPool p)))
      then updateEC2Tags (warmPool p) instanceID ''set_in_use'' pod
      else ret None)"

definition tag_and_watch ::
  "'w Ec2Provider \<Rightarrow> pod_ref \<Rightarrow> nat \<Rightarrow> string \<Rightarrow> (('w, 'z) prov_scheme, go_error option) go" where
  "tag_and_watch p r podMonitor instanceID =
     andthen (load_pod r) (\<lambda>pod.
     andthen (tag_in_use p instanceID pod) (\<lambda>tagErr. case tagErr of
       Some err \<Rightarrow> ret (Some err)
     | None \<Rightarrow> watch_and_notify r podMonitor))"

definition launch_and_watch ::
  "('w, 'e) platform_scheme \<Rightarrow> 'w Ec2Provider \<Rightarrow> pod_ref \<Rightarrow> nat \<Rightarrow> string \<Rightarrow> string \<Rightarrow>
   (('w, 'z) prov_scheme, go_error option) go" where
  "launch_and_watch pf p r podMonitor instanceID privateIP =
     andthen (update_pod r (\<lambda>p. p\<lparr>Status :=
       (Status p)\<lparr>PodIP := privateIP, HostIP := privateIP\<rparr>\<rparr>)) (\<lambda>_.
     andthen (launchApplication pf r) (\<lambda>launchErr. case launchErr of
       Some err \<Rightarrow> andthen (Inc LaunchApplicationErrors) (\<lambda>_. ret (Some err))
     | None \<Rightarrow> tag_and_watch p r podMonitor instanceID))"

lemmas create_parts = launch_and_watch_def tag_and_watch_def tag_in_use_def watch_and_notify_def

lemma CreatePod_start:
  assumes "config s = Some cfg" and "pods_at s r = Some p"
    and "handlers_at s (defaultHandler prov) = Some ch" and "pods s = Some m"
  shows "CreatePod pf prov r s =
    andthen (GetCompute pf prov r) (\<lambda>compute. case compute of
        Inl err \<Rightarrow> andthen (Delete (pod_key p)) (\<lambda>_. ret (Some err))
      | Inr (instanceID, privateIP) \<Rightarrow> launch_and_watch pf prov r (fresh_ref s) instanceID privateIP)
      (with_metapod cfg r (pod_key p) (defaultHandler prov) (in_chan ch) m s)"
proof -
  let ?s1 = "with_podmon cfg r (defaultHandler prov) (in_chan ch) s"
  have new: "NewPodMonitor r (defaultHandler prov) s = (?s1, Ret (Inr (fresh_ref s)))"
    by (rule NewPodMonitor_run [OF assms(1,3)])
  have f: "fresh_ref ?s1 = Suc (Suc (Suc (fresh_ref s)))" "metapods_at ?s1 = metapods_at s"
    "pods ?s1 = Some m" "podNotifier ?s1 = podNotifier s"
    using assms(4) by (simp_all add: with_podmon_def Let_def)
  have meta: "NewMetaPod r (Some (fresh_ref s)) (podNotifier s) ?s1 =
      (?s1\<lparr>fresh_ref := Suc (Suc (Suc (Suc (fresh_ref s)))),
         metapods_at := (metapods_at s)(Suc (Suc (Suc (fresh_ref s))) \<mapsto>
           \<lparr>mp_pod = r, mp_monitor = Some (fresh_ref s), mp_notifier = podNotifier s\<rparr>)\<rparr>,
       Ret (Suc (Suc (Suc (fresh_ref s)))))"
    by (simp add: NewMetaPod_def andthen_run new_ref_run store_metapod_run ret_run f)
  have set: "Set (pod_key p) (Suc (Suc (Suc (fresh_ref s))))
      (?s1\<lparr>fresh_ref := Suc (Suc (Suc (Suc (fresh_ref s)))),
         metapods_at := (metapods_at s)(Suc (Suc (Suc (fresh_ref s))) \<mapsto>
           \<lparr>mp_pod = r, mp_monitor = Some (fresh_ref s), mp_notifier = podNotifier s\<rparr>)\<rparr>) =
      (with_metapod cfg r (pod_key p) (defaultHandler prov) (in_chan ch) m s, Ret ())"
    by (simp add: cache_runs(2) [where m = m] f with_metapod_def Let_def)
  show ?thesis
    unfolding CreatePod_def create_parts andthen_load_pod [OF assms(2)]
    by (simp add: andthen_run [of "NewPodMonitor _ _"] new f andthen_run [of "NewMetaPod _ _ _"] meta Let_def
        andthen_run [of "Set _ _"] set pod_key_def [symmetric])
qed

section \<open>Launching the application\<close>

text \<open>The steps before the call of the agent.\<close>

definition agent_of ::
  "('w, 'e) platform_scheme \<Rightarrow> pod_ref \<Rightarrow> (('w, 'z) prov_scheme, VkvmaClient \<times> (go_error + nat option)) go" where
  "agent_of pf r =
     andthen (load_pod r) (\<lambda>pod.
     andthen Config (\<lambda>cfg.
     andthen (NewVkvmaClient (PodIP (Status pod)) (Port (VKVMAgentConnectionConfig cfg)))
       (GetApplicationLifecycleClient pf)))"

lemma framed_agent_of [framed_intro]: "framed (agent_of pf r)"
  unfolding agent_of_def by (rule framed_intro)+

lemma launchApplication_split:
  "launchApplication pf r = andthen (agent_of pf r) (\<lambda>(_, appClient). case appClient of
       Inl err \<Rightarrow>
         andthen (Inc GRPCAppClientErrors) (\<lambda>_.
         andthen (clean_up pf r) (\<lambda>_. ret (Some err)))
     | Inr client \<Rightarrow>
         andthen (load_pod r) (\<lambda>pod.
         andthen (rpc client (\<lambda>c. rpc_LaunchApplication pf c pod)) (\<lambda>err. case err of
           Some e \<Rightarrow> andthen (clean_up pf r) (\<lambda>_. ret (Some e))
         | None \<Rightarrow> ret None)))"
  by (simp add: launchApplication_def agent_of_def andthen_assoc)

lemma frame_fields:
  assumes "frame t = frame s"
  shows "config t = config s" "monitors_at t = monitors_at s" "handlers_at t = handlers_at s"
    "podmons_at t = podmons_at s" "notified t = notified s" "podNotifier t = podNotifier s"
    "metapods_at t = metapods_at s" "pods t = pods s" "fresh_ref t = fresh_ref s"
    "cancelled_ctxs t = cancelled_ctxs s" "utilsNotifier t = utilsNotifier s"
    "pod_names (pods_at t) = pod_names (pods_at s)"
  using assms by (simp_all add: frame_def)

lemma frame_cache: "frame t = frame s \<Longrightarrow> frame (t\<lparr>pods := x\<rparr>) = frame (s\<lparr>pods := x\<rparr>)"
  by (simp add: frame_def)

lemma pod_names_SomeE:
  assumes "pod_names h r = Some (ns, n)"
  obtains p where "h r = Some p" "Namespace p = ns" "PodName p = n"
  using assms by (auto simp: pod_names_def)

lemma Delete_run: "pods s = Some m \<Longrightarrow> Delete k s = (s\<lparr>pods := Some (delete_key k m)\<rparr>, Ret ())"
  by (rule cache_runs(3))

lemma clean_up_frame:
  assumes "clean_up pf r s = (t, Ret x)" and "pods s = Some m"
    and "pod_names (pods_at s) r = Some (ns, n)"
  shows "frame t = frame (s\<lparr>pods := Some (delete_key (GetPodCacheKey ns n) m)\<rparr>)"
proof -
  obtain a u where u: "DeleteCompute pf r s = (u, Ret a)"
    and rest: "andthen (load_pod r) (\<lambda>pod. Delete (GetPodCacheKey (Namespace pod) (PodName pod))) u = (t, Ret x)"
    using assms(1) unfolding clean_up_def by (rule andthen_RetE)
  note fr = framedD [OF framed_DeleteCompute u]
  obtain p where p: "pods_at u r = Some p" "Namespace p = ns" "PodName p = n"
    using pod_names_SomeE assms(3) frame_fields(12) [OF fr] by metis
  have "pods u = Some m" using frame_fields(8) [OF fr] assms(2) by simp
  then have "t = u\<lparr>pods := Some (delete_key (GetPodCacheKey ns n) m)\<rparr>"
    using rest p by (simp add: andthen_load_pod Delete_run)
  then show ?thesis using frame_cache [OF fr] by simp
qed

lemma launchApplication_frame:
  assumes "launchApplication pf r s = (t, Ret err)" and "pods s = Some m"
    and "pod_names (pods_at s) r = Some (ns, n)"
  shows "frame t = (if err = None then frame s
    else frame (s\<lparr>pods := Some (delete_key (GetPodCacheKey ns n) m)\<rparr>))"
proof -
  obtain v ac u where u: "agent_of pf r s = (u, Ret (v, ac))"
    and rest: "(case ac of
       Inl err \<Rightarrow>
         andthen (Inc GRPCAppClientErrors) (\<lambda>_.
         andthen (clean_up pf r) (\<lambda>_. ret (Some err)))
     | Inr client \<Rightarrow>
         andthen (load_pod r) (\<lambda>pod.
         andthen (rpc client (\<lambda>c. rpc_LaunchApplication pf c pod)) (\<lambda>err. case err of
           Some e \<Rightarrow> andthen (clean_up pf r) (\<lambda>_. ret (Some e))
         | None \<Rightarrow> ret None))) u = (t, Ret err)"
    using assms(1) unfolding launchApplication_split by (elim andthen_RetE) auto
  note fu = framedD [OF framed_agent_of u]
  have step: "frame t = frame (s\<lparr>pods := Some (delete_key (GetPodCacheKey ns n) m)\<rparr>)"
    if "clean_up pf r w = (t, Ret x)" "frame w = frame s" for w x
    using clean_up_frame [OF that(1), of m ns n] frame_cache [OF that(2)] frame_fields [OF that(2)] assms(2,3)
    by simp
  show ?thesis
  proof (cases ac)
    case (Inl e)
    let ?w = "u\<lparr>counters := (counters u)(GRPCAppClientErrors := Suc (counters u GRPCAppClientErrors))\<rparr>"
    have "frame ?w = frame s" using fu by (simp add: frame_def)
    moreover obtain x where "clean_up pf r ?w = (t, Ret x)" "err = Some e"
      using rest Inl by (auto simp: andthen_run Inc_run ret_run split: prod.splits outcome.splits)
    ultimately show ?thesis using step by auto
  next
    case (Inr client)
    obtain pod w e where "load_pod r u = (u, Ret pod)"
      and w: "rpc client (\<lambda>c. rpc_LaunchApplication pf c pod) u = (w, Ret e)"
      and rest': "(case e of Some e \<Rightarrow> andthen (clean_up pf r) (\<lambda>_. ret (Some e)) | None \<Rightarrow> ret None) w =
        (t, Ret err)"
      using rest Inr
      by (auto elim!: andthen_RetE simp: load_pod_def deref_def gets_run ret_run die_run split: option.splits)
    have fw: "frame w = frame s" using framedD [OF framed_agent(3) w] fu by simp
    show ?thesis
    proof (cases e)
      case None
      with rest' fw show ?thesis by (simp add: ret_run)
    next
      case (Some e')
      obtain x where "clean_up pf r w = (t, Ret x)" "err = Some e'"
        using rest' Some by (auto simp: andthen_run ret_run split: prod.splits outcome.splits)
      with step fw show ?thesis by auto
    qed
  qed
qed

section \<open>What creating leaves behind\<close>

text \<open>The pod monitor at \<open>pm\<close>, complete: its handler and its two monitors exist.\<close>

definition podmon_complete :: "('w, 'z) prov_scheme \<Rightarrow> nat \<Rightarrow> PodMonitor \<Rightarrow> bool" where
  "podmon_complete s pm pmon \<longleftrightarrow> podmons_at s pm = Some pmon \<and> handlers_at s (pm_handler pmon) \<noteq> None \<and>
     (\<exists>v a. Monitors pmon = [v, a] \<and> v \<noteq> a \<and> monitors_at s v \<noteq> None \<and> monitors_at s a \<noteq> None)"

lemma podmon_complete_frame: "frame t = frame s \<Longrightarrow> podmon_complete t pm pmon = podmon_complete s pm pmon"
  by (simp add: podmon_complete_def frame_def)

lemma Start_complete:
  assumes "podmon_complete s pm pmon" and "config s = Some cfg"
  obtains u where "Start pm s = (u, Ret ())" "pods u = pods s" "metapods_at u = metapods_at s"
    "podNotifier u = podNotifier s" "notified u = notified s" "pods_at u = pods_at s"
    "podmons_at u = (podmons_at s)(pm \<mapsto> pmon\<lparr>pm_cancel := Some (fresh_ref s)\<rparr>)" "world u = world s"
    "counters u = counters s" "config u = config s"
    "podmon_complete u pm (pmon\<lparr>pm_cancel := Some (fresh_ref s)\<rparr>)"
proof -
  obtain ch v a mv ma where c: "podmons_at s pm = Some pmon" "handlers_at s (pm_handler pmon) = Some ch"
    "Monitors pmon = [v, a]" "v \<noteq> a" "monitors_at s v = Some mv" "monitors_at s a = Some ma"
    using assms(1) by (auto simp: podmon_complete_def)
  note run = Start_run [OF c assms(2)]
  show ?thesis
    by (rule that [OF run]) (use c in \<open>simp_all add: podmon_complete_def\<close>)
qed

definition monitored :: "('w, 'z) prov_scheme \<Rightarrow> nat \<Rightarrow> pod_ref \<Rightarrow> nat \<Rightarrow> bool \<Rightarrow> bool" where
  "monitored s mp r pm started \<longleftrightarrow>
     (\<exists>f. metapods_at s mp = Some \<lparr>mp_pod = r, mp_monitor = Some pm, mp_notifier = f\<rparr>) \<and>
     (\<exists>pmon. podmon_complete s pm pmon \<and> pm_pod pmon = r \<and> (pm_cancel pmon \<noteq> None \<longleftrightarrow> started))"

lemma monitored_frame: "frame t = frame s \<Longrightarrow> monitored t mp r pm b = monitored s mp r pm b"
  using podmon_complete_frame [of t s] by (simp add: monitored_def frame_def)

lemma monitored_pods [simp]: "monitored (s\<lparr>pods := x\<rparr>) mp r pm b = monitored s mp r pm b"
  by (simp add: monitored_def podmon_complete_def)

lemma cache_view_SomeD: "pods s = Some m \<Longrightarrow> cache_view s = lookup m"
  by (simp add: cache_view_def)

lemma cache_goodE:
  assumes "cache_good s"
  obtains m where "pods s = Some m" "go_map_ok m" "cache_view s = lookup m"
  using assms by (auto simp: cache_good_def cache_view_def split: option.splits)

lemma framed_tag_in_use [framed_intro]: "framed (tag_in_use p iid pod)"
  unfolding tag_in_use_def by (rule framed_intro)+

lemma watch_and_notify_outcome:
  assumes "watch_and_notify r pm s = (t, Ret err)" and "config s = Some cfg"
    and "pods_at s r = Some p" and "monitored s mp r pm False"
  shows "\<exists>cb. err = None \<and> podNotifier s = Some cb \<and> notified t = notified s @ [(cb, r, p)] \<and>
    pods_at t r = Some p \<and> pods t = pods s \<and> monitored t mp r pm True"
proof -
  obtain pmon f where pmon: "podmon_complete s pm pmon" "pm_pod pmon = r"
    and meta: "metapods_at s mp = Some \<lparr>mp_pod = r, mp_monitor = Some pm, mp_notifier = f\<rparr>"
    using assms(4) unfolding monitored_def by blast
  from Start_complete [OF pmon(1) assms(2)] obtain y where
    y: "Start pm s = (y, Ret ())" "pods y = pods s" "metapods_at y = metapods_at s"
      "podNotifier y = podNotifier s" "notified y = notified s" "pods_at y = pods_at s"
      "podmon_complete y pm (pmon\<lparr>pm_cancel := Some (fresh_ref s)\<rparr>)" by metis
  have mon: "monitored y mp r pm True"
    unfolding monitored_def using y meta pmon(2) by auto
  show ?thesis
  proof (cases "podNotifier s")
    case None
    with assms(1) y show ?thesis
      by (simp add: watch_and_notify_def andthen_run gets_run call_notifier_def die_run)
  next
    case (Some cb)
    let ?z = "y\<lparr>notified := notified y @ [(cb, r, p)]\<rparr>"
    have "call_notifier (Some cb) r y = (?z, Ret ())"
      using assms(3) y(6) by (simp add: call_notifier_run)
    then have t: "t = ?z\<lparr>counters := (counters ?z)(PodsLaunched := Suc (counters ?z PodsLaunched))\<rparr>"
      and "err = None"
      using assms(1) y Some by (auto simp: watch_and_notify_def andthen_run gets_run Inc_run ret_run)
    moreover have "monitored t mp r pm True"
      using mon unfolding t monitored_def podmon_complete_def by simp
    ultimately show ?thesis using Some y assms(3) by simp
  qed
qed

lemma tag_and_watch_outcome:
  assumes "tag_and_watch prov r pm iid s = (t, Ret err)" and "config s = Some cfg"
    and "pod_names (pods_at s) r = Some nn" and "monitored s mp r pm False"
  shows "(\<exists>e. err = Some e \<and> notified t = notified s \<and> pods t = pods s \<and>
      wpm_config (warmPool prov) \<noteq> [] \<and> monitored t mp r pm False \<and> pod_names (pods_at t) r = Some nn) \<or>
    (\<exists>cb p. err = None \<and> podNotifier s = Some cb \<and> notified t = notified s @ [(cb, r, p)] \<and>
      pods_at t r = Some p \<and> pods t = pods s \<and> monitored t mp r pm True)"
proof -
  obtain pod where pod: "pods_at s r = Some pod" using assms(3) by (auto simp: pod_names_def)
  obtain te x where x: "tag_in_use prov iid pod s = (x, Ret te)"
    and rest: "(case te of Some err \<Rightarrow> ret (Some err) | None \<Rightarrow> watch_and_notify r pm) x = (t, Ret err)"
    using assms(1) unfolding tag_and_watch_def andthen_load_pod [OF pod] by (rule andthen_RetE)
  note fx = framedD [OF framed_tag_in_use x]
  have mon: "monitored x mp r pm False" using assms(4) monitored_frame [OF fx] by simp
  show ?thesis
  proof (cases te)
    case (Some e)
    then have "wpm_config (warmPool prov) \<noteq> []"
      using x by (auto simp: tag_in_use_def PodIsWarmPool_def ret_run split: if_splits)
    then show ?thesis using Some rest mon frame_fields [OF fx] assms(3) by (auto simp: ret_run)
  next
    case None
    have "pod_names (pods_at x) r = Some nn" using assms(3) frame_fields(12) [OF fx] by simp
    then obtain p where "pods_at x r = Some p" by (auto simp: pod_names_def)
    moreover have "watch_and_notify r pm x = (t, Ret err)" "config x = Some cfg"
      using rest None assms(2) frame_fields(1) [OF fx] by simp_all
    ultimately show ?thesis
      using watch_and_notify_outcome [OF _ _ _ mon] frame_fields [OF fx] by metis
  qed
qed

text \<open>The three ways in which \<open>launch_and_watch\<close> returns.\<close>

lemma launch_and_watch_outcome:
  assumes "launch_and_watch pf prov r pm iid ip s = (t, Ret err)" and "config s = Some cfg"
    and "pods s = Some m" and "pod_names (pods_at s) r = Some (ns, n)" and "monitored s mp r pm False"
  shows "(\<exists>e. err = Some e \<and> notified t = notified s \<and>
      pods t = Some (delete_key (GetPodCacheKey ns n) m) \<and> pod_names (pods_at t) r = Some (ns, n)) \<or>
    (\<exists>e. err = Some e \<and> notified t = notified s \<and> pods t = Some m \<and> wpm_config (warmPool prov) \<noteq> [] \<and>
      monitored t mp r pm False \<and> pod_names (pods_at t) r = Some (ns, n)) \<or>
    (\<exists>cb p. err = None \<and> podNotifier s = Some cb \<and> notified t = notified s @ [(cb, r, p)] \<and>
      pods_at t r = Some p \<and> pods t = Some m \<and> monitored t mp r pm True)"
proof -
  obtain z u where u: "update_pod r (\<lambda>p. p\<lparr>Status := (Status p)\<lparr>PodIP := ip, HostIP := ip\<rparr>\<rparr>) s = (u, Ret z)"
    and r1: "andthen (launchApplication pf r) (\<lambda>launchErr. case launchErr of
       Some err \<Rightarrow> andthen (Inc LaunchApplicationErrors) (\<lambda>_. ret (Some err))
     | None \<Rightarrow> tag_and_watch prov r pm iid) u = (t, Ret err)"
    using assms(1) unfolding launch_and_watch_def by (rule andthen_RetE)
  note fu = framedD [OF framed_pod(1) u]
  obtain le w where w: "launchApplication pf r u = (w, Ret le)"
    and r2: "(case le of
       Some err \<Rightarrow> andthen (Inc LaunchApplicationErrors) (\<lambda>_. ret (Some err))
     | None \<Rightarrow> tag_and_watch prov r pm iid) w = (t, Ret err)"
    using r1 by (rule andthen_RetE)
  have fw: "frame w = (if le = None then frame s
      else frame (s\<lparr>pods := Some (delete_key (GetPodCacheKey ns n) m)\<rparr>))"
    using launchApplication_frame [OF w, of m ns n] frame_fields [OF fu] frame_cache [OF fu] fu assms(3,4)
    by simp
  show ?thesis
  proof (cases le)
    case (Some e)
    then have "t = w\<lparr>counters := (counters w)(LaunchApplicationErrors := Suc (counters w LaunchApplicationErrors))\<rparr>"
      "err = Some e" using r2 by (auto simp: andthen_run Inc_run ret_run)
    then show ?thesis using fw Some assms(4) by (simp add: frame_def)
  next
    case None
    then have fw: "frame w = frame s" and r3: "tag_and_watch prov r pm iid w = (t, Ret err)"
      using fw r2 by simp_all
    have "monitored w mp r pm False" using assms(5) monitored_frame [OF fw] by simp
    from tag_and_watch_outcome [OF r3 _ _ this, of cfg "(ns, n)"] show ?thesis
      using frame_fields [OF fw] assms(2-4) by simp
  qed
qed

lemma with_metapod_monitored:
  assumes "handlers_at s h = Some ch"
  shows "monitored (with_metapod cfg r key h (in_chan ch) m s) (Suc (Suc (Suc (fresh_ref s)))) r (fresh_ref s)
    False"
  using assms
  by (simp add: monitored_def podmon_complete_def with_metapod_def with_podmon_def new_podmon_def Let_def)

lemma with_metapod_fields [simp]:
  "config (with_metapod cfg r key h chan m s) = config s"
  "pods (with_metapod cfg r key h chan m s) = Some (assign key (Suc (Suc (Suc (fresh_ref s)))) m)"
  "pods_at (with_metapod cfg r key h chan m s) = pods_at s"
  "notified (with_metapod cfg r key h chan m s) = notified s"
  "podNotifier (with_metapod cfg r key h chan m s) = podNotifier s"
  "world (with_metapod cfg r key h chan m s) = world s"
  "counters (with_metapod cfg r key h chan m s) = counters s"
  "choices (with_metapod cfg r key h chan m s) = choices s"
  "VKState (with_metapod cfg r key h chan m s) = VKState s"
  "nodeName (with_metapod cfg r key h chan m s) = nodeName s"
  by (simp_all add: with_metapod_def with_podmon_def Let_def)

lemma CreatePod_cases:
  assumes "config s = Some cfg" and "pods_at s r = Some p"
    and "handlers_at s (defaultHandler prov) = Some ch" and "cache_good s"
    and "CreatePod pf prov r s = (t, Ret err)"
  shows "case err of
      None \<Rightarrow> \<exists>mp pm cb q. cache_view t = (cache_view s)(pod_key p \<mapsto> mp) \<and> monitored t mp r pm True \<and>
        podNotifier s = Some cb \<and> notified t = notified s @ [(cb, r, q)] \<and> pods_at t r = Some q
    | Some e \<Rightarrow> notified t = notified s \<and>
        (cache_view t = (cache_view s)(pod_key p := None) \<or>
         wpm_config (warmPool prov) \<noteq> [] \<and>
         (\<exists>mp pm. cache_view t = (cache_view s)(pod_key p \<mapsto> mp) \<and> monitored t mp r pm False)) \<and>
        cache_good t \<and> pod_names (pods_at t) r = Some (Namespace p, PodName p)"
proof -
  obtain m where m: "pods s = Some m" "go_map_ok m" "cache_view s = lookup m"
    using assms(4) by (rule cache_goodE)
  let ?mp = "Suc (Suc (Suc (fresh_ref s)))"
  let ?s = "with_metapod cfg r (pod_key p) (defaultHandler prov) (in_chan ch) m s"
  let ?m = "assign (pod_key p) ?mp m"
  have key: "GetPodCacheKey (Namespace p) (PodName p) = pod_key p" by (simp add: pod_key_def)
  have in_cache: "lookup ?m = (lookup m)(pod_key p \<mapsto> ?mp)"
    by (rule lookup_maps(1) [OF m(2)])
  have out: "lookup (delete_key (pod_key p) ?m) = (lookup m)(pod_key p := None)"
    by (rule lookup_maps(3) [OF m(2)])
  obtain compute u where u: "GetCompute pf prov r ?s = (u, Ret compute)"
    and rest: "(case compute of
        Inl err \<Rightarrow> andthen (Delete (pod_key p)) (\<lambda>_. ret (Some err))
      | Inr (iid, ip) \<Rightarrow> launch_and_watch pf prov r (fresh_ref s) iid ip) u = (t, Ret err)"
    using assms(5) unfolding CreatePod_start [OF assms(1-3) m(1)] by (rule andthen_RetE)
  note fu = framedD [OF framed_GetCompute u]
  have pu: "pods u = Some ?m" "notified u = notified s" "config u = Some cfg" "podNotifier u = podNotifier s"
    "pod_names (pods_at u) r = Some (Namespace p, PodName p)"
    using frame_fields [OF fu] assms(1,2) by (simp_all add: pod_names_def)
  show ?thesis
  proof (cases compute)
    case (Inl e)
    then have "t = u\<lparr>pods := Some (delete_key (pod_key p) ?m)\<rparr>" "err = Some e"
      using rest pu(1) by (auto simp: andthen_run Delete_run ret_run)
    then show ?thesis using pu out m(2,3) by (simp add: cache_view_def cache_good_def gm.ok_del gm.ok_put)
  next
    case (Inr ii)
    obtain iid ip where ii: "ii = (iid, ip)" by (cases ii)
    have "launch_and_watch pf prov r (fresh_ref s) iid ip u = (t, Ret err)" using rest Inr ii by simp
    moreover have "monitored u ?mp r (fresh_ref s) False"
      using monitored_frame [OF fu] with_metapod_monitored [OF assms(3)] by blast
    ultimately show ?thesis
      using launch_and_watch_outcome [of pf prov r "fresh_ref s" iid ip u t err cfg ?m
          "Namespace p" "PodName p" ?mp] pu in_cache out m(3) key
      gm.ok_put [OF m(2)] gm.ok_del [OF gm.ok_put [OF m(2)]]
      by (fastforce simp: cache_view_def cache_good_def)
  qed
qed

section \<open>A successful creation\<close>

definition dial_pod :: "ProviderConfig \<Rightarrow> pod \<Rightarrow> dial_request" where
  "dial_pod cfg p =
     dial_request_of (fresh_client cfg (PodIP (Status p)) (Port (VKVMAgentConnectionConfig cfg)))"

text \<open>What the dial leaves: the error, no connection when the timeout came first, or the connection.\<close>

definition dialled :: "(go_error + nat) \<times> bool \<Rightarrow> go_error + nat option" where
  "dialled d = (case fst d of Inl err \<Rightarrow> Inl err | Inr c \<Rightarrow> Inr (if snd d then None else Some c))"

lemma agent_of_run:
  assumes "config s = Some cfg" and "pods_at s r = Some p"
    and "DialContext pf (dial_pod cfg p) (world s) = (d, w)"
  shows "\<exists>v. agent_of pf r s = (s\<lparr>world := w\<rparr>, Ret (v, dialled d))"
proof -
  let ?v = "fresh_client cfg (PodIP (Status p)) (Port (VKVMAgentConnectionConfig cfg))"
  obtain conn ctxDone where d: "d = (conn, ctxDone)" by (cases d)
  have c: "connection ?v = None" by (simp add: fresh_client_def)
  have dial: "DialContext pf (dial_request_of ?v) (world s) = ((conn, ctxDone), w)"
    using assms(3) d by (simp add: dial_pod_def)
  obtain v' where "GetApplicationLifecycleClient pf ?v s = (s\<lparr>world := w\<rparr>, Ret (v',
    case conn of Inl err \<Rightarrow> Inl err | Inr c \<Rightarrow> Inr (if ctxDone then None else Some c)))"
    using GetApplicationLifecycleClient_run [OF c dial] ..
  then show ?thesis
    using assms(1,2) d
    by (cases conn) (simp_all add: agent_of_def andthen_load_pod andthen_Config NewVkvmaClient_run
        andthen_run [of "NewVkvmaClient _ _"] dialled_def)
qed

lemma launchApplication_ok:
  assumes "config s = Some cfg" and "pods_at s r = Some p"
    and "DialContext pf (dial_pod cfg p) (world s) = ((Inr c, False), w1)"
    and "rpc_LaunchApplication pf c p w1 = (None, w2)"
  shows "launchApplication pf r s = (s\<lparr>world := w2\<rparr>, Ret None)"
proof -
  obtain v where "agent_of pf r s = (s\<lparr>world := w1\<rparr>, Ret (v, Inr (Some c)))"
    using agent_of_run [OF assms(1-3)] by (auto simp: dialled_def)
  with assms(2,4) show ?thesis
    by (simp add: launchApplication_split andthen_run load_pod_run rpc_def call_run ret_run)
qed

text \<open>The pod that is sent to the agent: its address fields are the instance's.\<close>

definition addressed :: "string \<Rightarrow> pod \<Rightarrow> pod" where
  "addressed ip p = p\<lparr>Status := (Status p)\<lparr>PodIP := ip, HostIP := ip\<rparr>\<rparr>"

lemma CreatePod_reuse:
  fixes s :: "('w, 'z) prov_scheme"
  assumes "config s = Some cfg" and "pods_at s r = Some p"
    and "handlers_at s (defaultHandler prov) = Some ch" and "pods s = Some m"
    and "annotation p instance_id_key = iid" and "iid \<noteq> []" and "sdk_loads pf cfg (world s) w1"
    and "svc_DescribeInstanceStatus (Svc (the_client pf cfg)) [iid] w1 =
      (Inr (Some [Some ''running'']), w2)"
  shows "CreatePod pf prov r s = andthen (launchApplication pf r) (\<lambda>launchErr. case launchErr of
       Some err \<Rightarrow> andthen (Inc LaunchApplicationErrors) (\<lambda>_. ret (Some err))
     | None \<Rightarrow> tag_and_watch prov r (fresh_ref s) iid)
    ((with_metapod cfg r (pod_key p) (defaultHandler prov) (in_chan ch) m s)
      \<lparr>world := w2, pods_at := (pods_at s)(r \<mapsto> addressed (PodIP (Status p)) p)\<rparr>)"
proof -
  let ?s = "with_metapod cfg r (pod_key p) (defaultHandler prov) (in_chan ch) m s"
  have "GetCompute pf prov r ?s = (?s\<lparr>world := w2\<rparr>, Ret (Inr (iid, PodIP (Status p))))"
    using assms(1,2,5-8) by (intro GetCompute_reuse_run) simp_all
  moreover have "update_pod r (\<lambda>q. q\<lparr>Status := (Status q)\<lparr>PodIP := PodIP (Status p), HostIP := PodIP (Status p)\<rparr>\<rparr>)
      (?s\<lparr>world := w2\<rparr>) = (?s\<lparr>world := w2, pods_at := (pods_at s)(r \<mapsto> addressed (PodIP (Status p)) p)\<rparr>, Ret ())"
    using assms(2) by (simp add: update_pod_run addressed_def)
  ultimately show ?thesis
    unfolding CreatePod_start [OF assms(1-4)]
    by (simp add: andthen_run [of "GetCompute _ _ _"] launch_and_watch_def andthen_run [of "update_pod _ _"])
qed

lemma CreatePod_running:
  fixes s :: "('w, 'z) prov_scheme"
  assumes "config s = Some cfg" and "pods_at s r = Some p"
    and "handlers_at s (defaultHandler prov) = Some ch" and "cache_good s" and "podNotifier s = Some cb"
    and "wpm_config (warmPool prov) = []"
    and "annotation p instance_id_key = iid" and "iid \<noteq> []" and "sdk_loads pf cfg (world s) w1"
    and "svc_DescribeInstanceStatus (Svc (the_client pf cfg)) [iid] w1 =
      (Inr (Some [Some ''running'']), w2)"
    and "DialContext pf (dial_pod cfg p) w2 = ((Inr c, False), w3)"
    and "rpc_LaunchApplication pf c (addressed (PodIP (Status p)) p) w3 = (None, w4)"
  shows "\<exists>t mp pm. CreatePod pf prov r s = (t, Ret None) \<and> world t = w4 \<and>
    cache_view t = (cache_view s)(pod_key p \<mapsto> mp) \<and> monitored t mp r pm True \<and>
    notified t = notified s @ [(cb, r, addressed (PodIP (Status p)) p)] \<and>
    counters t = (counters s)(PodsLaunched := Suc (counters s PodsLaunched)) \<and>
    config t = Some cfg \<and> cache_good t \<and> podNotifier t = Some cb \<and>
    pods_at t = (pods_at s)(r \<mapsto> addressed (PodIP (Status p)) p)"
proof -
  obtain m where m: "pods s = Some m" "go_map_ok m" "cache_view s = lookup m"
    using assms(4) by (rule cache_goodE)
  let ?mp = "Suc (Suc (Suc (fresh_ref s)))"
  let ?s = "with_metapod cfg r (pod_key p) (defaultHandler prov) (in_chan ch) m s"
  let ?p = "addressed (PodIP (Status p)) p"
  let ?x = "?s\<lparr>world := w4, pods_at := (pods_at s)(r \<mapsto> ?p)\<rparr>"
  have "dial_pod cfg ?p = dial_pod cfg p" by (simp add: dial_pod_def addressed_def)
  then have app: "launchApplication pf r (?s\<lparr>world := w2, pods_at := (pods_at s)(r \<mapsto> ?p)\<rparr>) = (?x, Ret None)"
    using assms(1,11,12)
    by (subst launchApplication_ok [where cfg = cfg and p = ?p and c = c and ?w1.0 = w3 and ?w2.0 = w4])
      simp_all
  have pod: "pods_at ?x r = Some ?p" by simp
  have mon: "monitored ?x ?mp r (fresh_ref s) False"
    using with_metapod_monitored [OF assms(3), of cfg r "pod_key p" m]
    by (simp add: monitored_def podmon_complete_def)
  obtain pmon f where pmon: "podmon_complete ?x (fresh_ref s) pmon" "pm_pod pmon = r"
    and meta: "metapods_at ?x ?mp = Some \<lparr>mp_pod = r, mp_monitor = Some (fresh_ref s), mp_notifier = f\<rparr>"
    using mon unfolding monitored_def by blast
  have "config ?x = Some cfg" using assms(1) by simp
  from Start_complete [OF pmon(1) this] obtain y where
    y: "Start (fresh_ref s) ?x = (y, Ret ())" "pods y = pods ?x" "metapods_at y = metapods_at ?x"
      "podNotifier y = podNotifier ?x" "notified y = notified ?x" "pods_at y = pods_at ?x"
      "world y = world ?x" "counters y = counters ?x" "config y = config ?x"
      "podmon_complete y (fresh_ref s) (pmon\<lparr>pm_cancel := Some (fresh_ref ?x)\<rparr>)" by metis
  let ?t = "y\<lparr>notified := notified s @ [(cb, r, ?p)],
    counters := (counters s)(PodsLaunched := Suc (counters s PodsLaunched))\<rparr>"
  have "CreatePod pf prov r s = (?t, Ret None)"
    unfolding CreatePod_reuse [OF assms(1-3) m(1) assms(7-10)] create_parts
    using assms(5,6) app y pod
    by (simp add: andthen_run load_pod_run PodIsWarmPool_def ret_run gets_run call_notifier_run Inc_run)
  moreover have "cache_view ?t = (cache_view s)(pod_key p \<mapsto> ?mp)"
    using y(2) m by (simp add: cache_view_def fun_eq_iff gm.look_put)
  moreover have "cache_good ?t" using y(2) m(2) by (simp add: cache_good_def gm.ok_put)
  moreover have "monitored ?t ?mp r (fresh_ref s) True"
    using y(3,10) meta pmon(2) unfolding monitored_def by (auto simp: podmon_complete_def)
  ultimately show ?thesis
    using y(4,6,7,9) assms(1,5) by (intro exI [of _ ?t] exI [of _ ?mp] exI [of _ "fresh_ref s"]) simp
qed

section \<open>Deleting a pod\<close>

lemma Stop_complete:
  assumes "podmon_complete s pm pmon" and "pm_cancel pmon = Some ctx"
  obtains u where "Stop pm s = (u, Ret ())" "pods u = pods s" "metapods_at u = metapods_at s"
    "podNotifier u = podNotifier s" "notified u = notified s" "pods_at u = pods_at s" "world u = world s"
    "counters u = counters s" "config u = config s" "clock u = clock s"
    "cancelled_ctxs u = ctx # cancelled_ctxs s"
proof -
  obtain ch v a mv ma where c: "podmons_at s pm = Some pmon" "handlers_at s (pm_handler pmon) = Some ch"
    "Monitors pmon = [v, a]" "v \<noteq> a" "monitors_at s v = Some mv" "monitors_at s a = Some ma"
    using assms(1) by (auto simp: podmon_complete_def)
  show ?thesis by (rule that [OF Stop_run [OF c assms(2)]]) simp_all
qed

lemma stopPodMonitor_run:
  assumes "monitored s mp r pm True"
  obtains u ctx where "stopPodMonitor (Some mp) s = (u, Ret None)" "pods u = pods s"
    "metapods_at u = metapods_at s" "podNotifier u = podNotifier s" "notified u = notified s"
    "pods_at u = pods_at s" "world u = world s" "counters u = counters s" "config u = config s"
    "clock u = clock s" "cancelled_ctxs u = ctx # cancelled_ctxs s"
proof -
  obtain f pmon ctx where meta: "metapods_at s mp = Some \<lparr>mp_pod = r, mp_monitor = Some pm, mp_notifier = f\<rparr>"
    and pmon: "podmon_complete s pm pmon" "pm_cancel pmon = Some ctx"
    using assms unfolding monitored_def by auto
  from Stop_complete [OF pmon] obtain u where u: "Stop pm s = (u, Ret ())" "pods u = pods s"
    "metapods_at u = metapods_at s" "podNotifier u = podNotifier s" "notified u = notified s"
    "pods_at u = pods_at s" "world u = world s" "counters u = counters s" "config u = config s"
    "clock u = clock s" "cancelled_ctxs u = ctx # cancelled_ctxs s" .
  have "stopPodMonitor (Some mp) s = (u, Ret None)"
    using meta u(1) by (simp add: stopPodMonitor_def andthen_run load_metapod_run ret_run)
  from that [OF this u(2-11)] show ?thesis .
qed

lemma stopPodMonitor_unstarted:
  assumes "monitored s mp r pm False"
  shows "stopPodMonitor (Some mp) s = (s, Crash NilFuncCall)"
proof -
  obtain f pmon where "metapods_at s mp = Some \<lparr>mp_pod = r, mp_monitor = Some pm, mp_notifier = f\<rparr>"
    "podmons_at s pm = Some pmon" "pm_cancel pmon = None"
    using assms unfolding monitored_def podmon_complete_def by auto
  then show ?thesis
    by (simp add: stopPodMonitor_def andthen_run load_metapod_run Stop_unstarted)
qed

text \<open>The world after the agent was told to terminate, if it could be reached.\<close>

definition told :: "('w, 'e) platform_scheme \<Rightarrow> go_error + nat option \<Rightarrow> 'w \<Rightarrow> 'w" where
  "told pf a w = (case a of Inr (Some c) \<Rightarrow> snd (rpc_TerminateApplication pf c w) | _ \<Rightarrow> w)"

lemma terminateApp_run:
  assumes "config s = Some cfg" and "metapods_at s mp = Some me" and "pods_at s (mp_pod me) = Some q"
    and "DialContext pf (dial_pod cfg q) (world s) = (d, w)" and "dialled d \<noteq> Inr None"
  shows "\<exists>c e. terminateApp pf (Some mp) s =
    (s\<lparr>world := told pf (dialled d) w, counters := c(TerminateApplicationErrors := counters s TerminateApplicationErrors,
       EC2Terminated := counters s EC2Terminated)\<rparr>, Ret e)"
proof -
  have split: "terminateApp pf (Some mp) s = andthen (agent_of pf (mp_pod me)) (\<lambda>(_, appClient). case appClient of
       Inl err \<Rightarrow> andthen (Inc GRPCAppClientErrors) (\<lambda>_. ret (Some err))
     | Inr client \<Rightarrow> rpc client (rpc_TerminateApplication pf)) s"
    using assms(2) by (simp add: terminateApp_def agent_of_def andthen_assoc andthen_run [of "load_metapod _"]
        load_metapod_run)
  obtain v where v: "agent_of pf (mp_pod me) s = (s\<lparr>world := w\<rparr>, Ret (v, dialled d))"
    using agent_of_run [OF assms(1,3,4)] ..
  show ?thesis
  proof (cases "dialled d")
    case (Inl err)
    with v show ?thesis
      unfolding split
      by (intro exI [of _ "(counters s)(GRPCAppClientErrors := Suc (counters s GRPCAppClientErrors))"] exI [of _ "Some err"])
        (simp add: andthen_run Inc_run ret_run told_def fun_upd_twist)
  next
    case (Inr client)
    then obtain c where "client = Some c" using assms(5) by (cases client) auto
    with Inr v show ?thesis
      unfolding split
      by (intro exI [of _ "counters s"] exI [of _ "fst (rpc_TerminateApplication pf c w)"])
        (simp add: andthen_run rpc_def call_run told_def)
  qed
qed

lemma DeleteCompute_ok:
  assumes "config s = Some cfg" and "pods_at s r = Some p" and "annotation p instance_id_key = iid"
    and "iid \<noteq> []" and "sdk_loads sdk cfg (world s) w1"
    and "svc_TerminateInstances (Svc (the_client sdk cfg)) [iid] w1 = (Inr (Some i # rest), w2)"
  shows "DeleteCompute sdk r s = (s\<lparr>world := w2,
    counters := (counters s)(EC2Terminated := Suc (counters s EC2Terminated))\<rparr>, Ret None)"
  using assms
  by (simp add: DeleteCompute_def deleteCompute_def TerminateEC2_def andthen_load_pod
      andthen_run [of "andthen _ _"] andthen_NewEc2Client TerminateInstances_def andthen_call index_def
      andthen_run [of "Inc _"] Inc_run ret_run)

lemma terminate_status_twice [simp]:
  "terminate_status st (terminate_status st' x) = terminate_status st x"
  by (simp add: terminate_status_def)

end
