(* ===== verification/Provider_Life.thy ===== *)
theory Provider_Life
  imports Provider_Facts
begin

text \<open>
  The life of a pod at the provider: what \<open>CreatePod\<close>, \<open>UpdatePod\<close> and \<open>DeletePod\<close> promise, what the
  failures in between leave behind, and the start-up and the status loop.
\<close>

section \<open>Creating\<close>

text \<open>
  C5: what a return of \<open>CreatePod\<close> tells, whatever AWS and the agent do.  Success: the pod is in the cache
  with a started monitor of its own, and Virtual Kubelet was notified of it once.  An error: nothing was
  notified, and the pod is out of the cache, except when the last tag of a warm pool instance could not be
  written: then it stays in the cache with a monitor that was never started.  Other pods' entries are
  untouched in all cases.
\<close>

theorem CreatePod_outcome:
  fixes s :: "('w, 'z) prov_scheme"
  assumes "config s = Some cfg" and "pods_at s r = Some p"
    and "handlers_at s (defaultHandler prov) = Some ch" and "cache_good s"
    and "CreatePod pf prov r s = (t, Ret err)"
  shows "case err of
      None \<Rightarrow> \<exists>mp pm cb q. cache_view t = (cache_view s)(pod_key p \<mapsto> mp) \<and> monitored t mp r pm True \<and>
        podNotifier s = Some cb \<and> notified t = notified s @ [(cb, r, q)] \<and> pods_at t r = Some q
    | Some e \<Rightarrow> notified t = notified s \<and>
        (cache_view t = (cache_view s)(pod_key p := None) \<or>
         wpm_config (warmPool prov) \<noteq> [] \<and>
         (\<exists>mp pm. cache_view t = (cache_view s)(pod_key p \<mapsto> mp) \<and> monitored t mp r pm False))"
  using CreatePod_cases [OF assms] by (auto split: option.splits)

text \<open>
  C18: without a warm pool, creating a pod again whose instance still runs, as Virtual Kubelet does after a
  restart of the provider, succeeds without launching anything: the status query, the dial and the launch
  of the application are the only calls; the pod is in the cache, watched, reported once, and counted.
  (With a warm pool \<open>CreatePod\<close> goes on to tag the instance, which can fail: \<open>CreatePod_outcome\<close>.)
\<close>

theorem CreatePod_on_running_instance:
  fixes s :: "('w, 'z) prov_scheme"
  assumes "config s = Some cfg" and "pods_at s r = Some p"
    and "handlers_at s (defaultHandler prov) = Some ch" and "cache_good s" and "podNotifier s = Some cb"
    and "wpm_config (warmPool prov) = []"
    and "annotation p instance_id_key = iid" and "iid \<noteq> []" and "sdk_loads pf cfg (world s) w1"
    and "svc_DescribeInstanceStatus (Svc (the_client pf cfg)) [iid] w1 =
      (Inr (Some [Some ''running'']), w2)"
    and "DialContext pf (dial_pod cfg p) w2 = ((Inr c, False), w3)"
    and "rpc_LaunchApplication pf c (addressed (PodIP (Status p)) p) w3 = (None, w4)"
  shows "\<exists>t mp pm. CreatePod pf prov r s = (t, Ret None) \<and> world t = w4 \<and>
    cache_view t = (cache_view s)(pod_key p \<mapsto> mp) \<and> monitored t mp r pm True \<and>
    notified t = notified s @ [(cb, r, addressed (PodIP (Status p)) p)] \<and>
    counters t = (counters s)(PodsLaunched := Suc (counters s PodsLaunched))"
  using CreatePod_running [OF assms] by blast

text \<open>A state with one pod whose instance runs.\<close>

definition running_cloud :: cloud where
  "running_cloud = empty_cloud\<lparr>vms := [sample_vm ''i-7'' ''running'' ''x'']\<rparr>"

definition running_state :: "cloud prov" where
  "running_state = (sample_prov running_cloud make_map)\<lparr>pods_at := [0 \<mapsto> with_instance ''i-7'' sample_pod]\<rparr>"

lemma running_state_fields [simp]:
  "config running_state = Some sample_config" "world running_state = running_cloud"
  "pods_at running_state = [0 \<mapsto> with_instance ''i-7'' sample_pod]"
  "handlers_at running_state = [1 \<mapsto> \<lparr>in_chan = 0, IsReceiving = False\<rparr>]"
  "podNotifier running_state = Some 9" "notified running_state = []" "pods running_state = Some make_map"
  "counters running_state = (\<lambda>_. 0)" "cache_good running_state" "cache_view running_state = Map.empty"
  by (simp_all add: running_state_def)
    (simp_all add: sample_prov_def cache_good_def cache_view_def gm.ok_empty gm.look_empty fun_eq_iff)

lemma sample_provider_fields [simp]:
  "defaultHandler (sample_provider pools) = 1" "warmPool (sample_provider pools) = sample_wpm pools"
  "wpm_config (sample_wpm pools) = pools"
  by (simp_all add: sample_provider_def sample_wpm_def)

lemma pod_key_sample [simp]: "pod_key (with_instance iid sample_pod) = ''default-web''"
  by (simp add: pod_key_def GetPodCacheKey_def) (simp add: sample_pod_def)

lemma running_status [simp]:
  "cloud_status [''i-7''] running_cloud = (Inr (Some [Some ''running'']), running_cloud)"
  by (simp add: running_cloud_def cloud_status_def sample_vm_def)

lemma sample_pod_ip [simp]: "PodIP (Status sample_pod) = ''10.0.0.7''"
  by (simp add: sample_pod_def)

theorem CreatePod_on_running_instance_witness:
  "\<exists>t mp pm. CreatePod cloud_platform (sample_provider []) 0 running_state = (t, Ret None) \<and>
    world t = running_cloud \<and> cache_view t = [''default-web'' \<mapsto> mp] \<and> monitored t mp 0 pm True \<and>
    notified t = [(9, 0, addressed ''10.0.0.7'' (with_instance ''i-7'' sample_pod))] \<and>
    counters t PodsLaunched = 1"
  using CreatePod_on_running_instance [of running_state sample_config 0 "with_instance ''i-7'' sample_pod"
      "sample_provider []" _ 9 "''i-7''" cloud_platform running_cloud running_cloud 7 running_cloud
      running_cloud]
  by simp (metis One_nat_def fun_upd_same)

lemma create_running:
  obtains t mp pm where "CreatePod cloud_platform (sample_provider []) 0 running_state = (t, Ret None)"
    "world t = running_cloud" "cache_view t = [''default-web'' \<mapsto> mp]" "monitored t mp 0 pm True"
    "notified t = [(9, 0, addressed ''10.0.0.7'' (with_instance ''i-7'' sample_pod))]"
    "config t = Some sample_config" "cache_good t" "podNotifier t = Some 9"
    "pods_at t = [0 \<mapsto> addressed ''10.0.0.7'' (with_instance ''i-7'' sample_pod)]"
  using CreatePod_running [of running_state sample_config 0 "with_instance ''i-7'' sample_pod"
      "sample_provider []" _ 9 "''i-7''" cloud_platform running_cloud running_cloud 7 running_cloud
      running_cloud]
  by auto

theorem CreatePod_outcome_witness:
  "\<exists>t mp pm cb q. CreatePod cloud_platform (sample_provider []) 0 running_state = (t, Ret None) \<and>
    cache_view t = [''default-web'' \<mapsto> mp] \<and> monitored t mp 0 pm True \<and> notified t = [(cb, 0, q)]"
proof -
  obtain t where t: "CreatePod cloud_platform (sample_provider []) 0 running_state = (t, Ret None)"
    by (rule create_running)
  show ?thesis
    using CreatePod_outcome [OF _ _ _ _ t, where cfg = sample_config
        and ch = "\<lparr>in_chan = 0, IsReceiving = False\<rparr>" and p = "with_instance ''i-7'' sample_pod"] t by auto
qed

section \<open>Deleting\<close>

text \<open>The pod that Virtual Kubelet is told about: every container terminated.\<close>

definition deleted_pod :: "nat \<Rightarrow> pod \<Rightarrow> pod" where
  "deleted_pod now p =
     p\<lparr>Status := terminate_status (terminated_state ''Pod deletion requested'' [] now) (Status p)\<rparr>"

lemma notifyPodDelete_run:
  assumes "pods_at s r = Some p" and "podNotifier s = Some cb"
  shows "notifyPodDelete r s =
    (s\<lparr>pods_at := (pods_at s)(r \<mapsto> deleted_pod (clock s) p),
       notified := notified s @ [(cb, r, deleted_pod (clock s) p)]\<rparr>, Ret ())"
  using assms
  by (simp add: notifyPodDelete_def andthen_run Now_run update_pod_run gets_run call_notifier_run deleted_pod_def)

lemma DeletePod_run:
  fixes s :: "('w, 'z) prov_scheme"
  assumes "config s = Some cfg" and "pods_at s r = Some p" and "cache_good s"
    and "cache_view s (pod_key p) = Some mp" and "monitored s mp r' pm True" and "pods_at s r' = Some q"
    and "podNotifier s = Some cb"
    and "DialContext pf (dial_pod cfg q) (world s) = (d, w1)" and "dialled d \<noteq> Inr None"
    and "annotation p instance_id_key = iid" and "iid \<noteq> []"
    and "sdk_loads pf cfg (told pf (dialled d) w1) w2"
    and "svc_TerminateInstances (Svc (the_client pf cfg)) [iid] w2 = (Inr (Some i # rest), w3)"
  shows "\<exists>t ctx. DeletePod pf r s = (t, Ret None) \<and> world t = w3 \<and>
    cache_view t = (cache_view s)(pod_key p := None) \<and> cancelled_ctxs t = ctx # cancelled_ctxs s \<and>
    notified t = notified s @ [(cb, r, deleted_pod (clock s) p)] \<and>
    counters t EC2Terminated = Suc (counters s EC2Terminated)"
proof -
  obtain m where m: "pods s = Some m" "go_map_ok m" "cache_view s = lookup m"
    using assms(3) by (rule cache_goodE)
  obtain u ctx where u: "stopPodMonitor (Some mp) s = (u, Ret None)" "pods u = pods s"
    "metapods_at u = metapods_at s" "podNotifier u = podNotifier s" "notified u = notified s"
    "pods_at u = pods_at s" "world u = world s" "counters u = counters s" "config u = config s"
    "clock u = clock s" "cancelled_ctxs u = ctx # cancelled_ctxs s"
    using assms(5) by (rule stopPodMonitor_run)
  obtain f where me: "metapods_at s mp = Some \<lparr>mp_pod = r', mp_monitor = Some pm, mp_notifier = f\<rparr>"
    using assms(5) unfolding monitored_def by blast
  obtain c e where app: "terminateApp pf (Some mp) u =
    (u\<lparr>world := told pf (dialled d) w1, counters := c(TerminateApplicationErrors :=
       counters u TerminateApplicationErrors, EC2Terminated := counters u EC2Terminated)\<rparr>, Ret e)"
    using terminateApp_run [of u cfg mp _ q pf d w1] u me assms(1,6,8,9) by fastforce
  let ?c = "if e \<noteq> None then c(TerminateApplicationErrors := Suc (counters s TerminateApplicationErrors),
      EC2Terminated := counters s EC2Terminated)
    else c(TerminateApplicationErrors := counters s TerminateApplicationErrors,
      EC2Terminated := counters s EC2Terminated)"
  let ?v = "u\<lparr>world := told pf (dialled d) w1, counters := ?c\<rparr>"
  have inc: "(if e \<noteq> None then Inc TerminateApplicationErrors else ret ()) (u\<lparr>world := told pf (dialled d) w1,
      counters := c(TerminateApplicationErrors := counters u TerminateApplicationErrors,
        EC2Terminated := counters u EC2Terminated)\<rparr>) = (?v, Ret ())"
    using u(8) by (simp add: Inc_run ret_run fun_upd_twist)
  let ?x = "?v\<lparr>world := w3, counters := (counters ?v)(EC2Terminated := Suc (counters ?v EC2Terminated))\<rparr>"
  have del: "DeleteCompute pf r ?v = (?x, Ret None)"
    using assms(1,2,10-13) u(6,9) by (intro DeleteCompute_ok) simp_all
  have get: "Get (pod_key p) s = (s, Ret (Some mp))"
    using m assms(4) by (simp add: cache_runs)
  have out: "lookup (delete_key (pod_key p) m) = (lookup m)(pod_key p := None)"
    by (rule lookup_maps(2) [OF m(2)])
  let ?t = "?x\<lparr>pods := Some (delete_key (pod_key p) m), pods_at := (pods_at s)(r \<mapsto> deleted_pod (clock s) p),
    notified := notified s @ [(cb, r, deleted_pod (clock s) p)]\<rparr>"
  have "DeletePod pf r s = (?t, Ret None)"
    unfolding DeletePod_def andthen_load_pod [OF assms(2)] Let_def
    pod_key_def [symmetric]
      andthen_eqI [of "Get _" s, OF get]
      andthen_eqI [of "stopPodMonitor _" s, OF u(1)] andthen_eqI [of "terminateApp _ _" u, OF app]
      andthen_eqI [of "if _ then _ else _", OF inc] andthen_eqI [of "DeleteCompute _ _" ?v, OF del] option.case
    using assms(2,7) m(1) u(2,4,5,6,10)
    by (simp add: andthen_run Delete_run Now_run update_pod_run notifyPodDelete_run ret_run deleted_pod_def
        del: if_not_P)
  moreover have "counters ?t EC2Terminated = Suc (counters s EC2Terminated)" by simp
  ultimately show ?thesis
    using m(3) u(11) by (intro exI [of _ ?t] exI [of _ ctx]) (simp add: cache_view_def out)
qed

text \<open>
  C11: deleting a pod that was created, while its agent can be reached or the dial fails cleanly: the
  monitoring is cancelled, the agent is told, exactly the pod's instance is terminated and counted, the
  pod leaves the cache with the other entries untouched, and Virtual Kubelet is told once, with every
  container terminated.  A refusal of the agent does not stop the deletion.
\<close>

theorem DeletePod_deletes:
  fixes s :: "('w, 'z) prov_scheme"
  assumes "config s = Some cfg" and "pods_at s r = Some p" and "cache_good s"
    and "cache_view s (pod_key p) = Some mp" and "monitored s mp r' pm True" and "pods_at s r' = Some q"
    and "podNotifier s = Some cb"
    and "DialContext pf (dial_pod cfg q) (world s) = (d, w1)" and "dialled d \<noteq> Inr None"
    and "annotation p instance_id_key = iid" and "iid \<noteq> []"
    and "sdk_loads pf cfg (told pf (dialled d) w1) w2"
    and "svc_TerminateInstances (Svc (the_client pf cfg)) [iid] w2 = (Inr (Some i # rest), w3)"
  shows "\<exists>t ctx. DeletePod pf r s = (t, Ret None) \<and> world t = w3 \<and>
    cache_view t = (cache_view s)(pod_key p := None) \<and> cancelled_ctxs t = ctx # cancelled_ctxs s \<and>
    notified t = notified s @ [(cb, r, deleted_pod (clock s) p)] \<and>
    counters t EC2Terminated = Suc (counters s EC2Terminated)"
  by (rule DeletePod_run [OF assms])

lemma addressed_fields [simp]:
  "annotation (addressed ip p) k = annotation p k" "pod_key (addressed ip p) = pod_key p"
  by (simp_all add: addressed_def annotation_def pod_key_def)

lemma terminate_running [simp]:
  "cloud_terminate [''i-7''] running_cloud = (Inr [Some ''i-7''], empty_cloud)"
  by (simp add: running_cloud_def cloud_terminate_def sample_vm_def empty_cloud_def)

theorem DeletePod_deletes_witness:
  "\<exists>t u. CreatePod cloud_platform (sample_provider []) 0 running_state = (t, Ret None) \<and>
    length (vms (world t)) = 1 \<and> DeletePod cloud_platform 0 t = (u, Ret None) \<and>
    vms (world u) = [] \<and> cache_view u = Map.empty \<and> length (notified u) = 2"
proof -
  obtain t mp pm where t: "CreatePod cloud_platform (sample_provider []) 0 running_state = (t, Ret None)"
    "world t = running_cloud" "cache_view t = [''default-web'' \<mapsto> mp]" "monitored t mp 0 pm True"
    "notified t = [(9, 0, addressed ''10.0.0.7'' (with_instance ''i-7'' sample_pod))]"
    "config t = Some sample_config" "cache_good t" "podNotifier t = Some 9"
    "pods_at t = [0 \<mapsto> addressed ''10.0.0.7'' (with_instance ''i-7'' sample_pod)]"
    by (rule create_running)
  let ?p = "addressed ''10.0.0.7'' (with_instance ''i-7'' sample_pod)"
  have d: "DialContext cloud_platform (dial_pod sample_config ?p) (world t) = ((Inr 7, False), running_cloud)"
    using t(2) by simp
  have told: "told cloud_platform (dialled (Inr 7, False)) running_cloud = running_cloud"
    by (simp add: told_def dialled_def)
  show ?thesis
    using DeletePod_deletes [OF t(6) _ t(7) _ t(4) _ t(8) d, of 0 ?p "''i-7''" running_cloud "''i-7''" "[]"
        empty_cloud] t(1-3,5,9)
    by (simp add: told) (auto simp: dialled_def running_cloud_def empty_cloud_def)
qed

section \<open>Failures\<close>

lemma clean_up_run:
  assumes "config s = Some cfg" and "pods_at s r = Some p" and "pods s = Some m"
    and "annotation p instance_id_key = iid" and "iid \<noteq> []" and "sdk_loads sdk cfg (world s) w1"
    and "svc_TerminateInstances (Svc (the_client sdk cfg)) [iid] w1 = (Inr (Some i # rest), w2)"
  shows "clean_up sdk r s = (s\<lparr>world := w2,
    counters := (counters s)(EC2Terminated := Suc (counters s EC2Terminated)),
    pods := Some (delete_key (pod_key p) m)\<rparr>, Ret ())"
  using DeleteCompute_ok [OF assms(1,2,4-7)] assms(2,3)
  by (simp add: clean_up_def andthen_run load_pod_run Delete_run pod_key_def)

lemma launchApplication_undialled:
  assumes "config s = Some cfg" and "pods_at s r = Some p" and "pods s = Some m"
    and "DialContext pf (dial_pod cfg p) (world s) = ((Inl e, late), w1)"
    and "annotation p instance_id_key = iid" and "iid \<noteq> []" and "sdk_loads pf cfg w1 w2"
    and "svc_TerminateInstances (Svc (the_client pf cfg)) [iid] w2 = (Inr (Some i # rest), w3)"
  shows "launchApplication pf r s = (s\<lparr>world := w3,
    counters := (counters s)(GRPCAppClientErrors := Suc (counters s GRPCAppClientErrors),
      EC2Terminated := Suc (counters s EC2Terminated)),
    pods := Some (delete_key (pod_key p) m)\<rparr>, Ret (Some e))"
proof -
  obtain v where v: "agent_of pf r s = (s\<lparr>world := w1\<rparr>, Ret (v, Inl e))"
    using agent_of_run [OF assms(1,2,4)] by (auto simp: dialled_def)
  let ?u = "s\<lparr>world := w1, counters := (counters s)(GRPCAppClientErrors := Suc (counters s GRPCAppClientErrors))\<rparr>"
  have "clean_up pf r ?u = (?u\<lparr>world := w3,
      counters := (counters ?u)(EC2Terminated := Suc (counters ?u EC2Terminated)),
      pods := Some (delete_key (pod_key p) m)\<rparr>, Ret ())"
    using assms by (intro clean_up_run) simp_all
  with v show ?thesis
    by (simp add: launchApplication_split andthen_run Inc_run ret_run)
qed

lemma CreatePod_undialled_run:
  fixes s :: "('w, 'z) prov_scheme"
  assumes "config s = Some cfg" and "pods_at s r = Some p"
    and "handlers_at s (defaultHandler prov) = Some ch" and "cache_good s"
    and "annotation p instance_id_key = iid" and "iid \<noteq> []" and "sdk_loads pf cfg (world s) w1"
    and "svc_DescribeInstanceStatus (Svc (the_client pf cfg)) [iid] w1 =
      (Inr (Some [Some ''running'']), w2)"
    and "DialContext pf (dial_pod cfg p) w2 = ((Inl e, late), w3)" and "sdk_loads pf cfg w3 w4"
    and "svc_TerminateInstances (Svc (the_client pf cfg)) [iid] w4 = (Inr (Some i # rest), w5)"
  shows "\<exists>t. CreatePod pf prov r s = (t, Ret (Some e)) \<and> world t = w5 \<and>
    cache_view t = (cache_view s)(pod_key p := None) \<and> notified t = notified s \<and>
    counters t = (counters s)(GRPCAppClientErrors := Suc (counters s GRPCAppClientErrors),
      EC2Terminated := Suc (counters s EC2Terminated),
      LaunchApplicationErrors := Suc (counters s LaunchApplicationErrors))"
proof -
  obtain m where m: "pods s = Some m" "go_map_ok m" "cache_view s = lookup m"
    using assms(4) by (rule cache_goodE)
  let ?mp = "Suc (Suc (Suc (fresh_ref s)))"
  let ?p = "addressed (PodIP (Status p)) p"
  let ?s = "(with_metapod cfg r (pod_key p) (defaultHandler prov) (in_chan ch) m s)
    \<lparr>world := w2, pods_at := (pods_at s)(r \<mapsto> ?p)\<rparr>"
  have dial: "dial_pod cfg ?p = dial_pod cfg p" by (simp add: dial_pod_def addressed_def)
  let ?t = "?s\<lparr>world := w5,
    counters := (counters ?s)(GRPCAppClientErrors := Suc (counters ?s GRPCAppClientErrors),
      EC2Terminated := Suc (counters ?s EC2Terminated)),
    pods := Some (delete_key (pod_key ?p) (assign (pod_key p) ?mp m))\<rparr>"
  have app: "launchApplication pf r ?s = (?t, Ret (Some e))"
    using assms(1,5,6,9-11) dial by (intro launchApplication_undialled) simp_all
  have out: "lookup (delete_key (pod_key p) (assign (pod_key p) ?mp m)) = (lookup m)(pod_key p := None)"
    by (rule lookup_maps(3) [OF m(2)])
  show ?thesis
    unfolding CreatePod_reuse [OF assms(1-3) m(1) assms(5-8)] andthen_eqI [of "launchApplication pf r" ?s, OF app]
    using m(3) out by (simp add: andthen_run Inc_run ret_run cache_view_def)
qed

text \<open>
  When the agent of an instance cannot be dialled, \<open>CreatePod\<close> returns the dial's error and gives
  up the instance, even one that was running the pod already: it is terminated, the pod is out of the
  cache, nothing is notified, and three counters record it.
\<close>

theorem CreatePod_undialled:
  fixes s :: "('w, 'z) prov_scheme"
  assumes "config s = Some cfg" and "pods_at s r = Some p"
    and "handlers_at s (defaultHandler prov) = Some ch" and "cache_good s"
    and "annotation p instance_id_key = iid" and "iid \<noteq> []" and "sdk_loads pf cfg (world s) w1"
    and "svc_DescribeInstanceStatus (Svc (the_client pf cfg)) [iid] w1 =
      (Inr (Some [Some ''running'']), w2)"
    and "DialContext pf (dial_pod cfg p) w2 = ((Inl e, late), w3)" and "sdk_loads pf cfg w3 w4"
    and "svc_TerminateInstances (Svc (the_client pf cfg)) [iid] w4 = (Inr (Some i # rest), w5)"
  shows "\<exists>t. CreatePod pf prov r s = (t, Ret (Some e)) \<and> world t = w5 \<and>
    cache_view t = (cache_view s)(pod_key p := None) \<and> notified t = notified s \<and>
    counters t = (counters s)(GRPCAppClientErrors := Suc (counters s GRPCAppClientErrors),
      EC2Terminated := Suc (counters s EC2Terminated),
      LaunchApplicationErrors := Suc (counters s LaunchApplicationErrors))"
  by (rule CreatePod_undialled_run [OF assms])

definition undialled_platform :: "cloud platform" where
  "undialled_platform = cloud_platform\<lparr>DialContext := (\<lambda>_ w. ((Inl (ErrorString ''timeout''), True), w))\<rparr>"

lemma undialled_platform_fields [simp]:
  "DialContext undialled_platform = (\<lambda>_ w. ((Inl (ErrorString ''timeout''), True), w))"
  "Svc (the_client undialled_platform cfg) = cloud_service"
  "sdk_loads undialled_platform cfg w w' \<longleftrightarrow> w' = w"
  by (auto simp: undialled_platform_def the_client_def sdk_loads_def)

theorem CreatePod_undialled_witness:
  "\<exists>t. CreatePod undialled_platform (sample_provider []) 0 running_state =
      (t, Ret (Some (ErrorString ''timeout''))) \<and>
    vms (world t) = [] \<and> cache_view t = Map.empty \<and> notified t = []"
  using CreatePod_undialled [of running_state sample_config 0 "with_instance ''i-7'' sample_pod"
      "sample_provider []" _ "''i-7''" undialled_platform running_cloud running_cloud "ErrorString ''timeout''"
      True running_cloud running_cloud "''i-7''" "[]" empty_cloud]
  by simp (auto simp: empty_cloud_def)

text \<open>
  C32: an instance that was launched but does not become running in time is lost: \<open>CreatePod\<close> returns the
  waiter's error with the pod out of the cache, the launch counted, and no call to terminate the instance
  whose id the pod's annotation now names.
\<close>

theorem CreatePod_leaks_slow_instance:
  fixes s :: "('w, 'z) prov_scheme"
  assumes "config s = Some cfg" and "pods_at s r = Some p"
    and "handlers_at s (defaultHandler prov) = Some ch" and "cache_good s"
    and "Annotations p = Some a" and "annotation p instance_id_key = []" and "wpm_config (warmPool prov) = []"
    and "launches pf cfg p (next_order s) presigned iid (world s) w" and "sdk_loads pf cfg w w1"
    and "wait_InstanceRunning (Svc (the_client pf cfg)) (WaiterSvc (the_client pf cfg))
      60000000000 (by_id iid) w1 = (Some err, w2)"
  shows "\<exists>t e q. CreatePod pf prov r s = (t, Ret (Some e)) \<and> world t = w2 \<and>
    cache_view t = (cache_view s)(pod_key p := None) \<and> notified t = notified s \<and>
    counters t = (counters s)(EC2Launched := Suc (counters s EC2Launched)) \<and>
    pods_at t r = Some q \<and> annotation q instance_id_key = iid"
proof -
  obtain m where m: "pods s = Some m" "go_map_ok m" "cache_view s = lookup m"
    using assms(4) by (rule cache_goodE)
  let ?mp = "Suc (Suc (Suc (fresh_ref s)))"
  let ?s = "with_metapod cfg r (pod_key p) (defaultHandler prov) (in_chan ch) m s"
  let ?q = "p\<lparr>Annotations := Some (assign instance_id_key iid a)\<rparr>"
  let ?u = "?s\<lparr>world := w, choices := tl (choices ?s), pods_at := (pods_at ?s)(r \<mapsto> ?q),
    counters := (counters ?s)(EC2Launched := Suc (counters ?s EC2Launched))\<rparr>"
  have l: "launches pf cfg p (next_order ?s) presigned iid (world ?s) w"
    using assms(8) by (simp add: next_order_def)
  have "config ?u = Some cfg" "sdk_loads pf cfg (world ?u) w1" using assms(1,9) by simp_all
  note ip = GetPrivateIP_timeout [OF this assms(10)]
  have "GetCompute pf prov r ?s = createCompute pf r ?s"
    using assms(2,6,7)
    by (simp add: GetCompute_def andthen_run podHasInstance_none load_pod_run PodIsWarmPool_def)
  moreover have "createCompute pf r ?s = (?u\<lparr>world := w2\<rparr>,
      Ret (Inl (ErrorString (Error err @ '' , Input instanceId :'' @ iid))))"
    using CreateEC2_step [OF _ _ assms(5) l] assms(1,2) ip by (simp add: andthen_run ret_run)
  ultimately have c: "GetCompute pf prov r ?s = (?u\<lparr>world := w2\<rparr>,
      Ret (Inl (ErrorString (Error err @ '' , Input instanceId :'' @ iid))))" by simp
  have out: "lookup (delete_key (pod_key p) (assign (pod_key p) ?mp m)) = (lookup m)(pod_key p := None)"
    by (rule lookup_maps(3) [OF m(2)])
  show ?thesis
    unfolding CreatePod_start [OF assms(1-3) m(1)] andthen_eqI [of "GetCompute pf prov r" ?s, OF c]
    using m(3) out
    by (simp add: andthen_run Delete_run ret_run cache_view_def annotation_assign)
qed

definition slow_platform :: "cloud platform" where
  "slow_platform = cloud_platform\<lparr>ec2_NewFromConfig := (\<lambda>_. cloud_service
    \<lparr>wait_InstanceRunning := (\<lambda>_ _ _ w. (Some (ErrorString ''exceeded max wait time''), w))\<rparr>)\<rparr>"

lemma slow_platform_fields [simp]:
  "PresignGetObject_op slow_platform = (\<lambda>_ bk w. (Inr (''https://'' @ fst bk @ ''/'' @ snd bk), w))"
  "svc_RunInstances (Svc (the_client slow_platform cfg)) = cloud_run"
  "wait_InstanceRunning (Svc (the_client slow_platform cfg)) =
    (\<lambda>_ _ _ w. (Some (ErrorString ''exceeded max wait time''), w))"
  "sdk_loads slow_platform cfg w w' \<longleftrightarrow> w' = w"
  by (auto simp: slow_platform_def the_client_def sdk_loads_def cloud_service_def)

theorem CreatePod_leaks_slow_instance_witness:
  "\<exists>t e. CreatePod slow_platform (sample_provider []) 0 (sample_prov empty_cloud make_map) =
      (t, Ret (Some e)) \<and>
    length (vms (world t)) = 1 \<and> cache_view t = Map.empty \<and> counters t EC2Terminated = 0"
proof -
  let ?s = "sample_prov empty_cloud make_map"
  let ?url = "Inr (''https://'' @ S3Bucket (BootstrapConf sample_config) @ ''/'' @
    S3Key (BootstrapConf sample_config))"
  let ?in = "launch_request sample_pod (pod_tags slow_platform sample_pod (next_order ?s))
    (launch_data sample_config ?url)"
  let ?vm = "hd (projr (fst (cloud_run ?in empty_cloud)))"
  let ?w = "snd (cloud_run ?in empty_cloud)"
  have "InstanceId ?vm = Some ''i-1''"
    by (simp add: cloud_run_def Let_def empty_cloud_def)
  moreover have "runs_instance slow_platform sample_config ?in empty_cloud (Inr [?vm]) ?w"
    by (simp add: runs_instance_def cloud_run_def Let_def)
  ultimately have l: "launches slow_platform sample_config sample_pod (next_order ?s) ?url ''i-1'' (world ?s) ?w"
    unfolding launches_def
    by (intro exI [of _ empty_cloud] exI [of _ ?vm] conjI) simp_all
  have f: "config ?s = Some sample_config" "pods_at ?s 0 = Some sample_pod"
    "handlers_at ?s (defaultHandler (sample_provider [])) = Some \<lparr>in_chan = 0, IsReceiving = False\<rparr>"
    "cache_good ?s" "Annotations sample_pod = Some []" "annotation sample_pod instance_id_key = []"
    "wpm_config (warmPool (sample_provider [])) = []"
    by (simp_all add: cache_good_def gm.ok_empty) (simp add: sample_pod_def)
  have "length (vms ?w) = 1" by (simp add: cloud_run_def Let_def empty_cloud_def)
  moreover have "counters ?s EC2Terminated = 0" "cache_view ?s = Map.empty"
    by (simp_all add: sample_prov_def cache_view_def gm.look_empty fun_eq_iff)
  ultimately show ?thesis
    using CreatePod_leaks_slow_instance [OF f l, of ?w "ErrorString ''exceeded max wait time''" ?w]
    by (auto simp del: One_nat_def)
qed

section \<open>Deleting a pod that is not there\<close>

text \<open>
  C23: after any error of \<open>CreatePod\<close>, deleting that pod kills the provider: either the pod is out of
  the cache and the log call of the error branch dereferences the missing entry, or its monitor was
  never started and stopping it calls a nil function.
\<close>

theorem CreatePod_error_makes_deletion_crash:
  fixes s :: "('w, 'z) prov_scheme"
  assumes "config s = Some cfg" and "pods_at s r = Some p"
    and "handlers_at s (defaultHandler prov) = Some ch" and "cache_good s"
    and "CreatePod pf prov r s = (t, Ret (Some e))"
  shows "DeletePod pf' r t = (t, Crash (if cache_view t (pod_key p) = None then NilDeref else NilFuncCall))"
proof -
  have c: "cache_good t" "pod_names (pods_at t) r = Some (Namespace p, PodName p)"
    "cache_view t (pod_key p) = None \<or>
     (\<exists>mp pm. cache_view t (pod_key p) = Some mp \<and> monitored t mp r pm False)"
    using CreatePod_cases [OF assms] by auto
  obtain m where m: "pods t = Some m" "cache_view t = lookup m" using c(1) by (rule cache_goodE)
  obtain q where q: "pods_at t r = Some q" "GetPodCacheKey (Namespace q) (PodName q) = pod_key p"
    using c(2) by (auto simp: pod_names_def pod_key_def)
  have get: "Get (pod_key p) t = (t, Ret (cache_view t (pod_key p)))"
    using m by (simp add: cache_runs)
  show ?thesis
  proof (cases "cache_view t (pod_key p)")
    case None
    with get q show ?thesis
      by (simp add: DeletePod_def andthen_load_pod Let_def andthen_run [of "Get _"]
          stopPodMonitor_def andthen_run [of "deref _"] deref_def die_run)
  next
    case (Some mp)
    then obtain pm where "monitored t mp r pm False" using c(3) by auto
    from stopPodMonitor_unstarted [OF this] Some get q show ?thesis
      by (simp add: DeletePod_def andthen_load_pod Let_def andthen_run [of "Get _"]
          andthen_run [of "stopPodMonitor _"])
  qed
qed

theorem CreatePod_error_makes_deletion_crash_witness:
  "\<exists>t e. CreatePod undialled_platform (sample_provider []) 0 running_state = (t, Ret (Some e)) \<and>
    DeletePod undialled_platform 0 t = (t, Crash NilDeref)"
proof -
  obtain t where t: "CreatePod undialled_platform (sample_provider []) 0 running_state =
      (t, Ret (Some (ErrorString ''timeout'')))" "cache_view t = Map.empty"
    using CreatePod_undialled_run [of running_state sample_config 0 "with_instance ''i-7'' sample_pod"
      "sample_provider []" _ "''i-7''" undialled_platform running_cloud running_cloud "ErrorString ''timeout''"
      True running_cloud running_cloud "''i-7''" "[]" empty_cloud]
    by auto
  show ?thesis
    using CreatePod_error_makes_deletion_crash [OF _ _ _ _ t(1), where cfg = sample_config
        and ch = "\<lparr>in_chan = 0, IsReceiving = False\<rparr>" and p = "with_instance ''i-7'' sample_pod"
        and pf' = undialled_platform] t
    by auto
qed

section \<open>Updating\<close>

lemma UpdatePod_run:
  assumes "pods_at s r = Some p" and "pods s = Some m" and "lookup m (pod_key p) = Some mp"
    and "metapods_at s mp = Some me"
  shows "UpdatePod r s = (s\<lparr>metapods_at := (metapods_at s)(mp \<mapsto> me\<lparr>mp_pod := r\<rparr>),
    pods := Some (assign (pod_key p) mp m)\<rparr>, Ret None)"
  using assms
  by (simp add: UpdatePod_def load_pod_run pod_key_def [symmetric] cache_UpdatePod_def
      andthen_run [of "Get _"] cache_runs andthen_run [of "write_back _ _ _"] write_back_def
      andthen_run load_metapod_run store_metapod_run ret_run)

text \<open>
  C31: an update leaves the monitors on the old pod object: the cache then answers with the new object,
  but a status that the agent sends afterwards goes to the old one, is notified with the old one, and
  never shows in \<open>GetPodStatus\<close>.
\<close>

theorem UpdatePod_orphans_monitors:
  fixes s :: "('w, 'z) prov_scheme"
  assumes "cache_good s" and "pods_at s r' = Some p'" and "cache_view s (pod_key p') = Some mp"
    and "metapods_at s mp = Some me" and "monitors_at s (ResultMonitor res) = Some m"
    and "Resource m = r" and "r \<noteq> r'" and "pods_at s r = Some p"
    and "Data res = PodStatusData (Some st)" and "utilsNotifier s = Some cb"
  shows "\<exists>t u q. UpdatePod r' s = (t, Ret None) \<and> handleCheckResult res t = (u, Ret ()) \<and>
    GetPod (Namespace p') (PodName p') u = (u, Ret (Inr r')) \<and>
    GetPodStatus (Namespace p') (PodName p') u = (u, Ret (Inr (Status p'))) \<and>
    notified u = notified s @ [(cb, r, q)] \<and> Phase (Status q) = Phase st"
proof -
  obtain c where c: "pods s = Some c" "go_map_ok c" "cache_view s = lookup c"
    using assms(1) by (rule cache_goodE)
  let ?t = "s\<lparr>metapods_at := (metapods_at s)(mp \<mapsto> me\<lparr>mp_pod := r'\<rparr>),
    pods := Some (assign (pod_key p') mp c)\<rparr>"
  let ?q = "p\<lparr>Status := merged_status (Status p) st\<rparr>"
  let ?u = "?t\<lparr>pods_at := (pods_at s)(r \<mapsto> ?q), notified := notified s @ [(cb, r, ?q)]\<rparr>"
  have upd: "UpdatePod r' s = (?t, Ret None)"
    using c assms(2-4) by (intro UpdatePod_run) simp_all
  have res: "handleCheckResult res ?t = (?u, Ret ())"
    using handleCheckResult_run [of ?t res m p] assms(5,6,8-10) by (simp add: Let_def)
  have "lookup (assign (pod_key p') mp c) (pod_key p') = Some mp"
    by (simp add: gm.look_put [OF c(2)])
  then have get: "Get (pod_key p') ?u = (?u, Ret (Some mp))"
    by (simp add: cache_runs)
  then have "GetPod (Namespace p') (PodName p') ?u = (?u, Ret (Inr r'))"
    by (simp add: GetPod_def pod_key_def [symmetric] andthen_run [of "Get _"]
        andthen_run [of "load_metapod _"] load_metapod_run ret_run)
  moreover have "GetPodStatus (Namespace p') (PodName p') ?u = (?u, Ret (Inr (Status p')))"
    using get assms(2,7)
    by (simp add: GetPodStatus_def pod_key_def [symmetric] andthen_run [of "Get _"]
        andthen_run [of "load_metapod _"] load_metapod_run andthen_load_pod ret_run)
  ultimately show ?thesis
    using upd res by (intro exI [of _ ?t] exI [of _ ?u] exI [of _ ?q]) (simp add: merged_status_def)
qed

definition watched_state :: "cloud prov" where
  "watched_state = (sample_prov empty_cloud [(''default-web'', 2)])
    \<lparr>pods_at := [0 \<mapsto> sample_pod, 5 \<mapsto> sample_pod], monitors_at := monitors_at sample_health\<rparr>"

theorem UpdatePod_orphans_monitors_witness:
  "\<exists>t u q. UpdatePod 5 watched_state = (t, Ret None) \<and> handleCheckResult sample_result t = (u, Ret ()) \<and>
    GetPodStatus ''default'' ''web'' u = (u, Ret (Inr (Status sample_pod))) \<and>
    notified u = [(9, 0, q)] \<and> Phase (Status q) = ''Running''"
proof -
  have w: "cache_good watched_state" "pods_at watched_state 5 = Some sample_pod"
    "cache_view watched_state (pod_key sample_pod) = Some 2"
    "metapods_at watched_state 2 = Some \<lparr>mp_pod = 0, mp_monitor = None, mp_notifier = None\<rparr>"
    "monitors_at watched_state (ResultMonitor sample_result) = Some sample_monitor"
    "Resource sample_monitor = 0" "(0 :: nat) \<noteq> 5" "pods_at watched_state 0 = Some sample_pod"
    "Data sample_result = PodStatusData (Some (empty_status\<lparr>Phase := ''Running'', PodIP := ''1.2.3.4''\<rparr>))"
    "utilsNotifier watched_state = Some 9" "notified watched_state = []"
    by (simp_all add: watched_state_def cache_good_def go_map_ok_def cache_view_def lookup_def pod_key_def
        GetPodCacheKey_def sample_pod_def health_samples sample_result_def)
  have "Namespace sample_pod = ''default''" "PodName sample_pod = ''web''" by (simp_all add: sample_pod_def)
  then show ?thesis
    using UpdatePod_orphans_monitors [OF w(1-10)] w(11) by auto
qed

end
