(* ===== verification/Provider_Start.thy ===== *)
theory Provider_Start
  imports Provider_Life
begin

text \<open>
  Starting the provider: the verbosity flag, a configuration that cannot be read, restoring the cache with
  its monitors, and what the status loop then reports.
\<close>

section \<open>Restarting monitors\<close>

text \<open>The state after \<open>restart_monitor\<close> on the entry \<open>mp\<close> at \<open>mpr\<close>.\<close>

definition restarted ::
  "ProviderConfig \<Rightarrow> nat \<Rightarrow> MetaPod \<Rightarrow> ('w, 'z) prov_scheme \<Rightarrow> ('w, 'z) prov_scheme" where
  "restarted cfg mpr mp s = (let f = fresh_ref s; h = Suc f; pm = Suc h; v = Suc pm; a = Suc v in
     s\<lparr>fresh_ref := Suc (Suc a),
       handlers_at := (handlers_at s)(h \<mapsto> \<lparr>in_chan = f, IsReceiving = True\<rparr>),
       monitors_at := (monitors_at s)
         (v \<mapsto> (new_watcher (mp_pod mp) f SubjectVkvma ''vkvma.watch'' HealthWatch)\<lparr>IsMonitoring := True\<rparr>,
          a \<mapsto> (new_watcher (mp_pod mp) f SubjectApp ''app.watch'' ApplicationWatch)\<lparr>IsMonitoring := True\<rparr>),
       podmons_at := (podmons_at s)
         (pm \<mapsto> (new_podmon cfg (mp_pod mp) h v)\<lparr>pm_cancel := Some (Suc a)\<rparr>),
       metapods_at := (metapods_at s)(mpr \<mapsto> mp\<lparr>mp_monitor := Some pm\<rparr>)\<rparr>)"

lemma restart_monitor_run:
  assumes "config s = Some cfg" and "metapods_at s mpr = Some mp" and "pods_at s (mp_pod mp) = Some p"
  shows "restart_monitor mpr s = (restarted cfg mpr mp s, Ret ())"
proof -
  let ?f = "fresh_ref s"
  let ?s1 = "s\<lparr>fresh_ref := Suc (Suc ?f), handlers_at := (handlers_at s)(Suc ?f \<mapsto> \<lparr>in_chan = ?f, IsReceiving = False\<rparr>)\<rparr>"
  have h: "NewCheckHandler s = (?s1, Ret (Suc ?f))"
    by (simp add: NewCheckHandler_def go_simps)
  let ?s2 = "with_podmon cfg (mp_pod mp) (Suc ?f) ?f ?s1"
  have "NewPodMonitor (mp_pod mp) (Suc ?f) ?s1 = (?s2, Ret (Inr (Suc (Suc ?f))))"
    using NewPodMonitor_run [of ?s1 cfg "Suc ?f" "\<lparr>in_chan = ?f, IsReceiving = False\<rparr>" "mp_pod mp"] assms(1)
    by simp
  moreover let ?s3 = "?s2\<lparr>metapods_at := (metapods_at ?s2)(mpr \<mapsto> mp\<lparr>mp_monitor := Some (Suc (Suc ?f))\<rparr>)\<rparr>"
  have "Start (Suc (Suc ?f)) ?s3 = (restarted cfg mpr mp s, Ret ())"
    using assms(1)
    by (subst Start_run [where cfg = cfg and pm = "new_podmon cfg (mp_pod mp) (Suc ?f) (Suc (Suc (Suc ?f)))"
          and ch = "\<lparr>in_chan = ?f, IsReceiving = False\<rparr>"
          and v = "Suc (Suc (Suc ?f))" and a = "Suc (Suc (Suc (Suc ?f)))"
          and mv = "new_watcher (mp_pod mp) ?f SubjectVkvma ''vkvma.watch'' HealthWatch"
          and ma = "new_watcher (mp_pod mp) ?f SubjectApp ''app.watch'' ApplicationWatch"])
      (simp_all add: with_podmon_def new_podmon_def Let_def restarted_def fun_upd_twist)
  ultimately show ?thesis
    using assms h
    by (simp add: restart_monitor_def andthen_run load_metapod_run load_pod_run Let_def store_metapod_run
        deref_def ret_run)
qed

text \<open>
  An entry of the cache whose monitors run: the references it uses are below \<open>fresh_ref\<close>, so that no later
  allocation reaches them.
\<close>

definition settled :: "('w, 'z) prov_scheme \<Rightarrow> nat \<Rightarrow> pod_ref \<Rightarrow> bool" where
  "settled s mpr r \<longleftrightarrow> (\<exists>pm pmon. monitored s mpr r pm True \<and> podmons_at s pm = Some pmon \<and>
     pm < fresh_ref s \<and> pm_handler pmon < fresh_ref s \<and> list_all (\<lambda>v. v < fresh_ref s) (Monitors pmon))"

lemma restarted_fields [simp]:
  "config (restarted cfg mpr mp s) = config s" "pods_at (restarted cfg mpr mp s) = pods_at s"
  "notified (restarted cfg mpr mp s) = notified s" "world (restarted cfg mpr mp s) = world s"
  "counters (restarted cfg mpr mp s) = counters s" "choices (restarted cfg mpr mp s) = choices s"
  "podNotifier (restarted cfg mpr mp s) = podNotifier s" "pods (restarted cfg mpr mp s) = pods s"
  by (simp_all add: restarted_def Let_def)

lemma restarted_pod_of:
  "map_option mp_pod (metapods_at (restarted cfg mpr mp s) k) =
    (if k = mpr then Some (mp_pod mp) else map_option mp_pod (metapods_at s k))"
  by (simp add: restarted_def Let_def)

lemma settled_restarted: "settled (restarted cfg mpr mp s) mpr (mp_pod mp)"
  unfolding settled_def monitored_def podmon_complete_def
  by (intro exI [of _ "Suc (Suc (fresh_ref s))"] exI [of _ "(new_podmon cfg (mp_pod mp) (Suc (fresh_ref s))
      (Suc (Suc (Suc (fresh_ref s)))))\<lparr>pm_cancel := Some (Suc (Suc (Suc (Suc (Suc (fresh_ref s))))))\<rparr>"])
    (simp add: restarted_def Let_def new_podmon_def, cases mp, simp)

lemma settled_kept:
  assumes "settled s k r" and "k \<noteq> mpr"
  shows "settled (restarted cfg mpr mp s) k r"
proof -
  obtain pm pmon f v a where p: "metapods_at s k = Some \<lparr>mp_pod = r, mp_monitor = Some pm, mp_notifier = f\<rparr>"
    "podmons_at s pm = Some pmon" "handlers_at s (pm_handler pmon) \<noteq> None" "Monitors pmon = [v, a]" "v \<noteq> a"
    "monitors_at s v \<noteq> None" "monitors_at s a \<noteq> None" "pm_pod pmon = r" "pm_cancel pmon \<noteq> None"
    "pm < fresh_ref s" "pm_handler pmon < fresh_ref s" "v < fresh_ref s" "a < fresh_ref s"
    using assms(1) unfolding settled_def monitored_def podmon_complete_def by auto
  have "x < fresh_ref s \<Longrightarrow> podmons_at (restarted cfg mpr mp s) x = podmons_at s x \<and>
      handlers_at (restarted cfg mpr mp s) x = handlers_at s x \<and>
      monitors_at (restarted cfg mpr mp s) x = monitors_at s x \<and> x < fresh_ref (restarted cfg mpr mp s)" for x
    by (simp add: restarted_def Let_def)
  moreover have "metapods_at (restarted cfg mpr mp s) k = metapods_at s k"
    using assms(2) by (simp add: restarted_def Let_def)
  ultimately show ?thesis
    unfolding settled_def monitored_def podmon_complete_def
    using p by (intro exI [of _ pm] exI [of _ pmon]) auto
qed

definition loaded :: "('w, 'z) prov_scheme \<Rightarrow> nat \<Rightarrow> bool" where
  "loaded s mpr \<longleftrightarrow> (case metapods_at s mpr of None \<Rightarrow> False | Some mp \<Rightarrow> pods_at s (mp_pod mp) \<noteq> None)"

lemma loaded_cong:
  "map_option mp_pod (metapods_at t k) = map_option mp_pod (metapods_at s k) \<Longrightarrow> pods_at t = pods_at s \<Longrightarrow>
    loaded t k = loaded s k"
  by (auto simp: loaded_def split: option.splits)

lemma restart_all:
  fixes s :: "('w, 'z) prov_scheme"
  assumes "config s = Some cfg"
    and "list_all (loaded s) ks"
  shows "\<exists>t. for_each restart_monitor ks s = (t, Ret ()) \<and> config t = Some cfg \<and> pods_at t = pods_at s \<and>
    notified t = notified s \<and> world t = world s \<and> podNotifier t = podNotifier s \<and>
    (\<forall>k. map_option mp_pod (metapods_at t k) = map_option mp_pod (metapods_at s k)) \<and>
    (\<forall>k r. map_option mp_pod (metapods_at s k) = Some r \<and> (k \<in> set ks \<or> settled s k r) \<longrightarrow> settled t k r)"
  using assms
proof (induction ks arbitrary: s)
  case Nil
  then show ?case by (simp add: ret_run)
next
  case (Cons k ks)
  obtain mp p where mp: "metapods_at s k = Some mp" "pods_at s (mp_pod mp) = Some p"
    using Cons.prems(2) by (auto simp: loaded_def split: option.splits)
  let ?s = "restarted cfg k mp s"
  have run: "restart_monitor k s = (?s, Ret ())"
    using Cons.prems(1) mp by (rule restart_monitor_run)
  have pod: "map_option mp_pod (metapods_at ?s j) = map_option mp_pod (metapods_at s j)" for j
    using mp(1) restarted_pod_of [of cfg k mp s j] by simp
  have "list_all (loaded ?s) ks"
    using Cons.prems(2) loaded_cong [OF pod] by (simp add: list_all_iff)
  from Cons.IH [OF _ this] Cons.prems(1) obtain t where t: "for_each restart_monitor ks ?s = (t, Ret ())"
    "config t = Some cfg" "pods_at t = pods_at s" "notified t = notified s" "world t = world s"
    "podNotifier t = podNotifier s"
    "\<forall>k. map_option mp_pod (metapods_at t k) = map_option mp_pod (metapods_at ?s k)"
    "\<forall>k r. map_option mp_pod (metapods_at ?s k) = Some r \<and> (k \<in> set ks \<or> settled ?s k r) \<longrightarrow> settled t k r"
    by auto
  have "settled t j r" if "map_option mp_pod (metapods_at s j) = Some r" "j \<in> set (k # ks) \<or> settled s j r" for j r
  proof (cases "j = k")
    case True
    then have "settled ?s j r" using settled_restarted that(1) mp(1) by auto
    then show ?thesis using t(8) that(1) pod [of j] by auto
  next
    case False
    then have "j \<in> set ks \<or> settled ?s j r" using that(2) settled_kept [of s j r k cfg mp] by auto
    then show ?thesis using t(8) that(1) pod [of j] by auto
  qed
  then show ?case using t run pod by (simp add: andthen_run)
qed

section \<open>Restoring the cache\<close>

lemma PopulateCache_run:
  fixes s :: "('w, 'z) prov_scheme"
  assumes "config s = Some cfg" and "go_map_ok cache"
    and "list_all (\<lambda>(_, mpr). loaded s mpr) cache"
  shows "\<exists>t. PopulateCache cache s = (t, Ret ()) \<and> pods t = Some cache \<and> config t = Some cfg \<and>
    pods_at t = pods_at s \<and> notified t = notified s \<and> world t = world s \<and> podNotifier t = podNotifier s \<and>
    (\<forall>k mpr mp. lookup cache k = Some mpr \<and> metapods_at s mpr = Some mp \<longrightarrow> settled t mpr (mp_pod mp))"
proof -
  let ?s = "s\<lparr>choices := tl (choices s)\<rparr>"
  let ?ks = "map snd (range_map (case choices s of [] \<Rightarrow> 0 | c # _ \<Rightarrow> c) cache)"
  have "loaded ?s k = loaded s k" for k by (rule loaded_cong) simp_all
  then have "list_all (loaded ?s) ?ks"
    using assms(3) by (auto simp: list_all_iff)
  moreover have "config ?s = Some cfg" using assms(1) by simp
  ultimately obtain t where t: "for_each restart_monitor ?ks ?s = (t, Ret ())"
    "config t = Some cfg" "pods_at t = pods_at s" "notified t = notified s" "world t = world s"
    "podNotifier t = podNotifier s"
    "\<forall>k r. map_option mp_pod (metapods_at s k) = Some r \<and> (k \<in> set ?ks \<or> settled ?s k r) \<longrightarrow> settled t k r"
    using restart_all [of ?s cfg ?ks] by auto
  have "settled t mpr (mp_pod mp)" if "lookup cache k = Some mpr" "metapods_at s mpr = Some mp" for k mpr mp
  proof -
    have "mpr \<in> set ?ks" using that(1) lookup_in_set [OF assms(2)] by force
    then show ?thesis using t(7) that(2) by auto
  qed
  moreover have "settled (t\<lparr>pods := x\<rparr>) k r = settled t k r" for x k r
    by (simp add: settled_def)
  ultimately show ?thesis
    using t by (intro exI [of _ "t\<lparr>pods := Some cache\<rparr>"])
      (auto simp: PopulateCache_def andthen_run next_choice_run modify_run)
qed

text \<open>
  Restoring the cache starts fresh monitors for every pod in it, each wired to that pod, and only
  then hands the cache to the provider; it calls nothing outside, tells Virtual Kubelet nothing, and
  leaves the pods alone.
\<close>

theorem PopulateCache_restarts_monitors:
  fixes s :: "('w, 'z) prov_scheme"
  assumes "config s = Some cfg" and "go_map_ok cache"
    and "list_all (\<lambda>(_, mpr). loaded s mpr) cache"
  shows "\<exists>t. PopulateCache cache s = (t, Ret ()) \<and> pods t = Some cache \<and>
    pods_at t = pods_at s \<and> notified t = notified s \<and> world t = world s \<and>
    (\<forall>k mpr mp. lookup cache k = Some mpr \<and> metapods_at s mpr = Some mp \<longrightarrow>
       (\<exists>pm. monitored t mpr (mp_pod mp) pm True))"
  using PopulateCache_run [OF assms] unfolding settled_def by blast

theorem PopulateCache_restarts_monitors_witness:
  "\<exists>t pm. PopulateCache [(''default-web'', 2)] (sample_prov () make_map) = (t, Ret ()) \<and>
    pods t = Some [(''default-web'', 2)] \<and> monitored t 2 0 pm True"
proof -
  have "go_map_ok [(''default-web'', 2 :: nat)]" by (simp add: go_map_ok_def)
  moreover have "lookup [(''default-web'', 2 :: nat)] ''default-web'' = Some 2" by (simp add: lookup_def)
  moreover have "metapods_at (sample_prov () make_map) 2 =
      Some \<lparr>mp_pod = 0, mp_monitor = None, mp_notifier = None\<rparr>" by simp
  ultimately show ?thesis
    using PopulateCache_restarts_monitors [of "sample_prov () make_map" sample_config "[(''default-web'', 2)]"]
    by (fastforce simp: loaded_def)
qed

section \<open>The status loop\<close>

lemma collect_same:
  "(\<And>x. x \<in> set xs \<Longrightarrow> f x s = (s, Ret (g x))) \<Longrightarrow> collect f xs s = (s, Ret (map g xs))"
  by (induction xs) (simp_all add: andthen_run ret_run)

lemma lookup_fold_assign:
  "go_map_ok m \<Longrightarrow> go_map_ok (fold (\<lambda>(k, v). assign k v) xs m) \<and>
    dom (lookup (fold (\<lambda>(k, v). assign k v) xs m)) = dom (lookup m) \<union> fst ` set xs"
proof (induction xs arbitrary: m)
  case (Cons x xs)
  obtain k v where x: "x = (k, v)" by (cases x)
  show ?case
    using Cons.IH [OF gm.ok_put [OF Cons.prems, of k v]] lookup_maps(1) [OF Cons.prems, of k v] x by auto
qed simp

text \<open>The pod of a cache entry.\<close>

definition pod_of :: "('w, 'z) prov_scheme \<Rightarrow> nat \<Rightarrow> pod option" where
  "pod_of s mpr = (case metapods_at s mpr of None \<Rightarrow> None | Some mp \<Rightarrow> pods_at s (mp_pod mp))"

lemma pod_of_choices [simp]: "pod_of (s\<lparr>choices := cs\<rparr>) mpr = pod_of s mpr"
  by (cases "metapods_at s mpr") (simp_all add: pod_of_def)

lemma monitor_states_run:
  assumes "monitored s mpr r pm b" and "pods_at s r = Some p"
  shows "\<exists>st. monitor_states mpr s = (s, Ret (PodName p, st)) \<and> pod_of s mpr = Some p"
proof -
  obtain f pmon v a mv ma where c: "metapods_at s mpr = Some \<lparr>mp_pod = r, mp_monitor = Some pm, mp_notifier = f\<rparr>"
    "podmons_at s pm = Some pmon" "Monitors pmon = [v, a]" "monitors_at s v = Some mv" "monitors_at s a = Some ma"
    using assms(1) unfolding monitored_def podmon_complete_def by auto
  have "collect load_monitor (Monitors pmon) s = (s, Ret [mv, ma])"
    using c by (simp add: andthen_run load_monitor_run ret_run)
  then show ?thesis
    using c(1,2) assms(2)
    by (intro exI [of _ "join '', '' (map monitor_String [mv, ma])"])
      (simp add: monitor_states_def andthen_run load_metapod_run load_podmon_run load_pod_run deref_def ret_run pod_of_def)
qed

text \<open>
  The status loop starts its ticker with the configured interval.  \<open>InitConfig\<close> checks that number no further
  than being nonzero, so a configuration it accepts can still end the process.
\<close>

lemma statusLoop_run:
  "config s = Some cfg \<Longrightarrow> statusLoop s = (s, if Seconds (StatusIntervalSeconds cfg) \<le> 0
     then Crash (GoPanic ''non-positive interval for NewTicker'') else Ret (Seconds (StatusIntervalSeconds cfg)))"
  by (simp add: statusLoop_def NewTicker_def andthen_Config die_run ret_run)

lemma StatusIntervalSeconds_default:
  "StatusIntervalSeconds (set_defaults pc) = default_to 0 15 (StatusIntervalSeconds pc)"
  by (simp add: set_defaults_def)

text \<open>
  C34: what the status loop makes of \<open>StatusIntervalSeconds\<close> in a configuration that \<open>InitConfig\<close> has
  accepted.  Left out it is 15 seconds.  Any other number is multiplied by \<open>time.Second\<close> in 64 bits: the
  ticker runs with that product modulo \<open>2^64\<close> when it is from 1 to \<open>2^63 - 1\<close>, and \<open>NewTicker\<close> panics
  otherwise.  So 1 to 9223372036 seconds are kept, the numbers from -9223372036 to -1 and from 9223372037
  to 18446744073 panic, and numbers beyond those on either side can come out as some positive time again:
  -9223372037 as 292 years, 18446744074 as less than a third of a second.
\<close>

theorem status_interval_bounds:
  fixes s :: "('w, 'z) base_scheme"
  assumes "InitConfig rf um (Some (DirectLoader pc)) s = (t, Ret None)"
  shows "(StatusIntervalSeconds pc = 0 \<longrightarrow> statusLoop t = (t, Ret (15 * 10 ^ 9))) \<and>
    (StatusIntervalSeconds pc \<noteq> 0 \<longrightarrow> statusLoop t = (t,
       if StatusIntervalSeconds pc * 10 ^ 9 mod 2 ^ 64 \<in> {1 .. 2 ^ 63 - 1}
       then Ret (StatusIntervalSeconds pc * 10 ^ 9 mod 2 ^ 64)
       else Crash (GoPanic ''non-positive interval for NewTicker''))) \<and>
    (StatusIntervalSeconds pc \<in> {1 .. 9223372036} \<longrightarrow>
       statusLoop t = (t, Ret (StatusIntervalSeconds pc * 10 ^ 9))) \<and>
    (StatusIntervalSeconds pc \<in> {- 9223372036 .. - 1} \<union> {9223372037 .. 18446744073} \<longrightarrow>
       statusLoop t = (t, Crash (GoPanic ''non-positive interval for NewTicker''))) \<and>
    (StatusIntervalSeconds pc = - 9223372037 \<longrightarrow> statusLoop t = (t, Ret 9223372036709551616)) \<and>
    (StatusIntervalSeconds pc = 18446744074 \<longrightarrow> statusLoop t = (t, Ret 290448384))"
proof -
  let ?n = "StatusIntervalSeconds pc"
  have "config t = Some (set_defaults pc)"
    using assms by (simp add: InitConfig_def load_direct_def go_simps Config_run andthen_Config) auto
  from statusLoop_run [OF this] have run: "statusLoop t = (t, if Seconds (default_to 0 15 ?n) \<le> 0
     then Crash (GoPanic ''non-positive interval for NewTicker'') else Ret (Seconds (default_to 0 15 ?n)))"
    by (simp add: StatusIntervalSeconds_default)
  have "Seconds ?n = ?n * 10 ^ 9" if "- 9223372036 \<le> ?n" "?n \<le> 9223372036"
    using Seconds_exact [of ?n] that by simp
  moreover have "Seconds 15 = 15 * 10 ^ 9" using Seconds_exact [of 15] by simp
  moreover have "Seconds (- 9223372037) = 9223372036709551616" "Seconds 18446744074 = 290448384"
    by (simp_all add: Seconds_def int64_mod)
  moreover have "statusLoop t = (t, if ?n * 10 ^ 9 mod 2 ^ 64 \<in> {1 .. 2 ^ 63 - 1}
      then Ret (?n * 10 ^ 9 mod 2 ^ 64)
      else Crash (GoPanic ''non-positive interval for NewTicker''))" if "?n \<noteq> 0"
  proof -
    have "default_to 0 15 ?n = ?n" using that by (simp add: default_to_def)
    moreover have ten: "(10 :: int) ^ 9 = 1000000000" by simp
    ultimately show ?thesis
    proof (cases "?n * 1000000000 mod 2 ^ 64 \<in> {1 .. 2 ^ 63 - 1}")
      case True
      then have "Seconds ?n = ?n * 1000000000 mod 2 ^ 64" "\<not> Seconds ?n \<le> 0"
        using Seconds_positive [of ?n] by (simp_all only: not_le)
      with True show ?thesis unfolding run ten \<open>default_to 0 15 ?n = ?n\<close> by (simp only: if_True if_False)
    next
      case False
      then have "\<not> 0 < Seconds ?n" unfolding Seconds_positive(2) .
      then have "Seconds ?n \<le> 0" by (simp only: not_less)
      with False show ?thesis unfolding run ten \<open>default_to 0 15 ?n = ?n\<close> by (simp only: if_True if_False)
    qed
  qed
  ultimately show ?thesis
    unfolding run using Seconds_wraps [of ?n] by (auto simp: default_to_def)
qed

theorem status_interval_bounds_witness:
  "\<exists>pc t. InitConfig (\<lambda>_ w. (Inr [], w)) (\<lambda>_ pc. (pc, None)) (Some (DirectLoader pc)) (sample_kube ()) = (t, Ret None) \<and>
    StatusIntervalSeconds pc = - 1 \<and> statusLoop t = (t, Crash (GoPanic ''non-positive interval for NewTicker''))"
proof -
  let ?pc = "empty_config\<lparr>ManagementSubnet := ''subnet-1'', StatusIntervalSeconds := - 1\<rparr>"
  let ?t = "(sample_kube ())\<lparr>config := Some (set_defaults ?pc)\<rparr>"
  have "InitConfig (\<lambda>_ w. (Inr [], w)) (\<lambda>_ pc. (pc, None)) (Some (DirectLoader ?pc)) (sample_kube ()) = (?t, Ret None)"
    by (simp add: InitConfig_def load_direct_def go_simps Config_run andthen_Config validate_set_defaults
        empty_config_def warm_pools_def)
  from this status_interval_bounds [OF this] show ?thesis
    by (intro exI [of _ ?pc] exI [of _ ?t]) simp
qed

text \<open>
  One tick of the status loop, once every entry of the cache has its monitors: it reports the number of
  entries and changes nothing, but the monitor states are kept by pod name alone, so pods of the same name
  in different namespaces share one line.
\<close>

theorem status_tick_reports:
  fixes s :: "('w, 'z) prov_scheme"
  assumes "pods s = Some m" and "go_map_ok m"
    and "list_all (\<lambda>(_, mpr). \<exists>r pm. monitored s mpr r pm True \<and> pods_at s r \<noteq> None) m"
  shows "\<exists>st. status_tick prev s = (s\<lparr>choices := tl (choices s)\<rparr>, Ret (length m, st)) \<and>
    dom (lookup st) = {PodName p | p k mpr. lookup m k = Some mpr \<and> pod_of s mpr = Some p}"
proof -
  let ?s = "s\<lparr>choices := tl (choices s)\<rparr>"
  let ?es = "range_map (case choices s of [] \<Rightarrow> 0 | c # _ \<Rightarrow> c) m"
  have "\<forall>mpr \<in> snd ` set m. \<exists>x. monitor_states mpr ?s = (?s, Ret (PodName (fst x), snd x)) \<and>
      pod_of s mpr = Some (fst x)"
  proof
    fix mpr assume "mpr \<in> snd ` set m"
    then obtain r pm p where "monitored ?s mpr r pm True" "pods_at ?s r = Some p"
      using assms(3) by (fastforce simp: list_all_iff monitored_def podmon_complete_def)
    from monitor_states_run [OF this]
    show "\<exists>x. monitor_states mpr ?s = (?s, Ret (PodName (fst x), snd x)) \<and> pod_of s mpr = Some (fst x)"
      by fastforce
  qed
  from bchoice [OF this] obtain g where run: "mpr \<in> snd ` set m \<Longrightarrow>
      monitor_states mpr ?s = (?s, Ret (PodName (fst (g mpr)), snd (g mpr))) \<and>
      pod_of s mpr = Some (fst (g mpr))" for mpr
    by blast
  let ?xs = "map (\<lambda>mpr. (PodName (fst (g mpr)), snd (g mpr))) (map snd ?es)"
  let ?st = "fold (\<lambda>(name, st). assign name st) ?xs make_map"
  have "GetList s = (?s, Ret (map snd ?es))"
    using assms(1) by (simp add: GetList_def andthen_run the_cache_run next_choice_run ret_run)
  moreover have "collect monitor_states (map snd ?es) ?s = (?s, Ret ?xs)"
    using run by (intro collect_same) auto
  ultimately have tick: "status_tick prev s = (?s, Ret (length m, ?st))"
    using assms(1) by (simp add: status_tick_def andthen_run gets_run ret_run)
  have "(k, mpr) \<in> set m \<Longrightarrow> pod_of s mpr = Some (fst (g mpr))" for k mpr
    using run [of mpr] by force
  then have "{PodName p | p k mpr. lookup m k = Some mpr \<and> pod_of s mpr = Some p} =
      {PodName (fst (g mpr)) | k mpr. (k, mpr) \<in> set m}"
    unfolding lookup_in_set [OF assms(2)] by fastforce
  also have "\<dots> = (\<lambda>e. PodName (fst (g (snd e)))) ` set m" by force
  also have "\<dots> = fst ` set ?xs" by (simp add: image_image)
  also have "\<dots> = dom (lookup ?st)"
    using lookup_fold_assign [OF gm.ok_empty, of ?xs] by (simp add: gm.look_empty dom_def)
  finally show ?thesis using tick by (intro exI [of _ ?st]) simp
qed

theorem status_tick_reports_witness:
  "\<exists>t u st. PopulateCache [(''default-web'', 2)] (sample_prov () make_map) = (t, Ret ()) \<and>
    status_tick (0, make_map) t = (u, Ret (1, st)) \<and> dom (lookup st) = {''web''}"
proof -
  have ok: "go_map_ok [(''default-web'', 2 :: nat)]" by (simp add: go_map_ok_def)
  have "list_all (\<lambda>(_, mpr). loaded (sample_prov () make_map) mpr) [(''default-web'', 2)]"
    by (simp add: loaded_def)
  from PopulateCache_run [OF _ ok this] obtain t where
    t: "PopulateCache [(''default-web'', 2)] (sample_prov () make_map) = (t, Ret ())"
      "pods t = Some [(''default-web'', 2)]" "pods_at t = [0 \<mapsto> sample_pod]"
    and all: "\<forall>k mpr mp. lookup [(''default-web'', 2)] k = Some mpr \<and>
      metapods_at (sample_prov () make_map) mpr = Some mp \<longrightarrow> settled t mpr (mp_pod mp)"
    by auto
  have "settled t 2 0"
    using all [rule_format, of "''default-web''" 2 "\<lparr>mp_pod = 0, mp_monitor = None, mp_notifier = None\<rparr>"]
    by (simp add: lookup_def)
  then obtain pm where m: "monitored t 2 0 pm True" unfolding settled_def by blast
  then have "pod_of t 2 = Some sample_pod" using t(3) by (auto simp: pod_of_def monitored_def)
  then have "{PodName p | p k mpr. lookup [(''default-web'', 2)] k = Some mpr \<and> pod_of t mpr = Some p} = {''web''}"
    by (auto simp: lookup_def sample_pod_def split: if_splits)
  moreover have "list_all (\<lambda>(_, mpr). \<exists>r pm. monitored t mpr r pm True \<and> pods_at t r \<noteq> None)
      [(''default-web'', 2)]"
    using m t(3) by auto
  from status_tick_reports [OF t(2) ok this, of "(0, make_map)"] obtain st where
    "status_tick (0, make_map) t = (t\<lparr>choices := tl (choices t)\<rparr>, Ret (1, st))"
    "dom (lookup st) = {PodName p | p k mpr. lookup [(''default-web'', 2)] k = Some mpr \<and> pod_of t mpr = Some p}"
    by auto
  ultimately show ?thesis
    using t(1) by (intro exI [of _ t] exI [of _ "t\<lparr>choices := tl (choices t)\<rparr>"] exI [of _ st]) simp
qed

section \<open>The command line\<close>

text \<open>The levels that \<open>--klog.v\<close> arguments ask for, in order.\<close>

fun klog_levels :: "string list \<Rightarrow> string list" where
  "klog_levels (a # b # rest) = (if a = ''--klog.v'' then b # klog_levels (b # rest) else klog_levels (b # rest))"
| "klog_levels _ = []"

definition klog_arg :: "('w, 'e) platform_scheme \<Rightarrow> string list \<Rightarrow> nat \<times> string \<Rightarrow> (('w, 'z) base_scheme, unit) go" where
  "klog_arg pf args = (\<lambda>(i, arg).
     if arg = ''--klog.v'' then andthen (index args (i + 1)) (\<lambda>v. call (set_klog_level pf v)) else ret ())"

lemma klog_arg_run:
  "klog_arg pf (pre @ a # b # rest) (length pre, a) s =
    (if a = ''--klog.v'' then s\<lparr>world := snd (set_klog_level pf b (world s))\<rparr> else s, Ret ())"
  "klog_arg pf (pre @ [a]) (length pre, a) s =
    (s, if a = ''--klog.v'' then Crash IndexOutOfRange else Ret ())"
  by (simp_all add: klog_arg_def andthen_run index_def call_run ret_run die_run nth_append)

lemma verbosity_from:
  "for_each (klog_arg pf (pre @ xs)) (enumerate (length pre) xs) s =
   (s\<lparr>world := fold (\<lambda>l w. snd (set_klog_level pf l w)) (klog_levels xs) (world s)\<rparr>,
    if xs \<noteq> [] \<and> last xs = ''--klog.v'' then Crash IndexOutOfRange else Ret ())"
proof (induction xs arbitrary: pre s rule: klog_levels.induct)
  case (1 a b rest)
  note IH = 1 [of "pre @ [a]", simplified append_assoc append_Cons append_Nil length_append]
  show ?case
  proof (cases "a = ''--klog.v''")
    case True
    then show ?thesis using IH(1) by (simp add: andthen_run klog_arg_run)
  next
    case False
    then show ?thesis using IH(2) by (simp add: andthen_run klog_arg_run)
  qed
qed (simp_all add: ret_run andthen_run klog_arg_run)

text \<open>
  C4: \<open>updateVerbosityLevel\<close> sets the level once for every \<open>--klog.v\<close> argument that another one follows, to
  that following argument and in their order, and changes nothing else; and it crashes with an index out
  of range exactly when \<open>--klog.v\<close> is the last argument, after having set the others.
\<close>

theorem updateVerbosityLevel_exact:
  fixes s :: "('w, 'z) base_scheme"
  shows "updateVerbosityLevel pf args s =
    (s\<lparr>world := fold (\<lambda>l w. snd (set_klog_level pf l w)) (klog_levels args) (world s)\<rparr>,
     if args \<noteq> [] \<and> last args = ''--klog.v'' then Crash IndexOutOfRange else Ret ())"
  using verbosity_from [of pf "[]" args s] unfolding updateVerbosityLevel_def klog_arg_def by (simp only: append_Nil list.size)

end
