(* ===== verification/K8s_Client.thy ===== *)
theory K8s_Client
  imports Vkvma_Client
begin

text \<open>
  \<open>internal/k8sutils/k8s_client.go\<close>: the Kubernetes client that lists the node's pods at start-up.  The
  Kubernetes client library and the file system are outside the program: they are further fields of the
  platform.  \<open>filepath.Clean\<close> is written out.
\<close>

section \<open>The platform\<close>

text \<open>
  \<open>Stat\<close> is whether the file exists; a REST configuration and a client set are numbers; \<open>PodList c ns sel\<close>
  lists the pods of namespace \<open>ns\<close> (all of them for the empty string) with field selector \<open>sel\<close>.
\<close>

record 'w kube_platform = "'w platform" +
  Stat :: "string \<Rightarrow> 'w \<Rightarrow> bool"
  BuildConfigFromFlags :: "string \<Rightarrow> string \<Rightarrow> 'w \<Rightarrow> (go_error + nat) \<times> 'w"
  NewForConfig :: "nat \<Rightarrow> go_error + nat"
  PodList :: "nat \<Rightarrow> string \<Rightarrow> string \<Rightarrow> 'w \<Rightarrow> (go_error + pod list) \<times> 'w"
  PodGet :: "nat \<Rightarrow> string \<Rightarrow> string \<Rightarrow> 'w \<Rightarrow> (go_error + pod) \<times> 'w"
  PodDelete :: "nat \<Rightarrow> string \<Rightarrow> string \<Rightarrow> 'w \<Rightarrow> go_error option \<times> 'w"
  ConfigureLogging :: "'w \<Rightarrow> go_error option \<times> 'w"

section \<open>Cleaning a path\<close>

definition clean_step :: "bool \<Rightarrow> string \<Rightarrow> string list \<Rightarrow> string list" where
  "clean_step rooted e acc =
     (if e = [] \<or> e = ''.'' then acc
      else if e = ''..'' then
        (case acc of
           [] \<Rightarrow> if rooted then [] else [e]
         | d # rest \<Rightarrow> if d = ''..'' then e # acc else rest)
      else e # acc)"

definition Clean :: "string \<Rightarrow> string" where
  "Clean path =
     (let rooted = (path \<noteq> [] \<and> hd path = CHR ''/'');
          es = rev (fold (clean_step rooted) (Split path ''/'') [])
      in if rooted then ''/'' @ join ''/'' es
         else if es = [] then ''.'' else join ''/'' es)"

section \<open>The client\<close>

record k8sClient =
  CoreV1 :: nat

definition NewK8sClient ::
  "('w, 'e) kube_platform_scheme \<Rightarrow> string \<Rightarrow> (('w, 'z) base_scheme, go_error + k8sClient) go" where
  "NewK8sClient pf configLocation =
     andthen (gets (\<lambda>s. Stat pf (Clean configLocation) (world s))) (\<lambda>exists.
     (let kubeconfig = (if exists then Clean configLocation else []) in
      andthen (call (BuildConfigFromFlags pf [] kubeconfig)) (\<lambda>config. case config of
        Inl err \<Rightarrow> ret (Inl err)
      | Inr c \<Rightarrow>
          (case NewForConfig pf c of
             Inl err \<Rightarrow> ret (Inl err)
           | Inr clientset \<Rightarrow> ret (Inr \<lparr>CoreV1 = clientset\<rparr>)))))"

text \<open>The methods are called on a pointer, which may be nil.\<close>

definition k8s_GetPods ::
  "('w, 'e) kube_platform_scheme \<Rightarrow> k8sClient option \<Rightarrow> string \<Rightarrow>
   (('w, 'z) base_scheme, go_error + pod list) go" where
  "k8s_GetPods pf client node =
     andthen (deref client) (\<lambda>c.
     call (PodList pf (CoreV1 c) [] (''spec.nodeName='' @ node)))"

definition k8s_GetPod ::
  "('w, 'e) kube_platform_scheme \<Rightarrow> k8sClient option \<Rightarrow> string \<Rightarrow> string \<Rightarrow>
   (('w, 'z) base_scheme, go_error + pod) go" where
  "k8s_GetPod pf client namespace podName =
     andthen (deref client) (\<lambda>c. call (PodGet pf (CoreV1 c) namespace podName))"

definition k8s_DeletePod ::
  "('w, 'e) kube_platform_scheme \<Rightarrow> k8sClient option \<Rightarrow> string \<Rightarrow> string \<Rightarrow>
   (('w, 'z) base_scheme, go_error option) go" where
  "k8s_DeletePod pf client namespace podName =
     andthen (deref client) (\<lambda>c. call (PodDelete pf (CoreV1 c) namespace podName))"

section \<open>Facts\<close>

text \<open>A cleaned path is never empty and has no empty element.\<close>

definition element :: "string \<Rightarrow> bool" where
  "element e \<longleftrightarrow> e \<noteq> [] \<and> e \<noteq> ''.'' \<and> CHR ''/'' \<notin> set e"

lemma clean_step_elements:
  "list_all element acc \<Longrightarrow> CHR ''/'' \<notin> set e \<Longrightarrow> list_all element (clean_step rooted e acc)"
  by (auto simp: clean_step_def element_def split: list.splits)

lemma clean_elements:
  "list_all element acc \<Longrightarrow> list_all (\<lambda>e. CHR ''/'' \<notin> set e) es \<Longrightarrow>
    list_all element (fold (clean_step rooted) es acc)"
  by (induction es arbitrary: acc) (simp_all add: clean_step_elements)

lemma Clean_elements:
  "list_all element (rev (fold (clean_step rooted) (Split path ''/'') []))"
  using clean_elements [of "[]" "Split path ''/''" rooted] split_on_byte_free [of "CHR ''/''" "[]" _ path]
  by (simp add: Split_def list_all_iff)

lemma Clean_not_empty: "Clean path \<noteq> []"
proof -
  have "join ''/'' es \<noteq> []" if "es \<noteq> []" "list_all element es" for es
    using that by (cases "(''/'', es)" rule: join.cases) (auto simp: element_def)
  then have "fold (clean_step r) (Split p ''/'') [] \<noteq> [] \<Longrightarrow>
      join ''/'' (rev (fold (clean_step r) (Split p ''/'') [])) \<noteq> []" for r p
    using Clean_elements [of r p] by (metis rev_is_Nil_conv)
  then show ?thesis by (simp add: Clean_def Let_def)
qed

end
