(* ===== verification/Command.thy ===== *)
theory Command
  imports K8s_Client Provider_Start
begin

text \<open>
  \<open>cmd/virtual-kubelet/main.go\<close>: the callback that runs after the flags are read and before Virtual Kubelet
  starts.  It makes the provider, restores its cache from Kubernetes, and sets the node name.  The rest of
  \<open>main\<close> hands this callback and the provider to Virtual Kubelet's command line.
\<close>

section \<open>The callback\<close>

record opts =
  Provider :: string
  Version :: string
  ProviderConfigPath :: string
  KubeConfigPath :: string
  NodeName :: string

definition pre_run ::
  "('w, 'e) kube_platform_scheme \<Rightarrow> string list \<Rightarrow> opts \<Rightarrow>
   (('w, 'z) prov_scheme, go_error option \<times> opts \<times> 'w Ec2Provider) go" where
  "pre_run pf args opts =
     andthen (NewEc2Provider pf args (ProviderConfigPath opts)) (\<lambda>provider. case provider of
       Inl err \<Rightarrow> die (LogFatal (Error err))
     | Inr p \<Rightarrow>
         andthen (NewK8sClient pf (KubeConfigPath opts)) (\<lambda>client.
         (let k8sClient = (case client of Inl _ \<Rightarrow> None | Inr c \<Rightarrow> Some c) in
          andthen (k8s_GetPods pf k8sClient (ProviderNodeName p)) (\<lambda>podList. case podList of
            Inl err \<Rightarrow> ret (Some err, opts, p)
          | Inr ps \<Rightarrow>
              andthen (Populate ps NewPodCache) (\<lambda>podCache.
              andthen (PopulateCache podCache) (\<lambda>_.
              andthen (call (ConfigureLogging pf)) (\<lambda>err.
              ret (err, opts\<lparr>NodeName := ProviderNodeName p\<rparr>, p))))))))"

section \<open>Starting the provider\<close>

lemma verbosity_none:
  assumes "''--klog.v'' \<notin> set args"
  shows "updateVerbosityLevel pf args s = (s, Ret ())"
proof -
  have "klog_levels args = []" using assms by (induction args rule: klog_levels.induct) auto
  moreover have "args \<noteq> [] \<Longrightarrow> last args \<noteq> ''--klog.v''" using assms last_in_set by metis
  ultimately show ?thesis
    using verbosity_from [of pf "[]" args s] unfolding updateVerbosityLevel_def klog_arg_def
    by (simp only: append_Nil list.size) auto
qed

text \<open>
  A configuration file that cannot be read kills the provider at its first use: the error of
  \<open>InitConfig\<close> is only logged, and making the virtual node then dereferences the nil configuration.
\<close>

theorem NewEc2Provider_unreadable_config:
  fixes s :: "('w, 'z) prov_scheme"
  assumes "config s = None" and "''--klog.v'' \<notin> set args"
    and "read_config pf path (world s) = (Inl err, w)"
  shows "NewEc2Provider pf args path s =
    (s\<lparr>world := w, pods := None, podNotifier := None\<rparr>, Crash NilDeref)"
  using assms
  by (simp add: NewEc2Provider_def andthen_run verbosity_none InitConfig_def load_file_def call_run ret_run
      modify_run GetOrCreateEniNode_def Config_nil)

theorem NewEc2Provider_unreadable_config_witness:
  "snd (NewEc2Provider (cloud_platform\<lparr>read_config := (\<lambda>_ w. (Inl (ErrorString ''no such file''), w))\<rparr>) [''vk'']
      ''/etc/config/config.json'' ((sample_prov empty_cloud make_map)\<lparr>config := None\<rparr>)) = Crash NilDeref"
  using NewEc2Provider_unreadable_config [of "(sample_prov empty_cloud make_map)\<lparr>config := None\<rparr>"
      "[''vk'']" "cloud_platform\<lparr>read_config := (\<lambda>_ w. (Inl (ErrorString ''no such file''), w))\<rparr>"
      "''/etc/config/config.json''" "ErrorString ''no such file''" empty_cloud]
  by simp

lemma NewEc2Provider_starts:
  fixes s :: "('w, 'z) prov_scheme"
  assumes "''--klog.v'' \<notin> set args" and "read_config pf path (world s) = (Inr text, w1)"
    and "unmarshal_config pf text empty_config = (pc, None)" and "cfg = set_defaults pc" and "warm_pools cfg = []"
    and "sdk_loads pf cfg w1 w2" and "eni_tag pf cfg \<noteq> []" and "ManagementSubnet cfg \<noteq> []"
    and "svc_DescribeNetworkInterfaces (Svc (the_client pf cfg))
      [Filter ''tag:Name'' [eni_tag pf cfg]] w2 = (Inr enis, w3)"
    and "enis \<noteq> []" and "last enis = \<lparr>PrivateDnsName = Some dns, NetworkInterfaceId = Some eni\<rparr>"
    and "dns \<noteq> []" and "list_all interface_complete enis" and "sdk_loads pf cfg w3 w4" and "sdk_loads pf cfg w4 w5"
  shows "\<exists>t p. NewEc2Provider pf args path s = (t, Ret (Inr p)) \<and> ProviderNodeName p = ''fargate-'' @ dns \<and>
    wpm_config (warmPool p) = [] \<and> config t = Some cfg \<and> world t = w5 \<and> pods t = None \<and>
    podNotifier t = None \<and> notified t = notified s"
proof -
  let ?s = "s\<lparr>world := w1, config := Some cfg, pods := None, podNotifier := None\<rparr>"
  have init: "InitConfig (read_config pf) (unmarshal_config pf) (Some (FileLoader path)) s =
      (s\<lparr>world := w1, config := Some cfg\<rparr>, Ret (validate cfg))"
    using assms(2-4) by (simp add: InitConfig_def load_file_def andthen_run call_run set_config_run ret_run
        Config_run)
  have "config ?s = Some cfg" "sdk_loads pf cfg (world ?s) w2" using assms(6) by simp_all
  note node = GetOrCreateEniNode_stable [OF this assms(7-13)]
  show ?thesis
    using assms(1,5,14,15) node
    by (simp add: NewEc2Provider_def andthen_run verbosity_none init modify_run NewWarmPool_def
        NewEc2Client_run Config_run fillAndMaintain_def NewComputeManager_def ret_run NewCheckHandler_def
        new_ref_run store_handler_def)
qed

section \<open>What the callback does\<close>

lemma Populate_frame:
  "Populate ps m s = (t, Ret m') \<Longrightarrow> config t = config s \<and> notified t = notified s \<and> world t = world s"
  by (induction ps arbitrary: m s)
    (auto simp: ret_run new_pod_def NewMetaPod_def andthen_run new_ref_run store_pod_run store_metapod_run)

lemma Populate_loaded:
  obtains t m where "Populate ps NewPodCache s = (t, Ret m)" "go_map_ok m"
    "\<forall>p \<in> set ps. rehydrated t m (pod_key p) (listed_last ps (pod_key p))"
    "list_all (\<lambda>(_, mpr). loaded t mpr) m"
proof -
  obtain t m where p: "Populate ps NewPodCache s = (t, Ret m)" "go_map_ok m"
    "\<forall>p \<in> set ps. rehydrated t m (pod_key p) (listed_last ps (pod_key p))"
    using Populate_finds unfolding list_all_iff by blast
  have "loaded t mpr" if m: "(k, mpr) \<in> set m" for k mpr
  proof -
    have look: "lookup m k = Some mpr" using m lookup_in_set [OF p(2)] by simp
    have "lookup NewPodCache k = None" by (simp add: NewPodCache_def gm.look_empty)
    moreover have "go_map_ok NewPodCache" unfolding NewPodCache_def by (rule gm.ok_empty)
    ultimately have "k \<in> pod_key ` set ps"
      using Populate_keeps [OF p(1)] look by (metis option.distinct(1))
    then obtain q where "q \<in> set ps" "pod_key q = k" by blast
    then show ?thesis using p(3) look by (auto simp: rehydrated_def loaded_def)
  qed
  then have "list_all (\<lambda>(_, mpr). loaded t mpr) m" by (auto simp: list_all_iff)
  with p show ?thesis by (rule that)
qed

lemma pre_run_restores:
  fixes s :: "('w, 'z) prov_scheme"
  assumes "NewEc2Provider pf args (ProviderConfigPath opts) s = (s1, Ret (Inr p))" and "config s1 = Some cfg"
    and "Stat pf (Clean (KubeConfigPath opts)) (world s1)"
    and "BuildConfigFromFlags pf [] (Clean (KubeConfigPath opts)) (world s1) = (Inr c, w1)"
    and "NewForConfig pf c = Inr clientset"
    and "PodList pf clientset [] (''spec.nodeName='' @ ProviderNodeName p) w1 = (Inr ps, w2)"
    and "ConfigureLogging pf w2 = (err, w3)"
  shows "\<exists>t. pre_run pf args opts s = (t, Ret (err, opts\<lparr>NodeName := ProviderNodeName p\<rparr>, p)) \<and>
    world t = w3 \<and> notified t = notified s1 \<and>
    list_all (\<lambda>pod. \<exists>mp pm copy. GetPod (Namespace pod) (PodName pod) t = (t, Ret (Inr copy)) \<and>
      pods_at t copy = Some (listed_last ps (pod_key pod)) \<and> monitored t mp copy pm True) ps"
proof -
  let ?s2 = "s1\<lparr>world := w2\<rparr>"
  obtain s3 m where s3: "Populate ps NewPodCache ?s2 = (s3, Ret m)" "go_map_ok m"
    "\<forall>p \<in> set ps. rehydrated s3 m (pod_key p) (listed_last ps (pod_key p))"
    "list_all (\<lambda>(_, mpr). loaded s3 mpr) m"
    by (rule Populate_loaded)
  have fr: "config s3 = Some cfg" "notified s3 = notified s1" "world s3 = w2"
    using Populate_frame [OF s3(1)] assms(2) by simp_all
  from PopulateCache_run [OF fr(1) s3(2,4)] obtain t where t: "PopulateCache m s3 = (t, Ret ())"
    "pods t = Some m" "pods_at t = pods_at s3" "notified t = notified s1" "world t = w2"
    "\<forall>k mpr mp. lookup m k = Some mpr \<and> metapods_at s3 mpr = Some mp \<longrightarrow> settled t mpr (mp_pod mp)"
    using fr by auto
  let ?t = "t\<lparr>world := w3\<rparr>"
  have "pre_run pf args opts s = (?t, Ret (err, opts\<lparr>NodeName := ProviderNodeName p\<rparr>, p))"
    using assms(1,3-7) s3(1) t(1,5)
    by (simp add: pre_run_def andthen_run NewK8sClient_def gets_run call_run ret_run Let_def k8s_GetPods_def
        deref_def)
  moreover have "\<exists>mp pm copy. GetPod (Namespace pod) (PodName pod) ?t = (?t, Ret (Inr copy)) \<and>
      pods_at ?t copy = Some (listed_last ps (pod_key pod)) \<and> monitored ?t mp copy pm True" if pod: "pod \<in> set ps" for pod
  proof -
    obtain r copy where r: "lookup m (pod_key pod) = Some r"
      "metapods_at s3 r = Some \<lparr>mp_pod = copy, mp_monitor = None, mp_notifier = None\<rparr>" 
      "pods_at s3 copy = Some (listed_last ps (pod_key pod))"
      using s3(3) pod unfolding rehydrated_def by blast
    then have "settled t r copy" using t(6) by fastforce
    then obtain pm where mon: "monitored ?t r copy pm True"
      unfolding settled_def by (auto simp: monitored_def podmon_complete_def)
    then obtain f where "metapods_at ?t r = Some \<lparr>mp_pod = copy, mp_monitor = Some pm, mp_notifier = f\<rparr>"
      unfolding monitored_def by blast
    moreover have "Get (pod_key pod) ?t = (?t, Ret (Some r))" using t(2) r(1) by (simp add: cache_runs)
    ultimately have "GetPod (Namespace pod) (PodName pod) ?t = (?t, Ret (Inr copy))"
      by (simp add: GetPod_def pod_key_def [symmetric] andthen_run [of "Get _"]
          andthen_run [of "load_metapod _"] load_metapod_run ret_run)
    with mon r(3) t(3) show ?thesis by auto
  qed
  ultimately show ?thesis
    using t(4) by (intro exI [of _ ?t]) (simp add: list_all_iff)
qed

text \<open>
  C14: the callback restores the provider from Kubernetes: once \<open>NewEc2Provider\<close> has returned (which may
  fill a warm pool), every pod listed on the provider's own node is found under its name as a copy
  of its own, watched by monitors that were started for it; of listed pods whose cache keys clash it is
  the last one that all their names find, so with unique keys each pod finds itself.  Restoring launches
  and notifies nothing, and Virtual Kubelet's node name is the provider's.
\<close>

theorem pre_run_restores_pods:
  fixes s :: "('w, 'z) prov_scheme"
  assumes "NewEc2Provider pf args (ProviderConfigPath opts) s = (s1, Ret (Inr p))" and "config s1 = Some cfg"
    and "Stat pf (Clean (KubeConfigPath opts)) (world s1)"
    and "BuildConfigFromFlags pf [] (Clean (KubeConfigPath opts)) (world s1) = (Inr c, w1)"
    and "NewForConfig pf c = Inr clientset"
    and "PodList pf clientset [] (''spec.nodeName='' @ ProviderNodeName p) w1 = (Inr ps, w2)"
    and "ConfigureLogging pf w2 = (err, w3)"
  shows "\<exists>t. pre_run pf args opts s = (t, Ret (err, opts\<lparr>NodeName := ProviderNodeName p\<rparr>, p)) \<and>
    world t = w3 \<and> notified t = notified s1 \<and>
    list_all (\<lambda>pod. \<exists>mp pm copy. GetPod (Namespace pod) (PodName pod) t = (t, Ret (Inr copy)) \<and>
      pods_at t copy = Some (listed_last ps (pod_key pod)) \<and> monitored t mp copy pm True) ps"
  by (rule pre_run_restores) (fact assms)+

text \<open>
  The callback does not look at the error of \<open>NewK8sClient\<close>: without a Kubernetes client the process
  dies on a nil dereference, after the provider was made.
\<close>

theorem pre_run_without_client:
  fixes s :: "('w, 'z) prov_scheme"
  assumes "NewEc2Provider pf args (ProviderConfigPath opts) s = (s1, Ret (Inr p))"
    and "NewK8sClient pf (KubeConfigPath opts) s1 = (s2, Ret (Inl err))"
  shows "pre_run pf args opts s = (s2, Crash NilDeref)"
  using assms by (simp add: pre_run_def andthen_run k8s_GetPods_def deref_def die_run)

section \<open>A concrete start\<close>

definition cloud_kube :: "(go_error + nat) \<Rightarrow> pod list \<Rightarrow> cloud kube_platform" where
  "cloud_kube client ps = \<lparr>LoadDefaultConfig = LoadDefaultConfig cloud_platform,
     ec2_NewFromConfig = ec2_NewFromConfig cloud_platform,
     PresignGetObject_op = PresignGetObject_op cloud_platform, unmarshal_tags = unmarshal_tags cloud_platform,
     DialContext = DialContext cloud_platform, conn_ready = conn_ready cloud_platform,
     rpc_LaunchApplication = rpc_LaunchApplication cloud_platform,
     rpc_TerminateApplication = rpc_TerminateApplication cloud_platform,
     rpc_Watch = rpc_Watch cloud_platform,
     rpc_WatchApplicationHealth = rpc_WatchApplicationHealth cloud_platform,
     Getenv = Getenv cloud_platform, set_klog_level = set_klog_level cloud_platform,
     read_config = read_config cloud_platform, unmarshal_config = unmarshal_config cloud_platform,
     Stat = (\<lambda>_ _. True), BuildConfigFromFlags = (\<lambda>_ _ w. (client, w)), NewForConfig = (\<lambda>c. Inr c),
     PodList = (\<lambda>_ _ _ w. (Inr ps, w)), PodGet = (\<lambda>_ _ _ w. (Inl (NotFoundError ''pod''), w)),
     PodDelete = (\<lambda>_ _ _ w. (None, w)), ConfigureLogging = (\<lambda>w. (None, w))\<rparr>"

definition node_cloud :: cloud where
  "node_cloud = empty_cloud\<lparr>cloud_enis :=
     [\<lparr>PrivateDnsName = Some ''ip-10-0-0-3'', NetworkInterfaceId = Some ''eni-3''\<rparr>]\<rparr>"

definition start_state :: "cloud prov" where
  "start_state = (sample_prov node_cloud make_map)\<lparr>config := None, pods := None, podNotifier := None\<rparr>"

definition start_opts :: opts where
  "start_opts = \<lparr>Provider = ''ec2'', Version = ''v1'', ProviderConfigPath = ''/etc/config/config.json'', KubeConfigPath = ''/root/.kube/config'',
     NodeName = []\<rparr>"

lemma cloud_kube_fields [simp]:
  "read_config (cloud_kube client ps) = (\<lambda>_ w. (Inr ''{}'', w))"
  "unmarshal_config (cloud_kube client ps) = (\<lambda>_ c. (c\<lparr>ManagementSubnet := ''subnet-1''\<rparr>, None))"
  "Getenv (cloud_kube client ps) = (\<lambda>k. if k = ''POD_NAME'' then ''vk-0'' else [])"
  "Stat (cloud_kube client ps) = (\<lambda>_ _. True)" "BuildConfigFromFlags (cloud_kube client ps) = (\<lambda>_ _ w. (client, w))"
  "NewForConfig (cloud_kube client ps) = (\<lambda>c. Inr c)" "PodList (cloud_kube client ps) = (\<lambda>_ _ _ w. (Inr ps, w))"
  "ConfigureLogging (cloud_kube client ps) = (\<lambda>w. (None, w))"
  "Svc (the_client (cloud_kube client ps) cfg) = cloud_service"
  "sdk_loads (cloud_kube client ps) cfg w w' \<longleftrightarrow> w' = w"
  by (auto simp: cloud_kube_def the_client_def sdk_loads_def)

lemma cloud_kube_starts_at:
  fixes s :: "(cloud, 'z) prov_scheme"
  assumes "world s = node_cloud"
  obtains t p where "NewEc2Provider (cloud_kube client ps) [''vk''] path s = (t, Ret (Inr p))"
    "ProviderNodeName p = ''fargate-ip-10-0-0-3''" "config t = Some sample_config" "world t = node_cloud"
    "notified t = notified s"
proof -
  have start: "ManagementSubnet sample_config \<noteq> []" "warm_pools sample_config = []"
    by (simp_all add: sample_config_def empty_config_def set_defaults_keeps warm_pools_def)
  have "svc_DescribeNetworkInterfaces (Svc (the_client (cloud_kube client ps) sample_config))
      [Filter ''tag:Name'' [eni_tag (cloud_kube client ps) sample_config]] node_cloud =
    (Inr [\<lparr>PrivateDnsName = Some ''ip-10-0-0-3'', NetworkInterfaceId = Some ''eni-3''\<rparr>], node_cloud)"
    by (simp add: node_cloud_def)
  moreover have "eni_tag (cloud_kube client ps) sample_config \<noteq> []" by (simp add: eni_tag_def)
  ultimately show ?thesis
    using NewEc2Provider_starts [of "[''vk'']" "cloud_kube client ps" path s
        "''{}''" node_cloud "empty_config\<lparr>ManagementSubnet := ''subnet-1''\<rparr>" sample_config node_cloud
        "[\<lparr>PrivateDnsName = Some ''ip-10-0-0-3'', NetworkInterfaceId = Some ''eni-3''\<rparr>]" node_cloud
        "''ip-10-0-0-3''" "''eni-3''" node_cloud node_cloud] start assms that
    by (auto simp: sample_config_def [symmetric] interface_complete_def)
qed

lemma start_world: "world start_state = node_cloud"
  by (simp add: start_state_def)

lemma cloud_kube_starts:
  obtains t p where "NewEc2Provider (cloud_kube client ps) [''vk''] (ProviderConfigPath start_opts) start_state =
      (t, Ret (Inr p))"
    "ProviderNodeName p = ''fargate-ip-10-0-0-3''" "config t = Some sample_config" "world t = node_cloud"
  using start_world by (rule cloud_kube_starts_at)

lemma sample_start_at:
  fixes s :: "(cloud, 'z) prov_scheme"
  assumes "world s = node_cloud"
  shows "\<exists>t p. pre_run (cloud_kube (Inr 4) [pod]) [''vk''] opts s =
      (t, Ret (None, opts\<lparr>NodeName := ''fargate-ip-10-0-0-3''\<rparr>, p)) \<and>
    (\<exists>r. GetPod (Namespace pod) (PodName pod) t = (t, Ret (Inr r)) \<and>
      pods_at t r = Some pod)"
proof -
  obtain t p where t: "NewEc2Provider (cloud_kube (Inr 4) [pod]) [''vk'']
      (ProviderConfigPath opts) s = (t, Ret (Inr p))"
    "ProviderNodeName p = ''fargate-ip-10-0-0-3''" "config t = Some sample_config" "world t = node_cloud"
    using assms by (rule cloud_kube_starts_at)
  then show ?thesis
    using pre_run_restores [OF t(1,3), of 4 node_cloud 4 "[pod]" node_cloud None node_cloud]
    by (auto simp: listed_last_def)
qed

lemmas sample_start = sample_start_at [OF start_world, where pod = sample_pod]

theorem pre_run_restores_pods_witness:
  "\<exists>t p. pre_run (cloud_kube (Inr 4) [sample_pod]) [''vk''] start_opts start_state =
      (t, Ret (None, start_opts\<lparr>NodeName := ''fargate-ip-10-0-0-3''\<rparr>, p)) \<and>
    (\<exists>copy. GetPod ''default'' ''web'' t = (t, Ret (Inr copy)) \<and> pods_at t copy = Some sample_pod)"
proof -
  obtain t p where t: "NewEc2Provider (cloud_kube (Inr 4) [sample_pod]) [''vk'']
      (ProviderConfigPath start_opts) start_state = (t, Ret (Inr p))"
    "ProviderNodeName p = ''fargate-ip-10-0-0-3''" "config t = Some sample_config" "world t = node_cloud"
    by (rule cloud_kube_starts)
  have "Namespace sample_pod = ''default''" "PodName sample_pod = ''web''" by (simp_all add: sample_pod_def)
  then show ?thesis
    using pre_run_restores_pods [OF t(1,3), of 4 node_cloud 4 "[sample_pod]" node_cloud None node_cloud] t(2,4)
    by (auto simp: listed_last_def)
qed

theorem pre_run_without_client_witness:
  "snd (pre_run (cloud_kube (Inl (ErrorString ''no configuration'')) []) [''vk''] start_opts start_state) =
    Crash NilDeref"
proof -
  let ?pf = "cloud_kube (Inl (ErrorString ''no configuration'')) []"
  obtain t p where t: "NewEc2Provider ?pf [''vk''] (ProviderConfigPath start_opts) start_state =
      (t, Ret (Inr p))"
    by (rule cloud_kube_starts)
  have "NewK8sClient ?pf (KubeConfigPath start_opts) t = (t, Ret (Inl (ErrorString ''no configuration'')))"
    by (simp add: NewK8sClient_def andthen_run gets_run call_run ret_run Let_def)
  from pre_run_without_client [OF t this] show ?thesis by simp
qed

end
