(* ===== verification/Deployment.thy ===== *)
theory Deployment
  imports Provider_Life
begin

text \<open>
  \<open>deploy/vkstack/vkstack.go\<close>: the stack that deploys the provider, as the list of what it declares in the
  order of the calls, and what the declarations grant to the role of the provider's service account.  What
  the provider does under these grants is a property of the two together.
\<close>

section \<open>The stack\<close>

datatype manifest = Str string | Obj "(string \<times> manifest) list"

text \<open>A declared construct is named by the id it is given; a role by the construct that it belongs to.\<close>

datatype cdk_call =
    Cluster (decl_id: string) (KubernetesVersion: string) (ClusterName: string)
  | AddManifest (decl_id: string) (on_cluster: string) (Manifest: manifest)
  | AddServiceAccount (decl_id: string) (on_cluster: string) (SaName: string) (SaNamespace: string)
  | AddDependency (dependent: string) (depends_on: string)
  | AddToPrincipalPolicy (role_of: string) (Actions: "string list") (Allow: bool) (Resources: "string list")
  | Repository (decl_id: string) (RepositoryName: string)
  | VpcOutput (decl_id: string) (on_cluster: string) (Description: string)
  | Bucket (decl_id: string) (BlockAll: bool) (BucketName: string) (S3Managed: bool) (Destroy: bool) (Versioned: bool)
  | SecurityGroup (decl_id: string) (on_cluster: string) (AllowAllOutbound: bool) (Description: string)
      (SecurityGroupName: string)
  | FromManagedPolicyArn (decl_id: string) (Arn: string)
  | Role (decl_id: string) (AssumedBy: string) (Description: string) (ManagedPolicies: "string list") (RoleName: string)
  | InstanceProfile (decl_id: string) (roles_of: "string list") (InstanceProfileName: string)
  | GrantPassRole (role_of: string) (grantee: string)
  | GrantRead (of_bucket: string) (grantee: string) (objects: string)

text \<open>\<open>StackProps\<close> with the account and region, and the stack.\<close>

record StackProps =
  Env :: "(string \<times> string) option"

record Stack =
  stack_id :: string
  sprops :: StackProps
  declarations :: "cdk_call list"

definition namespace_manifest :: manifest where
  "namespace_manifest = Obj
     [(''apiVersion'', Str ''v1''), (''kind'', Str ''Namespace''),
      (''metadata'', Obj [(''name'', Str ''virtual-kubelet''),
        (''labels'', Obj [(''name'', Str ''virtual-kubelet'')])])]"

definition policy_actions :: "string list" where
  "policy_actions =
     [''ec2:CreateNetworkInterface'', ''ec2:DescribeNetworkInterfaces'', ''ec2:DeleteNetworkInterface'',
      ''ec2:RunInstances'', ''ec2:DescribeInstances'', ''ec2:TerminateInstances'', ''ec2:CreateTags'']"

definition NewVKStack :: "string \<Rightarrow> StackProps option \<Rightarrow> Stack" where
  "NewVKStack i props = \<lparr>stack_id = i, sprops = (case props of None \<Rightarrow> \<lparr>Env = None\<rparr> | Some p \<Rightarrow> p), declarations =
     [Cluster ''VKCluster'' ''1.19'' ''virtual-kubelet-cluster'',
      AddManifest ''VKNamespace'' ''VKCluster'' namespace_manifest,
      AddServiceAccount ''VKServiceAccount'' ''VKCluster'' ''virtual-kubelet-sa'' ''virtual-kubelet'',
      AddDependency ''VKServiceAccount'' ''VKNamespace'',
      AddToPrincipalPolicy ''VKServiceAccount'' policy_actions True [''*''],
      Repository ''VKEcr'' ''aws-virtual-kubelet'',
      VpcOutput ''VPC'' ''VKCluster'' ''VPC ID for the EKS cluster'',
      Bucket ''S3Bucket'' True ''vk-general-assets'' True True False,
      SecurityGroup ''VKSecurityGroup'' ''VKCluster'' True ''Default security group for virtual-kubelet pods''
        ''virtual-kubelet-default'',
      FromManagedPolicyArn ''VKS3ReadOnlyPolicy'' ''arn:aws:iam::aws:policy/AmazonS3ReadOnlyAccess'',
      Role ''VKInstanceRole'' ''ec2.amazonaws.com'' ''Default virtual-kubelet instance role'' [''VKS3ReadOnlyPolicy'']
        ''virtual-kubelet-instance-role'',
      InstanceProfile ''VKInstanceProfile'' [''VKInstanceRole''] ''virtual-kubelet-instance-profile'',
      GrantPassRole ''VKInstanceRole'' ''VKServiceAccount'',
      GrantRead ''S3Bucket'' ''VKInstanceRole'' ''*'']\<rparr>"

text \<open>\<open>env\<close> returns nil: the stack is for any account and region.\<close>

definition env :: "(string \<times> string) option" where
  "env = None"

definition vkstack_app :: "Stack list" where
  "vkstack_app = [NewVKStack ''VKStack'' (Some \<lparr>Env = env\<rparr>)]"

section \<open>What the stack grants\<close>

text \<open>
  The actions a declaration grants to the role of the construct \<open>who\<close>.  What a managed policy and a grant of
  reading amount to is up to AWS: \<open>managed\<close> and \<open>reads\<close>.
\<close>

fun grants ::
  "(string \<Rightarrow> string \<Rightarrow> bool) \<Rightarrow> (string \<Rightarrow> bool) \<Rightarrow> string \<Rightarrow> string \<Rightarrow> cdk_call \<Rightarrow> bool" where
  "grants managed reads who action (AddToPrincipalPolicy r actions allow res) \<longleftrightarrow>
     allow \<and> r = who \<and> List.member actions action"
| "grants managed reads who action (GrantPassRole r g) \<longleftrightarrow> g = who \<and> action = ''iam:PassRole''"
| "grants managed reads who action (GrantRead b g pattern) \<longleftrightarrow> g = who \<and> reads action"
| "grants managed reads who action (Role r by desc policies name) \<longleftrightarrow>
     r = who \<and> list_ex (\<lambda>policy. managed policy action) policies"
| "grants managed reads who action _ \<longleftrightarrow> False"

definition stack_grants ::
  "(string \<Rightarrow> string \<Rightarrow> bool) \<Rightarrow> (string \<Rightarrow> bool) \<Rightarrow> Stack \<Rightarrow> string \<Rightarrow> string \<Rightarrow> bool" where
  "stack_grants managed reads stack who action \<longleftrightarrow> list_ex (grants managed reads who action) (declarations stack)"

text \<open>
  The AWS actions behind the calls that the provider makes: its EC2 calls, the role that a launch passes on, and
  the reading of the bootstrap agent's object, which the presigned URL does in the provider's name.
\<close>

definition provider_actions :: "string list" where
  "provider_actions =
     [''ec2:DescribeNetworkInterfaces'', ''ec2:CreateNetworkInterface'', ''ec2:TerminateInstances'',
      ''ec2:RunInstances'', ''iam:PassRole'', ''ec2:DescribeInstances'', ''ec2:DescribeInstanceStatus'',
      ''ec2:CreateTags'', ''s3:GetObject'']"

lemma service_account_grants:
  "stack_grants managed reads (NewVKStack i props) ''VKServiceAccount'' action \<longleftrightarrow>
     List.member policy_actions action \<or> action = ''iam:PassRole''"
  by (auto simp: stack_grants_def NewVKStack_def)

text \<open>
  Whatever AWS's managed policies say, of the actions the provider relies on the stack leaves out exactly two: the
  status of an instance, and the object that the provider signs the URL for; reading it is granted to the
  instances instead, whose role the URL does not use.
\<close>

theorem stack_withholds:
  "filter (\<lambda>a. \<not> stack_grants managed reads (hd vkstack_app) ''VKServiceAccount'' a) provider_actions =
    [''ec2:DescribeInstanceStatus'', ''s3:GetObject''] \<and>
   (reads ''s3:GetObject'' \<longrightarrow> stack_grants managed reads (hd vkstack_app) ''VKInstanceRole'' ''s3:GetObject'')"
  by (simp add: vkstack_app_def service_account_grants provider_actions_def policy_actions_def)
    (simp add: stack_grants_def NewVKStack_def)

text \<open>The constructs that a declaration refers to, and the one it makes, if it makes one.\<close>

fun mentions :: "cdk_call \<Rightarrow> string list" where
  "mentions (AddManifest _ c _) = [c]"
| "mentions (AddServiceAccount _ c _ _) = [c]"
| "mentions (AddDependency a b) = [a, b]"
| "mentions (AddToPrincipalPolicy r _ _ _) = [r]"
| "mentions (VpcOutput _ c _) = [c]"
| "mentions (SecurityGroup _ c _ _ _) = [c]"
| "mentions (Role _ _ _ policies _) = policies"
| "mentions (InstanceProfile _ roles _) = roles"
| "mentions (GrantPassRole r g) = [r, g]"
| "mentions (GrantRead b g _) = [b, g]"
| "mentions _ = []"

fun makes :: "cdk_call \<Rightarrow> string list" where
  "makes (AddDependency _ _) = []"
| "makes (AddToPrincipalPolicy _ _ _ _) = []"
| "makes (GrantPassRole _ _) = []"
| "makes (GrantRead _ _ _) = []"
| "makes d = [decl_id d]"

fun declared_in_order :: "string list \<Rightarrow> cdk_call list \<Rightarrow> bool" where
  "declared_in_order made [] = True"
| "declared_in_order made (d # ds) \<longleftrightarrow> list_all (List.member made) (mentions d) \<and>
     \<not> list_ex (List.member made) (makes d) \<and> declared_in_order (made @ makes d) ds"

text \<open>
  The stack never uses an id twice, nor a construct that it has not declared yet.
\<close>

theorem stack_in_order: "declared_in_order [] (declarations (NewVKStack i props))"
  by (simp add: NewVKStack_def)

text \<open>
  AWS refuses an action that is not granted: \<open>refuses action op\<close> is that for the operation \<open>op\<close> of a provider with
  the service account's role, with nothing changed.
\<close>

definition refuses :: "string \<Rightarrow> ('w, 'a, 'b) aws_op \<Rightarrow> bool" where
  "refuses action op \<longleftrightarrow>
     stack_grants (\<lambda>_ _. True) (\<lambda>_. True) (hd vkstack_app) ''VKServiceAccount'' action \<or> (\<forall>a w. \<exists>e. op a w = (Inl e, w))"

section \<open>A provider deployed by the stack\<close>

lemma GetCompute_refused:
  assumes "config s = Some cfg" and "pods_at s r = Some p" and "wpm_config (warmPool prov) = []"
    and "annotation p instance_id_key \<noteq> []" and "sdk_loads sdk cfg (world s) w"
    and "refuses ''ec2:DescribeInstanceStatus'' (svc_DescribeInstanceStatus (Svc (the_client sdk cfg)))"
  shows "GetCompute sdk prov r s = createCompute sdk r (s\<lparr>world := w\<rparr>)"
proof -
  have "\<not> stack_grants (\<lambda>_ _. True) (\<lambda>_. True) (hd vkstack_app) ''VKServiceAccount'' ''ec2:DescribeInstanceStatus''"
    by (simp add: vkstack_app_def service_account_grants policy_actions_def)
  then obtain e where "svc_DescribeInstanceStatus (Svc (the_client sdk cfg)) [annotation p instance_id_key] w =
      (Inl e, w)"
    using assms(6) unfolding refuses_def by blast
  from podHasInstance_run [OF assms(1,5,2,4) this] assms(2,3) show ?thesis
    by (simp add: GetCompute_def andthen_run [of "podHasInstance _ _"] says_running_def andthen_load_pod
        PodIsWarmPool_def)
qed

text \<open>
  C30: a provider with the stack's policy never finds a pod's instance again: the policy leaves
  \<open>DescribeInstanceStatus\<close> out, its refusal counts as ``not running'', and asking for compute for a pod
  that has a running instance launches a second one and overwrites the only record of the first.
\<close>

theorem stack_policy_relaunches:
  fixes s :: "('w, 'z) warm_scheme"
  assumes "config s = Some cfg" and "pods_at s r = Some p" and "wpm_config (warmPool prov) = []"
    and "annotation p instance_id_key = old" and "old \<noteq> []" and "Annotations p = Some m"
    and "sdk_loads sdk cfg (world s) w"
    and "refuses ''ec2:DescribeInstanceStatus'' (svc_DescribeInstanceStatus (Svc (the_client sdk cfg)))"
    and "launches sdk cfg p (next_order s) presigned iid w w1" and "sdk_loads sdk cfg w1 w2"
    and "wait_InstanceRunning (Svc (the_client sdk cfg)) (WaiterSvc (the_client sdk cfg))
      60000000000 (by_id iid) w2 = (None, w3)"
    and "svc_DescribeInstances (Svc (the_client sdk cfg)) (by_id iid) w3 = (Inr out, w4)"
    and "sole_instance out = Some i" and "PrivateIpAddress i = Some ip" and "InstanceState i = Some st"
  shows "\<exists>t p'. GetCompute sdk prov r s = (t, Ret (Inr (iid, ip))) \<and> world t = w4 \<and>
    pods_at t = (pods_at s)(r \<mapsto> p') \<and> annotation p' instance_id_key = iid \<and>
    counters t = (counters s)(EC2Launched := Suc (counters s EC2Launched))"
proof -
  let ?s = "s\<lparr>world := w\<rparr>"
  have s: "config ?s = Some cfg" "pods_at ?s r = Some p" "launches sdk cfg p (next_order ?s) presigned iid (world ?s) w1"
    using assms(1,2,9) by (simp_all add: next_order_def)
  let ?q = "p\<lparr>Annotations := Some (assign instance_id_key iid m)\<rparr>"
  let ?u = "?s\<lparr>world := w1, choices := tl (choices ?s), pods_at := (pods_at ?s)(r \<mapsto> ?q),
    counters := (counters ?s)(EC2Launched := Suc (counters ?s EC2Launched))\<rparr>"
  have "config ?u = Some cfg" "sdk_loads sdk cfg (world ?u) w2" using assms(1,10) by simp_all
  note ip = GetPrivateIP_run [OF this assms(11-15)]
  let ?q' = "?q\<lparr>Status := (Status p)\<lparr>PodIP := ip\<rparr>\<rparr>"
  have "createCompute sdk r ?s = (?u\<lparr>world := w4, pods_at := (pods_at s)(r \<mapsto> ?q')\<rparr>, Ret (Inr (iid, ip)))"
    using CreateEC2_step [OF s(1,2) assms(6) s(3)] ip by (simp add: andthen_run update_pod_run ret_run)
  moreover have "annotation ?q' instance_id_key = iid"
    using annotation_assign [where p = "p\<lparr>Status := (Status p)\<lparr>PodIP := ip\<rparr>\<rparr>"] by (simp add: annotation_def)
  ultimately show ?thesis
    using GetCompute_refused [OF assms(1-3) _ assms(7,8)] assms(4,5)
    by (intro exI [of _ "?u\<lparr>world := w4, pods_at := (pods_at s)(r \<mapsto> ?q')\<rparr>"] exI [of _ ?q']) simp
qed

section \<open>A concrete deployment\<close>

definition deployed_service :: "cloud service" where
  "deployed_service = cloud_service\<lparr>svc_DescribeInstanceStatus :=
     (\<lambda>_ w. (Inl (ErrorString ''UnauthorizedOperation''), w))\<rparr>"

definition deployed_sdk :: "cloud sdk" where
  "deployed_sdk = cloud_sdk\<lparr>ec2_NewFromConfig := (\<lambda>_. deployed_service)\<rparr>"

lemma deployed_sdk_fields [simp]:
  "Svc (the_client deployed_sdk cfg) = deployed_service" "sdk_loads deployed_sdk cfg w w' \<longleftrightarrow> w' = w"
  "PresignGetObject_op deployed_sdk = PresignGetObject_op cloud_sdk"
  "svc_RunInstances deployed_service = cloud_run" "svc_DescribeInstances deployed_service = cloud_describe"
  "wait_InstanceRunning deployed_service = (\<lambda>_ _ _ w. (None, w))"
  "svc_DescribeInstanceStatus deployed_service = (\<lambda>_ w. (Inl (ErrorString ''UnauthorizedOperation''), w))"
  by (auto simp: deployed_sdk_def the_client_def sdk_loads_def deployed_service_def cloud_service_def)

theorem stack_policy_relaunches_witness:
  "\<exists>t. GetCompute deployed_sdk (sample_provider []) 0 running_state = (t, Ret (Inr (''i-1'', ''10.0.0.1''))) \<and>
    length (vms (world t)) = 2"
proof -
  let ?p = "with_instance ''i-7'' sample_pod"
  let ?url = "Inr (''https://'' @ S3Bucket (BootstrapConf sample_config) @ ''/'' @
    S3Key (BootstrapConf sample_config))"
  let ?in = "launch_request ?p (pod_tags deployed_sdk ?p (next_order running_state)) (launch_data sample_config ?url)"
  let ?vm = "hd (projr (fst (cloud_run ?in running_cloud)))"
  let ?w = "snd (cloud_run ?in running_cloud)"
  have vm: "InstanceId ?vm = Some ''i-1''" "PrivateIpAddress ?vm = Some ''10.0.0.1''" "InstanceState ?vm = Some ''pending''"
    by (simp_all add: cloud_run_def Let_def running_cloud_def empty_cloud_def)
  have "runs_instance deployed_sdk sample_config ?in running_cloud (Inr [?vm]) ?w"
    by (simp add: runs_instance_def cloud_run_def Let_def)
  then have l: "launches deployed_sdk sample_config ?p (next_order running_state) ?url ''i-1'' running_cloud ?w"
    using vm(1) unfolding launches_def
    by (intro exI [of _ running_cloud] exI [of _ ?vm] conjI) simp_all
  have r: "refuses ''ec2:DescribeInstanceStatus'' (svc_DescribeInstanceStatus (Svc (the_client deployed_sdk sample_config)))"
    by (simp add: refuses_def)
  have d: "cloud_describe (by_id ''i-1'') ?w = (Inr \<lparr>Reservations = [[?vm]], NextToken = None\<rparr>, ?w)"
    by (simp add: cloud_run_def cloud_describe_def Let_def running_cloud_def empty_cloud_def by_id_def sample_vm_def)
  have "Annotations ?p = Some [(instance_id_key, ''i-7'')]" by (simp add: with_instance_def)
  then show ?thesis
    using stack_policy_relaunches [of running_state sample_config 0 ?p "sample_provider []" "''i-7''"
        "[(instance_id_key, ''i-7'')]" deployed_sdk running_cloud ?url "''i-1''" ?w ?w ?w
        "\<lparr>Reservations = [[?vm]], NextToken = None\<rparr>" ?w ?vm "''10.0.0.1''" "''pending''"] l r d vm
    by (auto simp: sole_instance_def) (auto simp: cloud_run_def Let_def running_cloud_def empty_cloud_def)
qed

end
