(* ===== verification/Agent_Health.thy ===== *)
theory Agent_Health
  imports Health_Loops
begin

text \<open>
  \<open>examples/vkvmagent/health_svc.go\<close>: the health service of the example agent, the other end of the stream
  that the provider's monitor watches.  The service keeps a status per service name and a channel of one
  place per watching stream.  A method that holds the lock is one function; \<open>None\<close> is a send on a full
  channel, which would block for ever with the lock held.  A \<open>Watch\<close> call in progress is a \<open>watcher\<close>.
\<close>

section \<open>State\<close>

datatype ServingStatus = UNKNOWN | SERVING | NOT_SERVING | SERVICE_UNKNOWN

text \<open>\<open>lastSentStatus\<close> starts as -1, which is no status; \<open>sent_statuses\<close> is what went out on the stream.\<close>

record watcher =
  w_service :: string
  lastSentStatus :: "ServingStatus option"
  sent_statuses :: "ServingStatus list"

type_synonym channels = "(nat, ServingStatus option) go_map"

record Server =
  shutdown :: bool
  statusMap :: "(string, ServingStatus) go_map"
  updates :: "(string, channels) go_map"
  watchers :: "nat \<Rightarrow> watcher option"

definition NewServer :: Server where
  "NewServer = \<lparr>shutdown = False, statusMap = assign [] SERVING make_map, updates = make_map,
     watchers = Map.empty\<rparr>"

section \<open>Operations\<close>

definition Check :: "string \<Rightarrow> Server \<Rightarrow> go_error + ServingStatus" where
  "Check service s =
     (case lookup (statusMap s) service of
        Some servingStatus \<Rightarrow> Inr servingStatus
      | None \<Rightarrow> Inl (NotFoundError ''unknown service''))"

text \<open>A send on a channel with one place, and a receive that does not wait.\<close>

definition chan_send :: "'a \<Rightarrow> 'a option \<Rightarrow> 'a option option" where
  "chan_send v ch = (case ch of None \<Rightarrow> Some (Some v) | Some _ \<Rightarrow> None)"

definition chan_drain :: "'a option \<Rightarrow> 'a option" where
  "chan_drain ch = None"

fun send_updates :: "ServingStatus \<Rightarrow> channels \<Rightarrow> channels option" where
  "send_updates v [] = Some []"
| "send_updates v ((k, ch) # rest) =
     Option.bind (chan_send v (chan_drain ch)) (\<lambda>ch'.
     map_option (\<lambda>chs. (k, ch') # chs) (send_updates v rest))"

definition setServingStatusLocked :: "string \<Rightarrow> ServingStatus \<Rightarrow> Server \<Rightarrow> Server option" where
  "setServingStatusLocked service v s =
     (let s = s\<lparr>statusMap := assign service v (statusMap s)\<rparr> in
      case lookup (updates s) service of
        None \<Rightarrow> Some s
      | Some chs \<Rightarrow> map_option (\<lambda>chs'. s\<lparr>updates := assign service chs' (updates s)\<rparr>) (send_updates v chs))"

definition SetServingStatus :: "string \<Rightarrow> ServingStatus \<Rightarrow> Server \<Rightarrow> Server option" where
  "SetServingStatus service v s = (if shutdown s then Some s else setServingStatusLocked service v s)"

text \<open>\<open>order\<close> is the order in which the range visits the map.\<close>

fun set_each :: "ServingStatus \<Rightarrow> string list \<Rightarrow> Server \<Rightarrow> Server option" where
  "set_each v [] s = Some s"
| "set_each v (service # rest) s =
     Option.bind (setServingStatusLocked service v s) (set_each v rest)"

definition Shutdown :: "nat \<Rightarrow> Server \<Rightarrow> Server option" where
  "Shutdown order s =
     (let s = s\<lparr>shutdown := True\<rparr> in set_each NOT_SERVING (map fst (range_map order (statusMap s))) s)"

definition Resume :: "nat \<Rightarrow> Server \<Rightarrow> Server option" where
  "Resume order s =
     (let s = s\<lparr>shutdown := False\<rparr> in set_each SERVING (map fst (range_map order (statusMap s))) s)"

section \<open>Watching\<close>

text \<open>The part of \<open>Watch\<close> before its loop, for the stream \<open>k\<close>.\<close>

definition Watch :: "nat \<Rightarrow> string \<Rightarrow> Server \<Rightarrow> Server" where
  "Watch k service s =
     (let initial = (case lookup (statusMap s) service of Some v \<Rightarrow> v | None \<Rightarrow> SERVICE_UNKNOWN);
          chs = (case lookup (updates s) service of Some m \<Rightarrow> m | None \<Rightarrow> make_map)
      in s\<lparr>updates := assign service (assign k (Some initial) chs) (updates s),
           watchers := (watchers s)(k \<mapsto> \<lparr>w_service = service, lastSentStatus = None, sent_statuses = []\<rparr>)\<rparr>)"

text \<open>The deferred removal, when the call returns.\<close>

definition unwatch :: "nat \<Rightarrow> watcher \<Rightarrow> Server \<Rightarrow> Server" where
  "unwatch k w s =
     s\<lparr>updates := (case lookup (updates s) (w_service w) of
          None \<Rightarrow> updates s
        | Some chs \<Rightarrow> assign (w_service w) (delete_key k chs) (updates s)),
       watchers := (watchers s)(k := None)\<rparr>"

definition pending :: "nat \<Rightarrow> watcher \<Rightarrow> Server \<Rightarrow> ServingStatus option" where
  "pending k w s = Option.bind (lookup (updates s) (w_service w)) (\<lambda>chs. Option.bind (lookup chs k) (\<lambda>ch. ch))"

definition take_pending :: "nat \<Rightarrow> watcher \<Rightarrow> Server \<Rightarrow> Server" where
  "take_pending k w s = s\<lparr>updates := (case lookup (updates s) (w_service w) of
     None \<Rightarrow> updates s | Some chs \<Rightarrow> assign (w_service w) (assign k None chs) (updates s))\<rparr>"

text \<open>
  The first case of the \<open>select\<close>, when a status is waiting; \<open>ok\<close> is whether \<open>Send\<close> succeeds.  Taking the status
  and the whole \<open>Send\<close> are one step, at the time the status is taken: the model has no state in which a \<open>Send\<close>
  is blocked, and a status that is on its way then counts as sent.
\<close>

definition watch_update :: "nat \<Rightarrow> watcher \<Rightarrow> ServingStatus \<Rightarrow> bool \<Rightarrow> Server \<Rightarrow> Server" where
  "watch_update k w v ok s =
     (let s = take_pending k w s in
      if lastSentStatus w = Some v then s
      else if ok then
        s\<lparr>watchers := (watchers s)(k \<mapsto> w\<lparr>lastSentStatus := Some v, sent_statuses := sent_statuses w @ [v]\<rparr>)\<rparr>
      else unwatch k w s)"

text \<open>
  A step of the service: a call of a method, a new \<open>Watch\<close> on a stream that has none, a watcher that
  takes its status, or one whose stream's context is done.
\<close>

inductive agent_step :: "Server \<Rightarrow> Server \<Rightarrow> bool" where
  set_status: "SetServingStatus service v s = Some t \<Longrightarrow> agent_step s t"
| shut_down: "Shutdown order s = Some t \<Longrightarrow> agent_step s t"
| resume: "Resume order s = Some t \<Longrightarrow> agent_step s t"
| watch: "watchers s k = None \<Longrightarrow> agent_step s (Watch k service s)"
| update: "watchers s k = Some w \<Longrightarrow> pending k w s = Some v \<Longrightarrow> agent_step s (watch_update k w v ok s)"
| leave: "watchers s k = Some w \<Longrightarrow> agent_step s (unwatch k w s)"

inductive agent_reaches :: "Server \<Rightarrow> Server \<Rightarrow> bool" where
  here: "agent_reaches s s"
| there: "agent_reaches s t \<Longrightarrow> agent_step t u \<Longrightarrow> agent_reaches s u"

section \<open>No send blocks\<close>

lemma send_updates_total: "send_updates v chs = Some (map (\<lambda>(k, ch). (k, Some v)) chs)"
  by (induction chs) (auto simp: chan_send_def chan_drain_def)

lemma setServingStatusLocked_run:
  "setServingStatusLocked service v s =
    Some (s\<lparr>statusMap := assign service v (statusMap s),
      updates := (case lookup (updates s) service of None \<Rightarrow> updates s
        | Some chs \<Rightarrow> assign service (map (\<lambda>(k, ch). (k, Some v)) chs) (updates s))\<rparr>)"
  by (simp add: setServingStatusLocked_def send_updates_total Let_def split: option.splits)

lemma set_each_total: "\<exists>t. set_each v services s = Some t"
  by (induction services arbitrary: s) (simp_all add: setServingStatusLocked_run)

section \<open>What a client sees\<close>

definition current :: "Server \<Rightarrow> string \<Rightarrow> ServingStatus" where
  "current s service = (case lookup (statusMap s) service of Some v \<Rightarrow> v | None \<Rightarrow> SERVICE_UNKNOWN)"

text \<open>
  A watcher is up to date: the status waiting in its channel, or else the last one it sent, is the current
  one, and it never sent the same status twice in a row.
\<close>

fun up_to_date :: "ServingStatus option \<Rightarrow> ServingStatus option \<Rightarrow> ServingStatus \<Rightarrow> bool" where
  "up_to_date (Some v) prev cur \<longleftrightarrow> v = cur"
| "up_to_date None prev cur \<longleftrightarrow> prev = Some cur"

definition watcher_ok :: "Server \<Rightarrow> nat \<Rightarrow> watcher \<Rightarrow> bool" where
  "watcher_ok s k w \<longleftrightarrow>
     (\<exists>chs ch. lookup (updates s) (w_service w) = Some chs \<and> lookup chs k = Some ch \<and>
        up_to_date ch (lastSentStatus w) (current s (w_service w))) \<and>
     lastSentStatus w = (if sent_statuses w = [] then None else Some (last (sent_statuses w))) \<and>
     distinct_adj (sent_statuses w)"

definition maps_ok :: "Server \<Rightarrow> bool" where
  "maps_ok s \<longleftrightarrow> go_map_ok (statusMap s) \<and> go_map_ok (updates s) \<and>
     (\<forall>service chs. lookup (updates s) service = Some chs \<longrightarrow> go_map_ok chs)"

definition watchers_ok :: "Server \<Rightarrow> bool" where
  "watchers_ok s \<longleftrightarrow> maps_ok s \<and> (\<forall>k w. watchers s k = Some w \<longrightarrow> watcher_ok s k w)"

definition shutdown_ok :: "Server \<Rightarrow> bool" where
  "shutdown_ok s \<longleftrightarrow>
     (shutdown s \<longrightarrow> (\<forall>service v. lookup (statusMap s) service = Some v \<longrightarrow> v = NOT_SERVING))"

lemma lookup_map_snd: "lookup (map (\<lambda>(k, x). (k, f x)) m) k = map_option f (lookup m k)"
  by (simp add: lookup_def map_of_map)

lemma go_map_ok_map_snd: "go_map_ok (map (\<lambda>(k, x). (k, f x)) m) = go_map_ok m"
  by (simp add: go_map_ok_def case_prod_unfold comp_def)

lemma set_status_ok:
  assumes "watchers_ok s" and "setServingStatusLocked service v s = Some t"
  shows "watchers_ok t" and "shutdown t = shutdown s"
    and "lookup (statusMap t) = (lookup (statusMap s))(service \<mapsto> v)"
proof -
  have m: "go_map_ok (statusMap s)" "go_map_ok (updates s)" using assms(1) by (simp_all add: watchers_ok_def maps_ok_def)
  note t = assms(2) [unfolded setServingStatusLocked_run, simplified, symmetric]
  show "shutdown t = shutdown s" and look: "lookup (statusMap t) = (lookup (statusMap s))(service \<mapsto> v)"
    by (simp_all add: t lookup_maps [OF m(1)])
  have up: "lookup (updates t) sv = (if sv = service then
      map_option (map (\<lambda>(k, ch). (k, Some v))) (lookup (updates s) service) else lookup (updates s) sv)" for sv
    by (simp add: t lookup_maps [OF m(2)] split: option.splits)
  have "maps_ok t"
    using assms(1) gm.ok_put [OF m(1)] gm.ok_put [OF m(2)] up
    by (auto simp: watchers_ok_def maps_ok_def go_map_ok_map_snd t split: if_splits option.splits)
  moreover have "watcher_ok t k w" if w: "watchers t k = Some w" for k w
  proof -
    have "watcher_ok s k w" using w assms(1) by (simp add: t watchers_ok_def)
    then obtain chs ch where c: "lookup (updates s) (w_service w) = Some chs" "lookup chs k = Some ch"
      "up_to_date ch (lastSentStatus w) (current s (w_service w))"
      "lastSentStatus w = (if sent_statuses w = [] then None else Some (last (sent_statuses w)))"
      "distinct_adj (sent_statuses w)"
      unfolding watcher_ok_def by blast
    show ?thesis
    proof (cases "w_service w = service")
      case True
      then have "lookup (updates t) (w_service w) = Some (map (\<lambda>(k, ch). (k, Some v)) chs)"
        using c(1) up by simp
      moreover have "lookup (map (\<lambda>(k, ch). (k, Some v)) chs) k = Some (Some v)"
        using c(2) lookup_map_snd [of "\<lambda>_. Some v" chs k] by simp
      moreover have "current t (w_service w) = v" using True look by (simp add: current_def)
      ultimately show ?thesis using c(4,5) unfolding watcher_ok_def by fastforce
    next
      case False
      then have "current t (w_service w) = current s (w_service w)"
        "lookup (updates t) (w_service w) = Some chs"
        using look up c(1) by (simp_all add: current_def)
      then show ?thesis using c unfolding watcher_ok_def by auto
    qed
  qed
  ultimately show "watchers_ok t" by (simp add: watchers_ok_def)
qed

lemma set_each_ok:
  assumes "watchers_ok s" and "set_each v services s = Some t"
  shows "watchers_ok t \<and> shutdown t = shutdown s \<and>
    lookup (statusMap t) = (\<lambda>k. if k \<in> set services then Some v else lookup (statusMap s) k)"
  using assms
proof (induction services arbitrary: s)
  case (Cons service rest)
  obtain u where u: "setServingStatusLocked service v s = Some u"
    using setServingStatusLocked_run by blast
  then have "set_each v rest u = Some t" using Cons.prems(2) by simp
  from Cons.IH [OF _ this] set_status_ok [OF Cons.prems(1) u] show ?case by auto
qed simp

lemma shutdown_resume_ok:
  assumes "watchers_ok s" and "set_each v (map fst (range_map order (statusMap s))) (s\<lparr>shutdown := b\<rparr>) = Some t"
  shows "watchers_ok t \<and> shutdown t = b \<and> lookup (statusMap t) = (\<lambda>k. map_option (\<lambda>_. v) (lookup (statusMap s) k))"
proof -
  have "current (s\<lparr>shutdown := b\<rparr>) = current s" by (rule ext) (simp add: current_def)
  then have "watcher_ok (s\<lparr>shutdown := b\<rparr>) k w = watcher_ok s k w" for k w by (simp add: watcher_ok_def)
  then have "watchers_ok (s\<lparr>shutdown := b\<rparr>)"
    using assms(1) by (simp add: watchers_ok_def maps_ok_def)
  from set_each_ok [OF this assms(2)] have t: "watchers_ok t" "shutdown t = b"
    "lookup (statusMap t) = (\<lambda>k. if k \<in> fst ` set (statusMap s) then Some v else lookup (statusMap s) k)"
    by auto
  have "k \<in> fst ` set (statusMap s) \<longleftrightarrow> lookup (statusMap s) k \<noteq> None" for k
    by (simp add: lookup_def map_of_eq_None_iff)
  then have "(\<lambda>k. if k \<in> fst ` set (statusMap s) then Some v else lookup (statusMap s) k) =
      (\<lambda>k. map_option (\<lambda>_. v) (lookup (statusMap s) k))" by (intro ext) auto
  then show ?thesis using t by simp
qed

text \<open>A change to the channels of one service that keeps the other watchers' channels.\<close>

lemma watcher_ok_kept:
  assumes "watcher_ok s k w" and "statusMap t = statusMap s"
    and "\<And>chs. lookup (updates s) (w_service w) = Some chs \<Longrightarrow>
      \<exists>chs'. lookup (updates t) (w_service w) = Some chs' \<and> lookup chs' k = lookup chs k"
  shows "watcher_ok t k w"
proof -
  have "current t (w_service w) = current s (w_service w)" using assms(2) by (simp add: current_def)
  then show ?thesis using assms(1,3) unfolding watcher_ok_def by fastforce
qed

lemma Watch_ok:
  assumes "watchers_ok s" and "watchers s k = None"
  shows "watchers_ok (Watch k service s)"
proof -
  let ?chs = "case lookup (updates s) service of Some m \<Rightarrow> m | None \<Rightarrow> make_map"
  let ?t = "Watch k service s"
  have m: "go_map_ok (statusMap s)" "go_map_ok (updates s)" and chs: "go_map_ok ?chs"
    using assms(1) by (auto simp: watchers_ok_def maps_ok_def gm.ok_empty split: option.splits)
  have st: "statusMap ?t = statusMap s" by (simp add: Watch_def Let_def)
  have up: "lookup (updates ?t) = (lookup (updates s))(service \<mapsto> assign k (Some (current s service)) ?chs)"
    by (simp add: Watch_def Let_def lookup_maps(1) [OF m(2)] current_def)
  have "maps_ok ?t"
    using assms(1) up gm.ok_put [OF m(2)] gm.ok_put [OF chs]
    by (auto simp: maps_ok_def watchers_ok_def st Watch_def Let_def)
  moreover have "watcher_ok ?t j w" if w: "watchers ?t j = Some w" for j w
  proof (cases "j = k")
    case True
    then have "w = \<lparr>w_service = service, lastSentStatus = None, sent_statuses = []\<rparr>"
      using w by (simp add: Watch_def Let_def)
    then show ?thesis
      using True up st by (auto simp: watcher_ok_def lookup_maps(1) [OF chs] current_def)
  next
    case False
    then have "watcher_ok s j w" using w assms(1) by (simp add: Watch_def Let_def watchers_ok_def)
    then show ?thesis
      by (rule watcher_ok_kept [OF _ st]) (use False up in \<open>auto simp: lookup_maps(1) [OF chs]\<close>)
  qed
  ultimately show ?thesis by (simp add: watchers_ok_def)
qed

lemma unwatch_ok:
  assumes "watchers_ok s" and "watchers s k = Some w"
  shows "watchers_ok (unwatch k w s)"
proof -
  let ?t = "unwatch k w s"
  have m: "go_map_ok (updates s)" using assms(1) by (simp add: watchers_ok_def maps_ok_def)
  obtain chs where chs: "lookup (updates s) (w_service w) = Some chs"
    using assms unfolding watchers_ok_def watcher_ok_def by blast
  then have ok: "go_map_ok chs" using assms(1) by (auto simp: watchers_ok_def maps_ok_def)
  have st: "statusMap ?t = statusMap s" by (simp add: unwatch_def)
  have up: "lookup (updates ?t) = (lookup (updates s))(w_service w \<mapsto> delete_key k chs)"
    by (simp add: unwatch_def chs lookup_maps(1) [OF m])
  have "maps_ok ?t"
    using assms(1) up gm.ok_put [OF m] gm.ok_del [OF ok]
    by (auto simp: maps_ok_def watchers_ok_def st unwatch_def chs)
  moreover have "watcher_ok ?t j v" if v: "watchers ?t j = Some v" for j v
  proof -
    have "j \<noteq> k" and v': "watchers s j = Some v" using v by (auto simp: unwatch_def split: if_splits)
    then have "watcher_ok s j v" using assms(1) by (simp add: watchers_ok_def)
    then show ?thesis
      by (rule watcher_ok_kept [OF _ st]) (use \<open>j \<noteq> k\<close> up chs in \<open>auto simp: lookup_maps(2) [OF ok]\<close>)
  qed
  ultimately show ?thesis by (simp add: watchers_ok_def)
qed

lemma pendingE:
  assumes "pending k w s = Some v"
  obtains chs where "lookup (updates s) (w_service w) = Some chs" "lookup chs k = Some (Some v)"
  using assms by (auto simp: pending_def split: bind_splits)

lemma distinct_adj_snoc: "distinct_adj xs \<Longrightarrow> xs = [] \<or> last xs \<noteq> x \<Longrightarrow> distinct_adj (xs @ [x])"
  by (auto simp: distinct_adj_append_iff)

lemma take_pending_kept:
  assumes "watchers_ok s" and "watchers s k = Some w" and "pending k w s = Some v"
  shows "maps_ok (take_pending k w s)" and "statusMap (take_pending k w s) = statusMap s"
    and "\<exists>chs. lookup (updates (take_pending k w s)) (w_service w) = Some chs \<and> lookup chs k = Some None"
    and "v = current s (w_service w)"
    and "j \<noteq> k \<Longrightarrow> watcher_ok s j u \<Longrightarrow> watcher_ok (take_pending k w s) j u"
proof -
  let ?t = "take_pending k w s"
  have m: "go_map_ok (updates s)" using assms(1) by (simp add: watchers_ok_def maps_ok_def)
  obtain chs where chs: "lookup (updates s) (w_service w) = Some chs" "lookup chs k = Some (Some v)"
    using assms(3) by (rule pendingE)
  then have ok: "go_map_ok chs" using assms(1) by (auto simp: watchers_ok_def maps_ok_def)
  show st: "statusMap ?t = statusMap s" by (simp add: take_pending_def)
  have up: "lookup (updates ?t) = (lookup (updates s))(w_service w \<mapsto> assign k None chs)"
    by (simp add: take_pending_def chs lookup_maps(1) [OF m])
  show "maps_ok ?t"
    using assms(1) up gm.ok_put [OF m] gm.ok_put [OF ok]
    by (auto simp: maps_ok_def watchers_ok_def st take_pending_def chs)
  show "\<exists>chs. lookup (updates ?t) (w_service w) = Some chs \<and> lookup chs k = Some None"
    using up by (simp add: lookup_maps(1) [OF ok])
  show "v = current s (w_service w)"
    using assms(1,2) chs unfolding watchers_ok_def watcher_ok_def by fastforce
  show "j \<noteq> k \<Longrightarrow> watcher_ok s j u \<Longrightarrow> watcher_ok ?t j u"
    by (erule watcher_ok_kept [OF _ st]) (use up chs in \<open>auto simp: lookup_maps(1) [OF ok]\<close>)
qed

lemma watch_update_ok:
  assumes "watchers_ok s" and "watchers s k = Some w" and "pending k w s = Some v"
  shows "watchers_ok (watch_update k w v ok s)"
proof -
  let ?t = "take_pending k w s"
  note t = take_pending_kept [OF assms]
  have cur: "current ?t = current s" by (rule ext) (simp add: current_def t(2))
  have ws: "watchers ?t = watchers s" by (simp add: take_pending_def)
  have w: "lastSentStatus w = (if sent_statuses w = [] then None else Some (last (sent_statuses w)))"
    "distinct_adj (sent_statuses w)"
    using assms(1,2) unfolding watchers_ok_def watcher_ok_def by blast+
  have others: "watcher_ok ?t j u" if "j \<noteq> k" "watchers s j = Some u" for j u
    using t(5) that assms(1) by (simp add: watchers_ok_def)
  let ?w = "w\<lparr>lastSentStatus := Some v, sent_statuses := sent_statuses w @ [v]\<rparr>"
  let ?u = "?t\<lparr>watchers := (watchers s)(k \<mapsto> ?w)\<rparr>"
  have same: "watcher_ok ?u j x = watcher_ok ?t j x" for j x by (simp add: watcher_ok_def current_def)
  have sent: "watchers_ok ?u" if "lastSentStatus w \<noteq> Some v"
  proof -
    have "distinct_adj (sent_statuses w @ [v])" using w that by (intro distinct_adj_snoc) (auto split: if_splits)
    then have "watcher_ok ?t k ?w"
      using t(3,4) cur by (auto simp: watcher_ok_def)
    then show ?thesis using t(1) others same by (auto simp: watchers_ok_def maps_ok_def)
  qed
  have quiet: "watchers_ok ?t" if "lastSentStatus w = Some v"
  proof -
    have "watcher_ok ?t k w" using t(3,4) cur w that unfolding watcher_ok_def by fastforce
    then have "watcher_ok ?t j u" if "watchers s j = Some u" for j u
      using that others assms(2) by (cases "j = k") auto
    then show ?thesis using t(1) ws by (simp add: watchers_ok_def)
  qed
  show ?thesis
  proof (cases "lastSentStatus w = Some v")
    case True
    then show ?thesis using quiet by (simp add: watch_update_def Let_def)
  next
    case False
    have "unwatch k ?w ?u = unwatch k w ?t"
      by (cases "lookup (updates ?t) (w_service w)") (simp_all add: unwatch_def ws)
    then have "watchers_ok (unwatch k w ?t)"
      using unwatch_ok [OF sent [OF False], of k ?w] by simp
    then show ?thesis using False sent ws by (simp add: watch_update_def Let_def)
  qed
qed

text \<open>The invariant of every state the service can be in.\<close>

lemma NewServer_ok: "watchers_ok NewServer \<and> shutdown_ok NewServer"
  by (simp add: NewServer_def watchers_ok_def maps_ok_def shutdown_ok_def gm.ok_empty gm.ok_put gm.look_empty)

lemma agent_step_ok:
  assumes "agent_step s t" and "watchers_ok s" and "shutdown_ok s"
  shows "watchers_ok t \<and> shutdown_ok t"
  using assms
proof (induction rule: agent_step.induct)
  case (set_status service v s t)
  show ?case
  proof (cases "shutdown s")
    case True
    then show ?thesis using set_status by (simp add: SetServingStatus_def)
  next
    case False
    then have "setServingStatusLocked service v s = Some t" using set_status(1) by (simp add: SetServingStatus_def)
    from set_status_ok [OF set_status(2) this] False show ?thesis by (simp add: shutdown_ok_def)
  qed
next
  case (shut_down order s t)
  then have "set_each NOT_SERVING (map fst (range_map order (statusMap s))) (s\<lparr>shutdown := True\<rparr>) = Some t"
    by (simp add: Shutdown_def Let_def)
  from shutdown_resume_ok [OF shut_down(2) this] show ?case by (auto simp: shutdown_ok_def)
next
  case (resume order s t)
  then have "set_each SERVING (map fst (range_map order (statusMap s))) (s\<lparr>shutdown := False\<rparr>) = Some t"
    by (simp add: Resume_def Let_def)
  from shutdown_resume_ok [OF resume(2) this] show ?case by (auto simp: shutdown_ok_def)
next
  case (watch s k service)
  then show ?case using Watch_ok by (simp add: shutdown_ok_def Watch_def Let_def)
next
  case (update s k w v ok)
  then show ?case
    using watch_update_ok by (simp add: shutdown_ok_def watch_update_def unwatch_def take_pending_def Let_def)
next
  case (leave s k w)
  then show ?case using unwatch_ok by (simp add: shutdown_ok_def unwatch_def)
qed

lemma agent_reaches_ok:
  "agent_reaches s t \<Longrightarrow> watchers_ok s \<and> shutdown_ok s \<Longrightarrow> watchers_ok t \<and> shutdown_ok t"
  by (induction rule: agent_reaches.induct) (simp_all add: agent_step_ok)

section \<open>The service's promises\<close>

text \<open>
  C20: in every state the service can reach, whatever its callers and clients do: a watching client never gets
  the same status twice in a row, the status waiting for it is always the current one, and when none is
  waiting the last one it got is the current one.
\<close>

theorem agent_clients_up_to_date:
  assumes "agent_reaches NewServer s" and "watchers s k = Some w"
  shows "distinct_adj (sent_statuses w) \<and>
    (case pending k w s of
       Some v \<Rightarrow> v = current s (w_service w)
     | None \<Rightarrow> sent_statuses w \<noteq> [] \<and> last (sent_statuses w) = current s (w_service w))"
proof -
  have "watcher_ok s k w"
    using agent_reaches_ok [OF assms(1) NewServer_ok] assms(2) by (simp add: watchers_ok_def)
  then obtain chs ch where c: "lookup (updates s) (w_service w) = Some chs" "lookup chs k = Some ch"
    "up_to_date ch (lastSentStatus w) (current s (w_service w))"
    "lastSentStatus w = (if sent_statuses w = [] then None else Some (last (sent_statuses w)))"
    "distinct_adj (sent_statuses w)"
    unfolding watcher_ok_def by blast
  then show ?thesis by (cases ch) (auto simp: pending_def split: if_splits)
qed

definition watched_server :: Server where
  "watched_server = watch_update 7 \<lparr>w_service = [], lastSentStatus = None, sent_statuses = []\<rparr> SERVING True
     (Watch 7 [] NewServer)"

lemma watched_server_run:
  "watchers watched_server 7 = Some \<lparr>w_service = [], lastSentStatus = Some SERVING, sent_statuses = [SERVING]\<rparr>"
  "statusMap watched_server = [([], SERVING)]" "shutdown watched_server = False"
  by (simp_all add: watched_server_def watch_update_def take_pending_def Watch_def NewServer_def Let_def
      make_map_def assign_def lookup_def)

lemma watched_server_reached: "agent_reaches NewServer watched_server"
proof -
  let ?s = "Watch 7 [] NewServer"
  let ?w = "\<lparr>w_service = [], lastSentStatus = None, sent_statuses = []\<rparr>"
  have "watchers NewServer 7 = None" by (simp add: NewServer_def)
  then have "agent_step NewServer ?s" by (rule agent_step.watch)
  moreover have "watchers ?s 7 = Some ?w" "pending 7 ?w ?s = Some SERVING"
    by (simp_all add: pending_def Watch_def NewServer_def Let_def make_map_def assign_def lookup_def)
  then have "agent_step ?s watched_server" unfolding watched_server_def by (rule agent_step.update)
  ultimately show ?thesis by (meson agent_reaches.intros)
qed

theorem agent_clients_up_to_date_witness:
  "\<exists>w. watchers watched_server 7 = Some w \<and> distinct_adj (sent_statuses w) \<and>
    last (sent_statuses w) = current watched_server []"
  using agent_clients_up_to_date [OF watched_server_reached watched_server_run(1)] watched_server_run
  by (auto simp: current_def lookup_def split: option.splits)

text \<open>
  Once shut down, every known service answers that it does not serve, and setting a status changes
  nothing, until the service is resumed; and no method ever blocks on a channel.
\<close>

theorem agent_shutdown_sticks:
  assumes "agent_reaches NewServer s"
  shows "(\<exists>t u v. Shutdown order s = Some t \<and> Resume order s = Some u \<and> SetServingStatus service status s = Some v) \<and>
    (shutdown s \<longrightarrow> Check service s \<in> {Inr NOT_SERVING, Inl (NotFoundError ''unknown service'')} \<and>
      SetServingStatus service status s = Some s)"
proof -
  have "shutdown_ok s" using agent_reaches_ok [OF assms NewServer_ok] by simp
  then have "shutdown s \<Longrightarrow> Check service s \<in> {Inr NOT_SERVING, Inl (NotFoundError ''unknown service'')}"
    by (auto simp: shutdown_ok_def Check_def split: option.splits)
  moreover have "\<exists>v. SetServingStatus service status s = Some v"
    by (simp add: SetServingStatus_def setServingStatusLocked_run)
  ultimately show ?thesis
    using set_each_total by (simp add: Shutdown_def Resume_def SetServingStatus_def Let_def)
qed

theorem agent_shutdown_sticks_witness:
  "\<exists>t. Shutdown 0 watched_server = Some t"
  using agent_shutdown_sticks [OF watched_server_reached, of 0 "[]" SERVING] by blast

section \<open>The end of the agent\<close>

text \<open>
  \<open>examples/vkvmagent/main.go\<close>: what \<open>main\<close> does when \<open>Serve\<close> returns; an error is logged as a successful
  start, and the service of another name is set to not serving.
\<close>

definition after_serve :: "go_error option \<Rightarrow> Server \<Rightarrow> Server option" where
  "after_serve err2 healthSvr =
     (case err2 of
        Some _ \<Rightarrow> SetServingStatus ''vkvmagent.v0.ApplicationLifecycleServer'' NOT_SERVING healthSvr
      | None \<Rightarrow> Some healthSvr)"

text \<open>
  \<open>main\<close>: listening on all interfaces, serving the two services until \<open>Serve\<close> returns with the health service as
  it then is, and the end.  \<open>listen\<close> and \<open>serve\<close> are the network and gRPC.
\<close>

definition default_port :: int where
  "default_port = 8200"

definition vkvmagent_main ::
  "(string \<times> string \<times> int \<Rightarrow> go_error + 'l) \<Rightarrow> ('l \<Rightarrow> string list \<Rightarrow> Server \<Rightarrow> go_error option \<times> Server) \<Rightarrow> int \<Rightarrow>
   Server option outcome" where
  "vkvmagent_main listen serve p =
     (case listen (''tcp'', ''0.0.0.0'', p) of
        Inl err \<Rightarrow> Crash (LogFatal (''failed to listen: '' @ Error err))
      | Inr lis \<Rightarrow>
          (case serve lis [''vkvmagent.v0.ApplicationLifecycle'', ''grpc.health.v1.Health''] NewServer of
             (err2, healthSvr) \<Rightarrow> Ret (after_serve err2 healthSvr)))"

text \<open>
  The end of the server does not reach the provider: it watches the service with the empty name, whose
  status stays what it was.
\<close>

theorem after_serve_unnoticed: "\<exists>t. after_serve err2 s = Some t \<and> Check [] t = Check [] s"
proof -
  have "map_of (AList.update k v m) j = (if j = k then Some v else map_of m j)"
    for k j :: string and v and m :: "(string, ServingStatus) go_map"
    by (simp add: update_conv')
  then show ?thesis
    by (cases err2) (auto simp: after_serve_def SetServingStatus_def setServingStatusLocked_run Check_def
        lookup_def assign_def split: option.splits)
qed

text \<open>
  When \<open>Serve\<close> ends with the health service in a state that the service can reach, \<open>main\<close> returns, in such a
  state again, and what the provider watches is unchanged: the end of the agent is not announced to it.
\<close>

theorem vkvmagent_main_unannounced:
  assumes "listen (''tcp'', ''0.0.0.0'', p) = Inr lis"
    and "serve lis [''vkvmagent.v0.ApplicationLifecycle'', ''grpc.health.v1.Health''] NewServer = (err2, s)"
    and "agent_reaches NewServer s"
  shows "\<exists>t. vkvmagent_main listen serve p = Ret (Some t) \<and> agent_reaches NewServer t \<and> Check [] t = Check [] s"
proof -
  obtain t where t: "after_serve err2 s = Some t" "Check [] t = Check [] s" using after_serve_unnoticed by blast
  have "agent_reaches NewServer t"
  proof (cases err2)
    case None
    then show ?thesis using t(1) assms(3) by (simp add: after_serve_def)
  next
    case (Some e)
    then have "SetServingStatus ''vkvmagent.v0.ApplicationLifecycleServer'' NOT_SERVING s = Some t"
      using t(1) by (simp add: after_serve_def)
    then show ?thesis using there [OF assms(3) set_status] by blast
  qed
  then show ?thesis using t assms(1,2) by (simp add: vkvmagent_main_def)
qed

section \<open>The agent's shutdown at the provider\<close>

text \<open>
  C29: the provider watches the service with the empty name.  When the agent shuts down, its monitor is sent
  ``not serving'', and takes it for a success: the response's status is not read, so the monitor becomes
  healthy with no failures.
\<close>

theorem agent_shutdown_looks_healthy:
  fixes s :: "('w, 'z) health_scheme"
  assumes "agent_reaches NewServer a" and "watchers a k = Some w" and "lookup (statusMap a) (w_service w) \<noteq> None"
    and "Shutdown order a = Some b" and "config s = Some cfg" and "monitors_at s r = Some m"
  shows "current b (w_service w) = NOT_SERVING \<and>
    (\<exists>t result. watch_recv r ctx (RecvResponse None) HealthWatch s =
        (t, Ret (AtSend result (LoopWith (OpenStream HealthWatch)))) \<and> \<not> Failed result \<and>
      monitors_at t r = Some (m\<lparr>Failures := 0, MonState := MonitoringStateHealthy\<rparr>))"
proof -
  have "watchers_ok a" using agent_reaches_ok [OF assms(1) NewServer_ok] by simp
  from shutdown_resume_ok [OF this, of NOT_SERVING order True b] assms(4)
  have "lookup (statusMap b) = (\<lambda>k. map_option (\<lambda>_. NOT_SERVING) (lookup (statusMap a) k))"
    by (simp add: Shutdown_def Let_def)
  then have "current b (w_service w) = NOT_SERVING" using assms(3) by (auto simp: current_def)
  then show ?thesis
    using assms(5,6) by (simp add: watch_recv_def andthen_run NewCheckResult_run ret_run observe_def reset_monitor_def)
qed

theorem agent_shutdown_looks_healthy_witness:
  "\<exists>b. Shutdown 0 watched_server = Some b \<and> current b [] = NOT_SERVING \<and>
    (\<exists>t result. watch_recv 2 0 (RecvResponse None) HealthWatch sample_health =
      (t, Ret (AtSend result (LoopWith (OpenStream HealthWatch)))) \<and>
      map_option MonState (monitors_at t 2) = Some MonitoringStateHealthy)"
proof -
  obtain b where b: "Shutdown 0 watched_server = Some b"
    using set_each_total unfolding Shutdown_def Let_def by blast
  have "lookup (statusMap watched_server)
      (w_service \<lparr>w_service = [], lastSentStatus = Some SERVING, sent_statuses = [SERVING]\<rparr>) \<noteq> None"
    by (simp add: watched_server_run lookup_def)
  from agent_shutdown_looks_healthy [OF watched_server_reached watched_server_run(1) this b, of sample_health
      sample_config 2 sample_monitor 0]
  show ?thesis using b by (auto simp: health_samples)
qed

end
