(* ===== verification/Agent_Lifecycle.thy ===== *)
theory Agent_Lifecycle
  imports Health_Loops
begin

text \<open>
  \<open>examples/vkvmagent/application_lifecycle_svc.go\<close>: the application service of the example agent, which
  launches nothing and reports a happy pod; and the way of such a report through the provider's monitor
  and handler to Virtual Kubelet.  Messages are byte strings in UTF-8.
\<close>

section \<open>The service\<close>

definition svc_LaunchApplication :: "pod \<Rightarrow> ('s, go_error option) go" where
  "svc_LaunchApplication request = ret None"

definition svc_TerminateApplication :: "('s, go_error option) go" where
  "svc_TerminateApplication = ret None"

definition happy_condition :: "string \<Rightarrow> string \<Rightarrow> pod_condition" where
  "happy_condition type message = \<lparr>ConditionType = type, ConditionStatus = ''True'', LastProbeTime = 0,
     LastTransitionTime = 0, ConditionMessage = message\<rparr>"

definition happyPodStatus :: "string \<Rightarrow> nat \<Rightarrow> pod_status" where
  "happyPodStatus message now =
     (let happyConditions =
        [happy_condition ''PodScheduled'' [CHR 0xF0, CHR 0x9F, CHR 0x97, CHR 0x93],
         happy_condition ''ContainersReady'' [CHR 0xF0, CHR 0x9F, CHR 0x8F, CHR 0xBA],
         happy_condition ''Initialized'' [CHR 0xE0, CHR 0xBC, CHR 0x84],
         happy_condition ''Ready'' [CHR 0xF0, CHR 0x9F, CHR 0xA4, CHR 0x93]]
      in empty_status\<lparr>
           Phase := ''Running'',
           Conditions := happyConditions,
           StatusMessage := message,
           ContainerStatuses := [\<lparr>ContainerName = ''sample.container'',
             ContainerState = \<lparr>Waiting = None, Running = Some now, Terminated = None\<rparr>,
             Ready = True, RestartCount = 0, Image = ''image'', ContainerImageID = ''image-id'',
             ContainerID = ''container-id''\<rparr>]\<rparr>)"

definition CheckApplicationHealth :: "(('w, 'z) base_scheme, go_error + pod_status) go" where
  "CheckApplicationHealth =
     andthen Now (\<lambda>now. ret (Inr (happyPodStatus [CHR 0xF0, CHR 0x9F, CHR 0x8C, CHR 0x88] now)))"

text \<open>
  The sending loop: each round draws a sleep, and \<open>rounds\<close> gives what it drew, the time after the sleep and
  what \<open>Send\<close> returned.  The result is what was handed to \<open>Send\<close>, and the error that ended the loop, if one
  did; \<open>WatchApplicationHealth\<close> returns nil then, and goes on otherwise.
\<close>

fun send_loop :: "(nat \<times> nat \<times> go_error option) list \<Rightarrow> pod_status list \<times> go_error option" where
  "send_loop [] = ([], None)"
| "send_loop ((sleepTime, now, err) # rounds) =
     (let status = happyPodStatus (''Slept for '' @ itoa sleepTime @ '' seconds...'') now in
      case err of
        Some e \<Rightarrow> ([status], Some e)
      | None \<Rightarrow> (case send_loop rounds of (statuses, stop) \<Rightarrow> (status # statuses, stop)))"

definition WatchApplicationHealth ::
  "(nat \<times> nat \<times> go_error option) list \<Rightarrow> pod_status list \<times> go_error option option" where
  "WatchApplicationHealth rounds =
     (case send_loop rounds of (statuses, stop) \<Rightarrow>
        (statuses, case stop of None \<Rightarrow> None | Some _ \<Rightarrow> Some None))"

section \<open>What the service sends\<close>

text \<open>
  The loop sends once per round up to and including the first round whose send fails, and returns exactly
  when one does, without an error.
\<close>

theorem WatchApplicationHealth_rounds:
  "length (fst (WatchApplicationHealth rounds)) =
     min (length rounds) (Suc (length (takeWhile (\<lambda>(_, _, err). err = None) rounds))) \<and>
   snd (WatchApplicationHealth rounds) =
     (if list_ex (\<lambda>(_, _, err). err \<noteq> None) rounds then Some None else None) \<and>
   list_all (\<lambda>st. Phase st = ''Running'') (fst (WatchApplicationHealth rounds))"
  unfolding WatchApplicationHealth_def
  by (induction rounds rule: send_loop.induct)
    (auto simp: Let_def happyPodStatus_def split: option.splits prod.splits if_splits)

section \<open>The way of a report\<close>

text \<open>
  C36: A report of the example agent reaches Virtual Kubelet: the provider's monitor turns it into a successful
  check result, and the handler makes it the pod's status and notifies once.  In that status the phase is
  \<open>Running\<close>, the conditions are the four of a ready pod (\<open>PodScheduled\<close>, \<open>ContainersReady\<close>, \<open>Initialized\<close> and
  \<open>Ready\<close>), all \<open>True\<close>, the one container is ready and running since the report, and the address is the
  one the provider gave the pod; the pod's own containers are replaced by the agent's sample.
\<close>

theorem agent_report_reaches_kubelet:
  fixes s :: "('w, 'z) health_scheme"
  assumes "config s = Some cfg" and "monitors_at s r = Some m" and "pods_at s (Resource m) = Some p"
    and "utilsNotifier s = Some cb"
  shows "\<exists>t u result q. watch_recv r ctx (RecvResponse (Some (happyPodStatus message now))) ApplicationWatch s =
      (t, Ret (AtSend result (LoopWith (OpenStream ApplicationWatch)))) \<and>
    handleCheckResult result t = (u, Ret ()) \<and>
    map_option MonState (monitors_at u r) = Some MonitoringStateHealthy \<and>
    pods_at u (Resource m) = Some q \<and> notified u = notified s @ [(cb, Resource m, q)] \<and>
    Phase (Status q) = ''Running'' \<and> PodIP (Status q) = PodIP (Status p) \<and>
    map (\<lambda>c. (ConditionType c, ConditionStatus c)) (Conditions (Status q)) =
      [(''PodScheduled'', ''True''), (''ContainersReady'', ''True''), (''Initialized'', ''True''), (''Ready'', ''True'')] \<and>
    map (\<lambda>c. (ContainerName c, Ready c)) (ContainerStatuses (Status q)) = [(''sample.container'', True)] \<and>
    map ContainerState (ContainerStatuses (Status q)) = [\<lparr>Waiting = None, Running = Some now, Terminated = None\<rparr>]"
proof -
  let ?m = "m\<lparr>Failures := 0, MonState := MonitoringStateHealthy\<rparr>"
  let ?t = "s\<lparr>monitors_at := (monitors_at s)(r \<mapsto> ?m),
    counters := (counters s)(HealthCheckStateReset := Suc (counters s HealthCheckStateReset))\<rparr>"
  let ?result = "\<lparr>ResultMonitor = r, Failed = False, Message = ''application health stream received status'',
    Timestamp = clock s, Data = PodStatusData (Some (happyPodStatus message now))\<rparr>"
  let ?q = "p\<lparr>Status := merged_status (Status p) (happyPodStatus message now)\<rparr>"
  let ?u = "?t\<lparr>pods_at := (pods_at s)(Resource m \<mapsto> ?q), notified := notified s @ [(cb, Resource m, ?q)]\<rparr>"
  have "watch_recv r ctx (RecvResponse (Some (happyPodStatus message now))) ApplicationWatch s =
      (?t, Ret (AtSend ?result (LoopWith (OpenStream ApplicationWatch))))"
    using NewCheckResult_run [OF assms(1,2)]
    by (simp add: watch_recv_def andthen_run ret_run observe_def reset_monitor_def observe_metric_def bump_def)
  moreover have "handleCheckResult ?result ?t = (?u, Ret ())"
    using handleCheckResult_run [of ?t ?result ?m p] assms(3,4) by (simp add: Let_def)
  ultimately show ?thesis
    by (intro exI [of _ ?t] exI [of _ ?u] exI [of _ ?result] exI [of _ ?q])
      (simp add: merged_status_def happyPodStatus_def happy_condition_def empty_status_def)
qed

theorem agent_report_reaches_kubelet_witness:
  "\<exists>t u result q. watch_recv 2 0 (RecvResponse (Some (happyPodStatus ''ok'' 3))) ApplicationWatch sample_health =
      (t, Ret (AtSend result (LoopWith (OpenStream ApplicationWatch)))) \<and>
    handleCheckResult result t = (u, Ret ()) \<and> notified u = [(9, 0, q)] \<and> PodIP (Status q) = ''10.0.0.7'' \<and>
    (''Ready'', ''True'') \<in> (\<lambda>c. (ConditionType c, ConditionStatus c)) ` set (Conditions (Status q))"
proof -
  from agent_report_reaches_kubelet [of sample_health sample_config 2 sample_monitor sample_pod 9 0 "''ok''" 3]
  obtain t u result q where
    run: "watch_recv 2 0 (RecvResponse (Some (happyPodStatus ''ok'' 3))) ApplicationWatch sample_health =
      (t, Ret (AtSend result (LoopWith (OpenStream ApplicationWatch))))"
    "handleCheckResult result t = (u, Ret ())" "notified u = notified sample_health @ [(9, 0, q)]"
    "PodIP (Status q) = PodIP (Status sample_pod)"
    and ready: "map (\<lambda>c. (ConditionType c, ConditionStatus c)) (Conditions (Status q)) =
      [(''PodScheduled'', ''True''), (''ContainersReady'', ''True''), (''Initialized'', ''True''), (''Ready'', ''True'')]"
    by (auto simp: health_samples)
  have "(''Ready'', ''True'') \<in> set (map (\<lambda>c. (ConditionType c, ConditionStatus c)) (Conditions (Status q)))"
    unfolding ready by simp
  moreover have "PodIP (Status sample_pod) = ''10.0.0.7''" "notified sample_health = []"
    by (simp_all add: health_samples)
  ultimately show ?thesis using run by auto
qed

end
