(* ===== verification/Bootstrap_Agent.thy ===== *)
theory Bootstrap_Agent
  imports User_Data
begin

text \<open>
  \<open>examples/bootstrap_agent\<close>: the example agent that an instance boots with.  It reads the user data that the
  provider sent, makes its credentials and serves; later it starts the agent that launches applications.
  The shell commands, the network, certificates and TLS are outside the program: fields of \<open>machine\<close>.
\<close>

section \<open>The machine\<close>

text \<open>
  \<open>metadata path\<close> is the output of the \<open>curl\<close> on that path of the metadata service; \<open>append_certs\<close> is
  \<open>CertPool.AppendCertsFromPEM\<close> on a new pool; \<open>serve\<close> returns when serving ends.
\<close>

record 'w machine =
  metadata :: "string \<Rightarrow> 'w \<Rightarrow> (go_error + string) \<times> 'w"
  self_signed_cert :: "'w \<Rightarrow> (go_error + string \<times> string) \<times> 'w"
  append_certs :: "string \<Rightarrow> bool"
  X509KeyPair :: "string \<Rightarrow> string \<Rightarrow> go_error option"
  listen :: "string \<Rightarrow> 'w \<Rightarrow> go_error option \<times> 'w"
  serve :: "'w \<Rightarrow> go_error option \<times> 'w"
  write_file :: "string \<Rightarrow> string \<Rightarrow> 'w \<Rightarrow> go_error option \<times> 'w"
  marshal_spec :: "pod \<Rightarrow> string"

definition lifeCyclePort :: string where
  "lifeCyclePort = '':8200''"

definition bootstrapPort :: string where
  "bootstrapPort = '':8300''"

section \<open>Helpers\<close>

definition fetch_user_data ::
  "('w, 'e) machine_scheme \<Rightarrow> (('w, 'z) base_scheme, go_error + AgentUserData) go" where
  "fetch_user_data mc =
     andthen (call (metadata mc ''user-data'')) (\<lambda>r. case r of
       Inl err \<Rightarrow> ret (Inl err)
     | Inr raw \<Rightarrow> ret (Inr (getUserData raw)))"

text \<open>\<open>getInstanceId\<close> is not called by the program; \<open>bash\<close> is the shell with the output of a command.\<close>

definition getInstanceId ::
  "(string \<Rightarrow> 'w \<Rightarrow> (go_error + string) \<times> 'w) \<Rightarrow> (('w, 'z) base_scheme, go_error + string) go" where
  "getInstanceId bash = call (bash ''ec2-metadata --instance-id | cut -d \" \" -f 2'')"

definition createFile ::
  "('w, 'e) machine_scheme \<Rightarrow> pod \<Rightarrow> (('w, 'z) base_scheme, go_error option) go" where
  "createFile mc p = call (write_file mc ''/tmp/pod.json'' (marshal_spec mc p))"

definition createSelfSignedCert ::
  "('w, 'e) machine_scheme \<Rightarrow> (('w, 'z) base_scheme, go_error + string \<times> string) go" where
  "createSelfSignedCert mc = call (self_signed_cert mc)"

text \<open>The credentials are the certificate and its key.\<close>

definition loadBootstrapServerCredentials ::
  "('w, 'e) machine_scheme \<Rightarrow> string \<Rightarrow> string \<Rightarrow> string \<Rightarrow> go_error + string \<times> string" where
  "loadBootstrapServerCredentials mc certificate key caCert =
     (if \<not> append_certs mc caCert
      then Inl (ErrorString ''failed to add CA's certificate for BootstrapServer '')
      else case X509KeyPair mc certificate key of
          Some err \<Rightarrow> Inl err
        | None \<Rightarrow> Inr (certificate, key))"

definition loadLifeCycleServerCredentials ::
  "('w, 'e) machine_scheme \<Rightarrow> string \<Rightarrow> string \<Rightarrow> string \<Rightarrow> go_error + string \<times> string" where
  "loadLifeCycleServerCredentials mc serverCert serverKey caCert =
     (if \<not> append_certs mc caCert
      then Inl (ErrorString ''failed to add CA's certificate for ApplicationLifeCycleServer'')
      else case X509KeyPair mc serverCert serverKey of
          Some err \<Rightarrow> Inl err
        | None \<Rightarrow> Inr (serverCert, serverKey))"

section \<open>The servers\<close>

text \<open>
  The error of reading the user data is only logged; the pointer is then nil when its certificate is read.
  A failing \<open>Listen\<close> or \<open>Serve\<close> ends the process.
\<close>

definition startBootstrapAgentServer ::
  "('w, 'e) machine_scheme \<Rightarrow> (('w, 'z) base_scheme, go_error option) go" where
  "startBootstrapAgentServer mc =
     andthen (fetch_user_data mc) (\<lambda>r.
     (let userData = (case r of Inl _ \<Rightarrow> None | Inr u \<Rightarrow> Some u) in
      andthen (createSelfSignedCert mc) (\<lambda>c. case c of
        Inl err \<Rightarrow> ret (Some err)
      | Inr (certBytes, keyBytes) \<Rightarrow>
          andthen (deref userData) (\<lambda>u.
          case loadBootstrapServerCredentials mc certBytes keyBytes (CACertificate u) of
            Inl err \<Rightarrow> ret (Some err)
          | Inr creds \<Rightarrow>
              andthen (call (listen mc bootstrapPort)) (\<lambda>err. case err of
                Some e \<Rightarrow> die (LogFatal (''failed to listen: '' @ Error e))
              | None \<Rightarrow>
                  andthen (call (serve mc)) (\<lambda>err. case err of
                    Some e \<Rightarrow> die (LogFatal (''failed to serve BootstrapAgentServer: '' @ Error e))
                  | None \<Rightarrow> ret None))))))"

text \<open>The server runs in a goroutine of its own; \<open>serving\<close> is whether it was started.\<close>

definition startLifeCycleAgentServer ::
  "('w, 'e) machine_scheme \<Rightarrow> string \<Rightarrow> string \<Rightarrow> (('w, 'z) base_scheme, go_error option \<times> bool) go" where
  "startLifeCycleAgentServer mc serverCert serverKey =
     andthen (fetch_user_data mc) (\<lambda>r.
     (let userData = (case r of Inl _ \<Rightarrow> None | Inr u \<Rightarrow> Some u) in
      andthen (deref userData) (\<lambda>u.
      case loadLifeCycleServerCredentials mc serverCert serverKey (CACertificate u) of
        Inl err \<Rightarrow> ret (Some err, False)
      | Inr creds \<Rightarrow>
          andthen (call (listen mc lifeCyclePort)) (\<lambda>err. case err of
            Some e \<Rightarrow> die (LogFatal (''failed to listen: '' @ Error e))
          | None \<Rightarrow> ret (None, True)))))"

definition agent_main :: "('w, 'e) machine_scheme \<Rightarrow> (('w, 'z) base_scheme, unit) go" where
  "agent_main mc = andthen (startBootstrapAgentServer mc) (\<lambda>_. ret ())"

section \<open>The services\<close>

definition GetAgentIdentity ::
  "('w, 'e) machine_scheme \<Rightarrow> (('w, 'z) base_scheme, go_error + string) go" where
  "GetAgentIdentity mc = call (metadata mc ''dynamic/instance-identity/document'')"

text \<open>The answer has no content, and no error; the second part of the pair is \<open>serving\<close>.\<close>

definition LaunchAuthenticatedEndpoint ::
  "('w, 'e) machine_scheme \<Rightarrow> string \<Rightarrow> string \<Rightarrow> (('w, 'z) base_scheme, go_error option \<times> bool) go" where
  "LaunchAuthenticatedEndpoint mc chain key =
     andthen (startLifeCycleAgentServer mc chain key) (\<lambda>(_, serving). ret (None, serving))"

definition bootstrap_LaunchApplication ::
  "('w, 'e) machine_scheme \<Rightarrow> pod option \<Rightarrow> (('w, 'z) base_scheme, go_error option) go" where
  "bootstrap_LaunchApplication mc p = andthen (deref p) (createFile mc)"

definition bootstrap_TerminateApplication :: "('s, go_error option) go" where
  "bootstrap_TerminateApplication = ret None"

definition GetApplicationHealth :: "('s, go_error + pod_status) go" where
  "GetApplicationHealth = ret (Inr (empty_status\<lparr>StatusMessage := ''active''\<rparr>))"

section \<open>An agent and the provider that launched it\<close>

lemma fetch_user_data_run:
  "metadata mc ''user-data'' (world s) = (Inr raw, w) \<Longrightarrow>
    fetch_user_data mc s = (s\<lparr>world := w\<rparr>, Ret (Inr (getUserData raw)))"
  by (simp add: fetch_user_data_def andthen_run call_run ret_run)

text \<open>
  C37: the example agent cannot start from user data the provider generated of ASCII texts without
  backslashes (others need not arrive at all, see \<open>user_data_corrupted\<close>): that data never holds a
  certificate, a pool takes no certificate from an empty text, and so \<open>startBootstrapAgentServer\<close> returns an
  error before it listens, which \<open>main\<close> drops: the process is over after it has read the user data and made
  its own certificate, with nothing listened on and nothing served.
\<close>

theorem bootstrap_agent_never_serves:
  fixes s :: "('w, 'z) base_scheme" and a :: "('v, 'y) base_scheme"
  assumes "config s = Some cfg" and "sdk_loads sdk cfg (world s) w1"
    and "PresignGetObject_op sdk (http_settings cfg) (bucket, key) w1 = (Inr url, w2)"
    and "ascii_user_data \<lparr>VmInit = vm, UserBootstrapAgent = agent, PresignedURL = url\<rparr>"
    and "no_backslash \<lparr>VmInit = vm, UserBootstrapAgent = agent, PresignedURL = url\<rparr>"
    and "GenerateVKVMUserData sdk bucket key vm agent s = (t, Ret (Inr u))"
    and "metadata mc ''user-data'' (world a) = (Inr (served u), v1)"
    and "self_signed_cert mc v1 = (Inr (cert, certKey), v2)" and "\<not> append_certs mc []"
  shows "startBootstrapAgentServer mc a =
      (a\<lparr>world := v2\<rparr>, Ret (Some (ErrorString ''failed to add CA's certificate for BootstrapServer ''))) \<and>
    agent_main mc a = (a\<lparr>world := v2\<rparr>, Ret ())"
proof -
  have "CACertificate (getUserData (served u)) = []"
    using user_data_read_back [OF assms(1-5)] assms(6) by auto
  then have "startBootstrapAgentServer mc a =
      (a\<lparr>world := v2\<rparr>, Ret (Some (ErrorString ''failed to add CA's certificate for BootstrapServer '')))"
    using assms(8,9) fetch_user_data_run [of mc a, OF assms(7)]
    by (simp add: startBootstrapAgentServer_def andthen_run createSelfSignedCert_def call_run ret_run Let_def
        deref_def loadBootstrapServerCredentials_def)
  then show ?thesis by (simp add: agent_main_def andthen_run ret_run)
qed

text \<open>
  The endpoint a client of a serving agent asks for: when the certificate and key of the request do not
  make a pair, no server is started and the answer still reports success.
\<close>

theorem LaunchAuthenticatedEndpoint_hides_error:
  fixes a :: "('v, 'y) base_scheme"
  assumes "metadata mc ''user-data'' (world a) = (Inr raw, v1)"
    and "append_certs mc (CACertificate (getUserData raw))" and "X509KeyPair mc chain pkey = Some err"
  shows "LaunchAuthenticatedEndpoint mc chain pkey a = (a\<lparr>world := v1\<rparr>, Ret (None, False))"
  using assms(2,3) fetch_user_data_run [of mc a, OF assms(1)]
  by (simp add: LaunchAuthenticatedEndpoint_def andthen_run ret_run Let_def deref_def
      startLifeCycleAgentServer_def loadLifeCycleServerCredentials_def)

text \<open>
  An instance whose metadata service cannot be read kills the agent: the error is logged, and the missing
  user data is dereferenced for its certificate.
\<close>

theorem bootstrap_agent_without_metadata:
  fixes a :: "('v, 'y) base_scheme"
  assumes "metadata mc ''user-data'' (world a) = (Inl err, v1)"
    and "self_signed_cert mc v1 = (Inr (cert, certKey), v2)"
  shows "agent_main mc a = (a\<lparr>world := v2\<rparr>, Crash NilDeref)"
  using assms
  by (simp add: agent_main_def startBootstrapAgentServer_def fetch_user_data_def andthen_run call_run ret_run
      Let_def createSelfSignedCert_def deref_def die_run)

section \<open>A concrete machine\<close>

definition plain_machine :: "(go_error + string) \<Rightarrow> unit machine" where
  "plain_machine data = \<lparr>metadata = (\<lambda>_ w. (data, w)), self_signed_cert = (\<lambda>w. (Inr (''cert'', ''key''), w)),
     append_certs = (\<lambda>pem. pem \<noteq> []), X509KeyPair = (\<lambda>_ _. None), listen = (\<lambda>_ w. (None, w)),
     serve = (\<lambda>w. (None, w)), write_file = (\<lambda>_ _ w. (None, w)), marshal_spec = (\<lambda>_. ''{}'')\<rparr>"

theorem bootstrap_agent_never_serves_witness:
  "\<exists>u. GenerateVKVMUserData cloud_sdk ''b'' ''k'' ''{}'' ''{}'' (sample_kube empty_cloud) =
      (sample_kube empty_cloud, Ret (Inr u)) \<and>
    snd (startBootstrapAgentServer (plain_machine (Inr (served u))) (sample_kube ())) =
      Ret (Some (ErrorString ''failed to add CA's certificate for BootstrapServer '')) \<and>
    snd (agent_main (plain_machine (Inr (served u))) (sample_kube ())) = Ret ()"
proof -
  let ?d = "\<lparr>VmInit = ''{}'', UserBootstrapAgent = ''{}'', PresignedURL = ''https://b/k''\<rparr>"
  have f: "config (sample_kube empty_cloud) = Some sample_config"
    "sdk_loads cloud_sdk sample_config (world (sample_kube empty_cloud)) empty_cloud"
    "PresignGetObject_op cloud_sdk (http_settings sample_config) (''b'', ''k'') empty_cloud =
      (Inr ''https://b/k'', empty_cloud)" "ascii_user_data ?d" "no_backslash ?d"
    by (simp_all add: sample_kube_def ascii_user_data_def ascii_def no_backslash_def backslash_def)
  obtain u where u: "GenerateVKVMUserData cloud_sdk ''b'' ''k'' ''{}'' ''{}'' (sample_kube empty_cloud) =
      (sample_kube empty_cloud, Ret (Inr u))"
    using user_data_read_back [OF f] by (auto simp: sample_kube_def)
  from bootstrap_agent_never_serves [OF f u, of "plain_machine (Inr (served u))" "sample_kube ()" "()"
      "''cert''" "''key''" "()"] u
  show ?thesis by (auto simp: plain_machine_def)
qed

theorem LaunchAuthenticatedEndpoint_hides_error_witness:
  "snd (LaunchAuthenticatedEndpoint ((plain_machine (Inr []))\<lparr>append_certs := (\<lambda>_. True),
      X509KeyPair := (\<lambda>_ _. Some (ErrorString ''tls: private key does not match public key''))\<rparr>)
      ''chain'' ''key'' (sample_kube ())) = Ret (None, False)"
  using LaunchAuthenticatedEndpoint_hides_error [of "(plain_machine (Inr []))\<lparr>append_certs := (\<lambda>_. True),
      X509KeyPair := (\<lambda>_ _. Some (ErrorString ''tls: private key does not match public key''))\<rparr>"
      "sample_kube ()" "[]" "()" "''chain''" "''key''" "ErrorString ''tls: private key does not match public key''"]
  by (simp add: plain_machine_def)

theorem bootstrap_agent_without_metadata_witness:
  "snd (agent_main (plain_machine (Inl (ErrorString ''exit status 7''))) (sample_kube ())) = Crash NilDeref"
  using bootstrap_agent_without_metadata [of "plain_machine (Inl (ErrorString ''exit status 7''))"
      "sample_kube ()" "ErrorString ''exit status 7''" "()" "''cert''" "''key''" "()"]
  by (simp add: plain_machine_def)

end
