(* ===== verification/Provider_Invariant.thy ===== *)
theory Provider_Invariant
  imports Command Health_Loops
begin

text \<open>
  An invariant of the provider over its whole life: from the start that restores the cache, through any
  sequence of Virtual Kubelet's calls, of turns of the monitors' goroutines and of handled check results.
  The references in the cache stay valid: every entry has its pod, under the pod's own key, and a complete
  pod monitor, so that the queries always return.
\<close>

section \<open>The invariant\<close>

text \<open>No entry or pod monitor lies at a reference that is still to be handed out.\<close>

definition fresh_ok :: "('w, 'z) prov_scheme \<Rightarrow> bool" where
  "fresh_ok s \<longleftrightarrow> (\<forall>r\<ge>fresh_ref s. metapods_at s r = None \<and> podmons_at s r = None)"

definition entry_ok :: "('w, 'z) prov_scheme \<Rightarrow> string \<Rightarrow> nat \<Rightarrow> bool" where
  "entry_ok s key mp \<longleftrightarrow> (\<exists>m p pm pmon. metapods_at s mp = Some m \<and> pods_at s (mp_pod m) = Some p \<and>
     pod_key p = key \<and> mp_monitor m = Some pm \<and> podmon_complete s pm pmon)"

definition cache_ok :: "('w, 'z) prov_scheme \<Rightarrow> bool" where
  "cache_ok s \<longleftrightarrow> fresh_ok s \<and> cache_good s \<and>
     (\<forall>key mp. cache_view s key = Some mp \<longrightarrow> entry_ok s key mp)"

text \<open>
  How the heaps evolve: what exists stays, a pod keeps its name and a pod monitor everything but its cancel
  function.
\<close>

definition extends :: "('w, 'z) prov_scheme \<Rightarrow> ('w, 'z) prov_scheme \<Rightarrow> bool" where
  "extends s t \<longleftrightarrow>
     (\<forall>r n. pod_names (pods_at s) r = Some n \<longrightarrow> pod_names (pods_at t) r = Some n) \<and>
     (\<forall>r. monitors_at s r \<noteq> None \<longrightarrow> monitors_at t r \<noteq> None) \<and>
     (\<forall>r. handlers_at s r \<noteq> None \<longrightarrow> handlers_at t r \<noteq> None) \<and>
     (\<forall>r pm. podmons_at s r = Some pm \<longrightarrow> (\<exists>c. podmons_at t r = Some (pm\<lparr>pm_cancel := c\<rparr>)))"

lemma same_cancel [simp]: "\<exists>c. pm = pm\<lparr>pm_cancel := c\<rparr>"
  by (rule exI [of _ "pm_cancel pm"]) simp

lemma extends_refl [simp]: "extends s s"
  by (simp add: extends_def)

lemma podmon_complete_extends:
  assumes "podmon_complete s pm pmon" and "extends s t"
  shows "\<exists>pmon'. podmon_complete t pm pmon'"
proof -
  have "podmons_at s pm = Some pmon" using assms(1) by (simp add: podmon_complete_def)
  then obtain c where "podmons_at t pm = Some (pmon\<lparr>pm_cancel := c\<rparr>)"
    using assms(2) unfolding extends_def by blast
  then have "podmon_complete t pm (pmon\<lparr>pm_cancel := c\<rparr>)"
    using assms unfolding extends_def podmon_complete_def by auto
  then show ?thesis ..
qed

lemma entry_ok_extends:
  assumes "entry_ok s key mp" and "extends s t" and "metapods_at t mp = metapods_at s mp"
  shows "entry_ok t key mp"
proof -
  obtain m p pm pmon where e: "metapods_at s mp = Some m" "pods_at s (mp_pod m) = Some p" "pod_key p = key"
    "mp_monitor m = Some pm" "podmon_complete s pm pmon"
    using assms(1) by (auto simp: entry_ok_def)
  have "pod_names (pods_at t) (mp_pod m) = Some (Namespace p, PodName p)"
    using assms(2) e(2) by (simp add: extends_def pod_names_def)
  then obtain q where "pods_at t (mp_pod m) = Some q" "pod_key q = key"
    using e(3) by (auto simp: pod_key_def elim: pod_names_SomeE)
  then show ?thesis
    using e assms(3) podmon_complete_extends [OF e(5) assms(2)] unfolding entry_ok_def by auto
qed

lemma cache_ok_extends:
  assumes "cache_ok s" and "extends s t" and "metapods_at t = metapods_at s" and "pods t = pods s"
    and "fresh_ok t"
  shows "cache_ok t"
  using assms entry_ok_extends [OF _ assms(2)]
  by (auto simp: cache_ok_def cache_good_def cache_view_def)

section \<open>Operations that keep it\<close>

named_theorems ok_intro

lemma framed_ok: "framed m \<Longrightarrow> keeps cache_ok m"
proof (rule keepsI)
  fix s :: "('a, 'b) prov_scheme"
  assume m: "framed m" and ok: "cache_ok s"
  have fr: "frame (fst (m s)) = frame s" using framedD [OF m, of s "fst (m s)" "snd (m s)"] by simp
  show "cache_ok (fst (m s))"
    using ok frame_fields [OF fr] by (intro cache_ok_extends [OF ok]) (auto simp: extends_def cache_ok_def fresh_ok_def)
qed

lemma ok_modify:
  "(\<And>s. cache_ok s \<Longrightarrow> extends s (f s)) \<Longrightarrow> (\<And>s. metapods_at (f s) = metapods_at s) \<Longrightarrow>
   (\<And>s. pods (f s) = pods s) \<Longrightarrow> (\<And>s. fresh_ok s \<Longrightarrow> fresh_ok (f s)) \<Longrightarrow> keeps cache_ok (modify f)"
  by (rule keeps_modify, rule cache_ok_extends) (assumption | simp add: cache_ok_def)+

lemma extends_podmons:
  "podmons_at t = podmons_at s \<Longrightarrow> pods_at t = pods_at s \<Longrightarrow>
   (\<And>r. monitors_at s r \<noteq> None \<Longrightarrow> monitors_at t r \<noteq> None) \<Longrightarrow>
   (\<And>r. handlers_at s r \<noteq> None \<Longrightarrow> handlers_at t r \<noteq> None) \<Longrightarrow> extends s t"
  by (simp add: extends_def)

lemma ok_heap [ok_intro]:
  "keeps cache_ok (store_monitor r mon)" "keeps cache_ok (store_handler r h)"
  "keeps cache_ok (modify (\<lambda>s. s\<lparr>fresh_ref := Suc (fresh_ref s)\<rparr>))"
  "keeps cache_ok (modify (\<lambda>s. s\<lparr>cancelled_ctxs := ctx # cancelled_ctxs s\<rparr>))"
  "keeps cache_ok (modify (\<lambda>s. s\<lparr>podNotifier := f\<rparr>))"
  "keeps cache_ok (modify (\<lambda>s. s\<lparr>utilsNotifier := f\<rparr>))"
  "keeps cache_ok (modify (\<lambda>s. s\<lparr>notified := n s\<rparr>))"
  unfolding store_monitor_def store_handler_def
  by (rule ok_modify; auto simp: fresh_ok_def intro: extends_podmons)+

lemma ok_Delete [ok_intro]: "keeps cache_ok (Delete key)"
proof (rule keepsI)
  fix s :: "('a, 'b) prov_scheme"
  assume ok: "cache_ok s"
  then obtain m where m: "pods s = Some m" "go_map_ok m" "cache_view s = lookup m"
    by (auto simp: cache_ok_def elim: cache_goodE)
  let ?t = "s\<lparr>pods := Some (delete_key key m)\<rparr>"
  have "entry_ok ?t k mp" if "lookup (delete_key key m) k = Some mp" for k mp
  proof -
    have "cache_view s k = Some mp" using that m by (simp add: lookup_maps(2) [OF m(2)] split: if_splits)
    then have "entry_ok s k mp" using ok by (simp add: cache_ok_def)
    then show ?thesis by (simp add: entry_ok_def podmon_complete_def)
  qed
  then show "cache_ok (fst (Delete key s))"
    using ok m gm.ok_del [OF m(2)]
    by (simp add: Delete_run cache_ok_def fresh_ok_def cache_good_def cache_view_def)
qed

lemma ok_new_ref [ok_intro]: "keeps cache_ok new_ref"
  by (rule keepsI, simp add: new_ref_run, rule cache_ok_extends)
    (auto simp: cache_ok_def fresh_ok_def intro: extends_podmons)

lemma ok_ops [ok_intro]:
  "keeps cache_ok (load_monitor r)" "keeps cache_ok (load_handler r)"
  "keeps cache_ok (load_podmon r)" "keeps cache_ok (load_metapod p)" "keeps cache_ok (SetNotifier f)"
  "keeps cache_ok GetNotifier" "keeps cache_ok the_cache" "keeps cache_ok (Get key)"
  "keeps cache_ok (call_notifier f r)" "keeps cache_ok (ctx_done ctx)"
  unfolding load_monitor_def load_handler_def load_podmon_def load_metapod_def SetNotifier_def
    GetNotifier_def the_cache_def Get_def call_notifier_def ctx_done_def
  by (rule ok_intro keeps_intro framed_ok framed_effects)+

text \<open>Starting and stopping a pod monitor.\<close>

lemma ok_set_cancel:
  assumes "\<And>pm. keeps cache_ok (g pm)"
  shows "keeps cache_ok (andthen (load_podmon r) (\<lambda>pm. andthen (store_podmon r (pm\<lparr>pm_cancel := c\<rparr>)) (\<lambda>_. g pm)))"
proof (rule keepsI)
  fix s :: "('a, 'b) prov_scheme"
  assume ok: "cache_ok s"
  show "cache_ok (fst (andthen (load_podmon r) (\<lambda>pm. andthen (store_podmon r (pm\<lparr>pm_cancel := c\<rparr>)) (\<lambda>_. g pm)) s))"
  proof (cases "podmons_at s r")
    case None
    then show ?thesis using ok by (simp add: load_podmon_def andthen_run gets_run deref_def die_run)
  next
    case (Some pm)
    let ?t = "s\<lparr>podmons_at := (podmons_at s)(r \<mapsto> pm\<lparr>pm_cancel := c\<rparr>)\<rparr>"
    have "extends s ?t" using Some by (auto simp: extends_def)
    moreover have "fresh_ok ?t" using ok Some by (auto simp: cache_ok_def fresh_ok_def)
    ultimately have "cache_ok ?t" by (intro cache_ok_extends [OF ok]) simp_all
    then have "cache_ok (fst (g pm ?t))" by (rule keepsD [OF assms])
    then show ?thesis using Some by (simp add: andthen_run load_podmon_run store_runs)
  qed
qed

lemma ok_Start [ok_intro]: "keeps cache_ok (Start pm)"
  unfolding Start_def receive_def Run_def
  by (rule ok_set_cancel ok_intro keeps_intro framed_ok framed_effects)+

lemma ok_Stop [ok_intro]: "keeps cache_ok (Stop pm)"
  unfolding Stop_def stop_receiver_def stop_monitor_def
  by (rule ok_intro keeps_intro framed_ok framed_effects)+

section \<open>The calls of Virtual Kubelet\<close>

lemma ok_allocated:
  assumes "cache_ok s" and "podmons_at t = (podmons_at s)(fresh_ref s \<mapsto> pmon)" and "pods_at t = pods_at s"
    and "\<And>r. monitors_at s r \<noteq> None \<Longrightarrow> monitors_at t r \<noteq> None" and "handlers_at t = handlers_at s"
  shows "extends s t"
proof -
  have "podmons_at s (fresh_ref s) = None" using assms(1) by (simp add: cache_ok_def fresh_ok_def)
  then show ?thesis using assms by (auto simp: extends_def)
qed

text \<open>The state in which \<open>CreatePod\<close> asks for compute is a good one.\<close>

lemma ok_with_metapod:
  assumes "cache_ok s" and "pods_at s r = Some p" and "handlers_at s h = Some ch" and "pods s = Some m"
  shows "cache_ok (with_metapod cfg r (pod_key p) h (in_chan ch) m s)"
proof -
  let ?mp = "Suc (Suc (Suc (fresh_ref s)))"
  let ?t = "with_metapod cfg r (pod_key p) h (in_chan ch) m s"
  have m: "go_map_ok m" "cache_view s = lookup m"
    using assms(1,4) by (auto simp: cache_ok_def cache_good_def cache_view_def)
  have ext: "extends s ?t"
    by (rule ok_allocated [OF assms(1), where pmon = "new_podmon cfg r h (Suc (fresh_ref s))"])
      (simp_all add: with_metapod_def with_podmon_def Let_def)
  obtain pmon where pmon: "podmon_complete ?t (fresh_ref s) pmon"
    using with_metapod_monitored [OF assms(3)] unfolding monitored_def by blast
  have "metapods_at ?t ?mp = Some \<lparr>mp_pod = r, mp_monitor = Some (fresh_ref s), mp_notifier = podNotifier s\<rparr>"
    by (simp add: with_metapod_def Let_def)
  then have new: "entry_ok ?t (pod_key p) ?mp"
    using assms(2) pmon unfolding entry_ok_def by auto
  have "entry_ok ?t key mp" if "key \<noteq> pod_key p" "lookup m key = Some mp" for key mp
  proof (rule entry_ok_extends [OF _ ext])
    show ok: "entry_ok s key mp" using assms(1) that(2) m(2) by (simp add: cache_ok_def)
    then obtain e where "metapods_at s mp = Some e" unfolding entry_ok_def by blast
    then have "mp < fresh_ref s"
      using assms(1) unfolding cache_ok_def fresh_ok_def by (metis not_le option.distinct(1))
    then show "metapods_at ?t mp = metapods_at s mp"
      by (simp add: with_metapod_def with_podmon_def Let_def)
  qed
  moreover have "fresh_ok ?t"
    using assms(1) by (simp add: cache_ok_def fresh_ok_def with_metapod_def with_podmon_def Let_def)
  ultimately show ?thesis
    using new gm.ok_put [OF m(1)] lookup_maps(1) [OF m(1)]
    by (simp add: cache_ok_def cache_good_def cache_view_def)
qed

lemma ok_launch_and_watch [ok_intro]: "keeps cache_ok (launch_and_watch pf prov r pm iid ip)"
  unfolding create_parts launchApplication_def clean_up_def
  by (rule ok_intro keeps_intro framed_ok framed_intro)+

lemma CreatePod_early_crash:
  assumes "pods_at s r = Some p" and "NewPodMonitor r (defaultHandler prov) s = (t, Crash c)"
  shows "CreatePod pf prov r s = (t, Crash c)"
  using assms by (simp add: CreatePod_def andthen_load_pod andthen_run [of "NewPodMonitor _ _"])

text \<open>Without a handler, a pod monitor is left behind that nothing refers to.\<close>

lemma NewPodMonitor_without_handler:
  assumes "config s = Some cfg" and "handlers_at s h = None"
  shows "NewPodMonitor r h s = (s\<lparr>fresh_ref := Suc (fresh_ref s),
    podmons_at := (podmons_at s)(fresh_ref s \<mapsto> \<lparr>Monitors = [], pm_config = HealthConf cfg, pm_pod = r,
      pm_handler = h, pm_cancel = None\<rparr>)\<rparr>, Crash NilDeref)"
  using assms by (simp add: NewPodMonitor_def createMonitors_def go_simps heap_runs setPodHandler_def load_handler_def)

lemma ok_CreatePod [ok_intro]: "keeps cache_ok (CreatePod pf prov r)"
proof (rule keepsI)
  fix s :: "('a, 'b) prov_scheme"
  assume ok: "cache_ok s"
  then obtain m where m: "pods s = Some m" by (auto simp: cache_ok_def elim: cache_goodE)
  consider (no_pod) "pods_at s r = None"
    | (no_config) p where "pods_at s r = Some p" "config s = None"
    | (no_handler) p cfg where "pods_at s r = Some p" "config s = Some cfg" "handlers_at s (defaultHandler prov) = None"
    | (runs) p cfg ch where "config s = Some cfg" "pods_at s r = Some p" "handlers_at s (defaultHandler prov) = Some ch"
    by blast
  then show "cache_ok (fst (CreatePod pf prov r s))"
  proof cases
    case no_pod
    then show ?thesis
      using ok by (simp add: CreatePod_def andthen_run [of "load_pod _"] load_pod_def andthen_run gets_run deref_def die_run)
  next
    case no_config
    then have "NewPodMonitor r (defaultHandler prov) s = (s, Crash NilDeref)"
      by (simp add: NewPodMonitor_def andthen_run Config_nil)
    then show ?thesis using ok by (simp add: CreatePod_early_crash [OF no_config(1)])
  next
    case no_handler
    note new = NewPodMonitor_without_handler [OF no_handler(2,3), of r]
    have "cache_ok (fst (NewPodMonitor r (defaultHandler prov) s))"
      unfolding new fst_conv
      by (rule cache_ok_extends [OF ok ok_allocated [OF ok]]) (use ok in \<open>auto simp: cache_ok_def fresh_ok_def\<close>)
    then show ?thesis by (simp add: new CreatePod_early_crash [OF no_handler(1) new])
  next
    case runs
    have "keeps cache_ok (andthen (GetCompute pf prov r) (\<lambda>compute. case compute of
        Inl err \<Rightarrow> andthen (Delete (pod_key p)) (\<lambda>_. ret (Some err))
      | Inr (iid, ip) \<Rightarrow> launch_and_watch pf prov r (fresh_ref s) iid ip))"
      by (rule ok_intro keeps_intro framed_ok framed_intro)+
    then show ?thesis
      unfolding CreatePod_start [OF runs m] by (rule keepsD) (rule ok_with_metapod [OF ok runs(2,3) m])
  qed
qed

lemma ok_UpdatePod [ok_intro]: "keeps cache_ok (UpdatePod r)"
proof (rule keepsI)
  fix s :: "('a, 'b) prov_scheme"
  assume ok: "cache_ok s"
  then obtain m where m: "pods s = Some m" "go_map_ok m" "cache_view s = lookup m"
    by (auto simp: cache_ok_def elim: cache_goodE)
  show "cache_ok (fst (UpdatePod r s))"
  proof (cases "pods_at s r")
    case None
    then show ?thesis using ok by (simp add: UpdatePod_def andthen_run load_pod_def gets_run deref_def die_run)
  next
    case (Some p)
    note pod = this
    show ?thesis
    proof (cases "lookup m (pod_key p)")
      case None
      then have "Get (pod_key p) s = (s, Ret None)" using m(1) by (simp add: cache_runs)
      then show ?thesis
        using ok by (simp add: UpdatePod_def andthen_load_pod [OF pod] pod_key_def [symmetric] cache_UpdatePod_def
            andthen_run [of "Get _"] ret_run)
    next
      case (Some mp)
      have entries: "entry_ok s key mp'" if "lookup m key = Some mp'" for key mp'
        using ok that m(3) by (simp add: cache_ok_def)
      obtain me pm pmon where me: "metapods_at s mp = Some me" "mp_monitor me = Some pm" "podmon_complete s pm pmon"
        using entries [OF Some] unfolding entry_ok_def by blast
      let ?t = "s\<lparr>metapods_at := (metapods_at s)(mp \<mapsto> me\<lparr>mp_pod := r\<rparr>), pods := Some (assign (pod_key p) mp m)\<rparr>"
      have "entry_ok ?t (pod_key p) mp"
        using pod me unfolding entry_ok_def podmon_complete_def by auto
      moreover have "entry_ok ?t key mp'" if "key \<noteq> pod_key p" "lookup m key = Some mp'" for key mp'
      proof (rule entry_ok_extends [OF entries [OF that(2)]])
        show "extends s ?t" by (rule extends_podmons) simp_all
        have "mp' \<noteq> mp" using entries [OF that(2)] entries [OF Some] that(1) unfolding entry_ok_def by auto
        then show "metapods_at ?t mp' = metapods_at s mp'" by simp
      qed
      moreover have "fresh_ok ?t" using ok me(1) by (auto simp: cache_ok_def fresh_ok_def)
      ultimately have "cache_ok ?t"
        using gm.ok_put [OF m(2)] lookup_maps(1) [OF m(2)]
        by (simp add: cache_ok_def cache_good_def cache_view_def)
      then show ?thesis using UpdatePod_run [OF pod m(1) Some me(1)] by simp
    qed
  qed
qed

lemma ok_notifyPodDelete [ok_intro]: "keeps cache_ok (notifyPodDelete r)"
  unfolding notifyPodDelete_def by (rule ok_intro keeps_intro framed_ok framed_intro)+

lemma ok_stopPodMonitor [ok_intro]: "keeps cache_ok (stopPodMonitor mp)"
  unfolding stopPodMonitor_def by (rule ok_intro keeps_intro framed_ok framed_intro)+

lemma ok_DeletePod [ok_intro]: "keeps cache_ok (DeletePod pf r)"
  unfolding DeletePod_def Let_def by (rule ok_intro keeps_intro framed_ok framed_intro)+

lemma ok_other_calls [ok_intro]:
  "keeps cache_ok (recreatePod pf prov r)" "keeps cache_ok (handlePodStatusUpdate r st)"
  "keeps cache_ok (NotifyPods f)" "keeps cache_ok (GetPod ns n)" "keeps cache_ok (GetPodStatus ns n)"
  "keeps cache_ok GetPods" "keeps cache_ok (status_tick prev)"
  unfolding recreatePod_def handlePodStatusUpdate_def NotifyPods_def GetPod_def GetPodStatus_def
    GetPods_def GetPodList_def status_tick_def GetList_def monitor_states_def Let_def
  by (rule ok_intro keeps_intro framed_ok framed_intro)+

section \<open>The goroutines\<close>

lemma ok_NewCheckResult [ok_intro]: "keeps cache_ok (NewCheckResult r failed message data)"
  unfolding NewCheckResult_def incrementFailures_def resetFailures_def
  by (rule ok_intro keeps_intro framed_ok framed_intro)+

lemma ok_cases [ok_intro]:
  "keeps I a \<Longrightarrow> keeps I b \<Longrightarrow> keeps I c \<Longrightarrow>
    keeps I (case st of MonitoringStateUnknown \<Rightarrow> a | MonitoringStateHealthy \<Rightarrow> b | MonitoringStateUnhealthy \<Rightarrow> c)"
  "keeps I a \<Longrightarrow> keeps I b \<Longrightarrow> keeps I c \<Longrightarrow>
    keeps I (case sub of SubjectUnknown \<Rightarrow> a | SubjectVkvma \<Rightarrow> b | SubjectApp \<Rightarrow> c)"
  "keeps I a \<Longrightarrow> (\<And>x. keeps I (f x)) \<Longrightarrow> keeps I b \<Longrightarrow>
    keeps I (case d of NoData \<Rightarrow> a | PodStatusData x \<Rightarrow> f x | HealthResponseData \<Rightarrow> b)"
  by (auto split: MonitoringState.split Subject.split check_data.split)

lemma ok_handleCheckResult [ok_intro]: "keeps cache_ok (handleCheckResult result)"
  unfolding handleCheckResult_def getState_def
  by (rule ok_intro keeps_intro framed_ok framed_intro)+

lemma ok_stop_and_exit [ok_intro]: "keeps cache_ok (stop_and_exit r)"
  unfolding stop_and_exit_def stop_monitor_def by (rule ok_intro keeps_intro framed_ok framed_intro)+

lemma ok_turn:
  assumes "\<And>r. keeps cache_ok (check r)"
  shows "keeps cache_ok (turn check r ctx i pc)"
proof (cases pc)
  case (AtTop stream)
  then show ?thesis
    by (simp only: turn_simps watch_top_def) (rule ok_intro keeps_intro framed_ok framed_intro)+
next
  case (AtSelect stream)
  then show ?thesis
    by (cases stream; simp only: turn_simps watch_select_def stream.case)
      (rule ok_intro keeps_intro framed_ok framed_intro)+
next
  case (AtRecv k)
  then show ?thesis
    by (cases i; simp only: turn_simps watch_recv_def input.case)
      (rule ok_intro keeps_intro framed_ok framed_intro)+
qed (simp only: turn_simps check_top_def; (rule assms ok_intro keeps_intro framed_ok framed_intro)+)+

section \<open>The start\<close>

lemma keeps_Ret: "keeps I m \<Longrightarrow> m s = (t, x) \<Longrightarrow> I s \<Longrightarrow> I t"
  using keepsD [of I m s] by simp

text \<open>Making the provider and restoring the cache: the references handed out stay fresh.\<close>

named_theorems fresh_intro

lemma framed_fresh: "framed m \<Longrightarrow> keeps fresh_ok m"
proof (rule keepsI)
  fix s :: "('a, 'b) prov_scheme"
  assume m: "framed m" and "fresh_ok s"
  moreover have "frame (fst (m s)) = frame s" using framedD [OF m, of s "fst (m s)" "snd (m s)"] by simp
  ultimately show "fresh_ok (fst (m s))" using frame_fields by (metis fresh_ok_def)
qed

lemma framed_fresh_Ret: "framed m \<Longrightarrow> m s = (t, x) \<Longrightarrow> fresh_ok s \<Longrightarrow> fresh_ok t"
  using keeps_Ret [OF framed_fresh] by fast

lemma fresh_ops [fresh_intro]:
  "keeps fresh_ok new_ref" "keeps fresh_ok (store_handler r h)" "keeps fresh_ok (set_config cfg)"
  "keeps fresh_ok (modify (\<lambda>s. s\<lparr>pods := c, podNotifier := f\<rparr>))"
  by (auto simp: keeps_def new_ref_run store_runs set_config_run modify_run fresh_ok_def)

lemma framed_pool_calls [framed_intro]:
  "framed (createWarmEC2 sdk wpm wpc)" "framed pop_excess" "framed (checkEC2TagsForState wpm no_input)"
proof -
  show "framed (createWarmEC2 sdk wpm wpc)"
    unfolding createWarmEC2_def populateEC2Tags_def CreateWarmEC2_def EC2RunInstancesUtil_def Let_def split_beta
    by (rule framed_puts framed_intro)+
  show "framed pop_excess" unfolding pop_excess_def pop_def popKey_def by (rule framed_intro)+
  show "framed (checkEC2TagsForState wpm no_input)"
    using framed_refresh unfolding RefreshWarmPoolFromEC2_def by this
qed

lemma framed_repeat [framed_intro]: "framed m \<Longrightarrow> framed (repeat_n n m)"
  by (auto simp: framed_def intro!: keeps_repeat_n)

lemma framed_pool [framed_intro]:
  "framed (NewWarmPool sdk)" "framed (fillAndMaintain sdk wpm)" "framed (depth_tick sdk wpm)"
  "framed (refresh_tick wpm)" "framed (NewComputeManager sdk)"
proof -
  have pops: "framed (pop_excesses n ids)" for n ids
    by (induction n arbitrary: ids) (simp_all, (rule framed_intro | assumption)+)
  show "framed (NewWarmPool sdk)" unfolding NewWarmPool_def by (rule framed_intro)+
  show "framed (fillAndMaintain sdk wpm)"
    unfolding fillAndMaintain_def InitialWarmPoolCreation_def initial_pool_def by (rule framed_intro)+
  show "framed (depth_tick sdk wpm)"
    unfolding depth_tick_def CheckWarmPoolDepth_def by (rule pops framed_intro)+
  show "framed (refresh_tick wpm)" unfolding refresh_tick_def by (rule framed_intro)+
  show "framed (NewComputeManager sdk)" unfolding NewComputeManager_def by (rule framed_intro)+
qed

lemma framed_node [framed_intro]: "framed (GetOrCreateEniNode pf)"
proof -
  have enis: "framed (last_interface out rs)" for out rs
    by (induction rs arbitrary: out) (simp_all, (rule framed_intro | assumption)+)
  show ?thesis
    unfolding GetOrCreateEniNode_def getOrCreateNodeName_def GetNetworkInterfaceByTagName_def
      CreateNetworkInterface_def client_calls Let_def
    by (rule enis framed_intro)+
qed

lemma fresh_load [fresh_intro]: "keeps fresh_ok (InitConfig rd um loader)"
proof -
  have loads: "keeps fresh_ok (load rd um l)" for l
    by (cases l) (simp_all add: load_file_def load_direct_def, (rule fresh_intro keeps_intro framed_fresh framed_intro)+)
  show ?thesis
    unfolding InitConfig_def by (rule loads fresh_intro keeps_intro framed_fresh framed_intro)+
qed

lemma fresh_NewEc2Provider: "keeps fresh_ok (NewEc2Provider pf args path)"
  unfolding NewEc2Provider_def updateVerbosityLevel_def NewCheckHandler_def
  by (rule fresh_intro keeps_intro framed_fresh framed_intro)+

text \<open>An entry that has its pod, before it has a monitor.\<close>

definition keyed :: "('w, 'z) prov_scheme \<Rightarrow> string \<Rightarrow> nat \<Rightarrow> bool" where
  "keyed s key mp \<longleftrightarrow> (\<exists>m p. metapods_at s mp = Some m \<and> pods_at s (mp_pod m) = Some p \<and> pod_key p = key)"

lemma Populate_keyed:
  assumes "Populate ps m s = (t, Ret m')" and "fresh_ok s" and "go_map_ok m"
    and "\<forall>key mp. lookup m key = Some mp \<longrightarrow>
      keyed s key mp \<and> (\<forall>e. metapods_at s mp = Some e \<longrightarrow> mp_pod e < fresh_ref s)"
  shows "fresh_ok t \<and> go_map_ok m' \<and> (\<forall>key mp. lookup m' key = Some mp \<longrightarrow> keyed t key mp)"
  using assms
proof (induction ps arbitrary: m s)
  case Nil
  then show ?case by (simp add: ret_run)
next
  case (Cons p ps)
  let ?f = "fresh_ref s"
  let ?e = "\<lparr>mp_pod = ?f, mp_monitor = None, mp_notifier = None\<rparr>"
  let ?s = "s\<lparr>pods_at := (pods_at s)(?f \<mapsto> p), fresh_ref := Suc (Suc ?f),
    metapods_at := (metapods_at s)(Suc ?f \<mapsto> ?e)\<rparr>"
  let ?m = "assign (pod_key p) (Suc ?f) m"
  have run: "Populate ps ?m ?s = (t, Ret m')"
    using Cons.prems(1)
    by (simp add: new_pod_def NewMetaPod_def andthen_run new_ref_run store_pod_run store_metapod_run ret_run
        pod_key_def)
  have fresh: "fresh_ok ?s" using Cons.prems(2) by (simp add: fresh_ok_def)
  have "keyed ?s key mp \<and> (\<forall>e. metapods_at ?s mp = Some e \<longrightarrow> mp_pod e < fresh_ref ?s)"
    if "lookup ?m key = Some mp" for key mp
  proof (cases "key = pod_key p")
    case True
    then have "mp = Suc ?f" using that lookup_maps(1) [OF Cons.prems(3)] by simp
    then show ?thesis using True by (simp add: keyed_def)
  next
    case False
    then have "lookup m key = Some mp" using that lookup_maps(1) [OF Cons.prems(3)] by simp
    then have k: "keyed s key mp" "\<forall>e. metapods_at s mp = Some e \<longrightarrow> mp_pod e < ?f"
      using Cons.prems(4) by blast+
    moreover have "metapods_at s (Suc ?f) = None" using Cons.prems(2) by (simp add: fresh_ok_def)
    then have "mp \<noteq> Suc ?f" using k(1) by (auto simp: keyed_def)
    ultimately show ?thesis by (auto simp: keyed_def)
  qed
  then show ?case using Cons.IH [OF run fresh gm.ok_put [OF Cons.prems(3)]] by blast
qed

lemma restart_monitor_Ret:
  assumes "restart_monitor k s = (t, Ret ())"
  obtains cfg mp p where "config s = Some cfg" "metapods_at s k = Some mp" "pods_at s (mp_pod mp) = Some p"
    "t = restarted cfg k mp s"
proof -
  obtain mp where mp: "metapods_at s k = Some mp"
    using assms by (cases "metapods_at s k")
      (auto simp: restart_monitor_def andthen_run load_metapod_def gets_run deref_def die_run)
  obtain p where p: "pods_at s (mp_pod mp) = Some p"
    using assms by (cases "pods_at s (mp_pod mp)")
      (auto simp: restart_monitor_def andthen_run load_metapod_run [OF mp] load_pod_def gets_run deref_def die_run)
  obtain cfg where cfg: "config s = Some cfg"
    using assms by (cases "config s")
      (auto simp: restart_monitor_def andthen_run load_metapod_run [OF mp] load_pod_run [OF p] NewCheckHandler_def
        new_ref_run store_runs ret_run NewPodMonitor_def Config_nil)
  show thesis using restart_monitor_run [OF cfg mp p] assms by (intro that [OF cfg mp p]) simp
qed

text \<open>While the monitors are started, more and more of the entries are complete.\<close>

lemma restart_all_ok:
  assumes "for_each restart_monitor ks s = (t, Ret ())" and "fresh_ok s"
    and "\<forall>key mp. lookup m key = Some mp \<longrightarrow> keyed s key mp \<and> (mp \<in> D \<longrightarrow> entry_ok s key mp)"
  shows "fresh_ok t \<and>
    (\<forall>key mp. lookup m key = Some mp \<longrightarrow> (mp \<in> D \<union> set ks \<longrightarrow> entry_ok t key mp))"
  using assms
proof (induction ks arbitrary: s D)
  case Nil
  then show ?case by (simp add: ret_run)
next
  case (Cons k ks)
  obtain u where u: "restart_monitor k s = (u, Ret ())" and rest: "for_each restart_monitor ks u = (t, Ret ())"
    using Cons.prems(1) by (auto elim: andthen_RetE)
  from u obtain cfg me p where me: "config s = Some cfg" "metapods_at s k = Some me"
    "pods_at s (mp_pod me) = Some p" "u = restarted cfg k me s"
    by (rule restart_monitor_Ret)
  have old: "r < fresh_ref s" if "metapods_at s r \<noteq> None \<or> podmons_at s r \<noteq> None" for r
    using Cons.prems(2) that unfolding fresh_ok_def by (meson not_le)
  have fresh: "fresh_ok u" using Cons.prems(2) old [of k] me(2) by (auto simp: me(4) restarted_def Let_def fresh_ok_def)
  have ext: "extends s u"
    using old by (force simp: extends_def me(4) restarted_def Let_def)
  have "keyed u key mp \<and> (mp \<in> insert k D \<longrightarrow> entry_ok u key mp)" if "lookup m key = Some mp" for key mp
  proof -
    have ky: "keyed s key mp" "mp \<in> D \<Longrightarrow> entry_ok s key mp" using Cons.prems(3) that by blast+
    show ?thesis
    proof (cases "mp = k")
      case True
      have "settled u k (mp_pod me)" unfolding me(4) by (rule settled_restarted)
      then obtain pm pmon f where "metapods_at u k = Some \<lparr>mp_pod = mp_pod me, mp_monitor = Some pm, mp_notifier = f\<rparr>"
        "podmon_complete u pm pmon"
        unfolding settled_def monitored_def by blast
      then show ?thesis using ky(1) me True by (auto simp: keyed_def entry_ok_def)
    next
      case False
      then have "metapods_at u mp = metapods_at s mp" by (simp add: me(4) restarted_def Let_def)
      then show ?thesis using ky entry_ok_extends [OF _ ext, of key mp] False me(4) by (auto simp: keyed_def)
    qed
  qed
  then show ?case using Cons.IH [OF rest fresh, of "insert k D"] by auto
qed

lemma PopulateCache_ok:
  assumes "PopulateCache m s = (t, Ret ())" and "fresh_ok s" and "go_map_ok m"
    and "\<forall>key mp. lookup m key = Some mp \<longrightarrow> keyed s key mp"
  shows "cache_ok t"
proof -
  let ?s = "s\<lparr>choices := tl (choices s)\<rparr>"
  let ?ks = "map snd (range_map (case choices s of [] \<Rightarrow> 0 | c # _ \<Rightarrow> c) m)"
  obtain u where u: "for_each restart_monitor ?ks ?s = (u, Ret ())" "t = u\<lparr>pods := Some m\<rparr>"
    using assms(1) unfolding PopulateCache_def
    by (auto simp: andthen_run [of next_choice] next_choice_run modify_run elim!: andthen_RetE)
  have "fresh_ok ?s" using assms(2) by (simp add: fresh_ok_def)
  moreover have "keyed ?s = keyed s" by (intro ext) (simp add: keyed_def)
  ultimately have "fresh_ok u \<and> (\<forall>key mp. lookup m key = Some mp \<longrightarrow> (mp \<in> {} \<union> set ?ks \<longrightarrow> entry_ok u key mp))"
    using assms(4) by (intro restart_all_ok [OF u(1)]) simp_all
  moreover have "mp \<in> set ?ks" if "lookup m key = Some mp" for key mp
    using that lookup_in_set [OF assms(3)] by force
  moreover have "entry_ok t = entry_ok u" by (intro ext) (simp add: u(2) entry_ok_def podmon_complete_def)
  ultimately show ?thesis
    using assms(3) by (simp add: cache_ok_def u(2) fresh_ok_def cache_good_def cache_view_def)
qed

text \<open>The part of the callback after the Kubernetes client.\<close>

definition restore_pods ::
  "('w, 'e) kube_platform_scheme \<Rightarrow> opts \<Rightarrow> 'w Ec2Provider \<Rightarrow> k8sClient option \<Rightarrow>
   (('w, 'z) prov_scheme, go_error option \<times> opts \<times> 'w Ec2Provider) go" where
  "restore_pods pf opts p k8sClient =
     andthen (k8s_GetPods pf k8sClient (ProviderNodeName p)) (\<lambda>podList. case podList of
       Inl err \<Rightarrow> ret (Some err, opts, p)
     | Inr ps \<Rightarrow>
         andthen (Populate ps NewPodCache) (\<lambda>podCache.
         andthen (PopulateCache podCache) (\<lambda>_.
         andthen (call (ConfigureLogging pf)) (\<lambda>err.
         ret (err, opts\<lparr>NodeName := ProviderNodeName p\<rparr>, p)))))"

lemma pre_run_split:
  "pre_run pf args opts =
     andthen (NewEc2Provider pf args (ProviderConfigPath opts)) (\<lambda>provider. case provider of
       Inl err \<Rightarrow> die (LogFatal (Error err))
     | Inr p \<Rightarrow>
         andthen (NewK8sClient pf (KubeConfigPath opts)) (\<lambda>client.
         restore_pods pf opts p (case client of Inl _ \<Rightarrow> None | Inr c \<Rightarrow> Some c)))"
  by (simp only: pre_run_def restore_pods_def Let_def)

lemma framed_client: "framed (NewK8sClient pf path)" "framed (k8s_GetPods pf k node)"
  unfolding NewK8sClient_def k8s_GetPods_def Let_def by (rule framed_intro)+

lemma restore_pods_ok:
  assumes "restore_pods pf opts p k s = (t, Ret (None, opts', prov))" and "fresh_ok s"
  shows "cache_ok t"
proof -
  obtain s3 ps s4 m s5 s6 err where s3: "k8s_GetPods pf k (ProviderNodeName p) s = (s3, Ret (Inr ps))"
    and s4: "Populate ps NewPodCache s3 = (s4, Ret m)" and s5: "PopulateCache m s4 = (s5, Ret ())"
    and s6: "call (ConfigureLogging pf) s5 = (s6, Ret err)" and t: "t = s6"
    using assms(1) unfolding restore_pods_def
    by (elim andthen_RetE) (auto simp: ret_run split: sum.splits elim!: andthen_RetE)
  have "fresh_ok s3" by (rule framed_fresh_Ret [OF framed_client(2) s3 assms(2)])
  then have "fresh_ok s4 \<and> go_map_ok m \<and> (\<forall>key mp. lookup m key = Some mp \<longrightarrow> keyed s4 key mp)"
    by (intro Populate_keyed [OF s4]) (simp_all add: NewPodCache_def gm.ok_empty gm.look_empty)
  then have "cache_ok s5" by (intro PopulateCache_ok [OF s5]) blast+
  moreover have "keeps cache_ok (call (ConfigureLogging pf))" by (rule framed_ok framed_intro)+
  ultimately show ?thesis using keepsD s6 t by fastforce
qed

lemma pre_run_ok:
  fixes s :: "('w, 'z) prov_scheme"
  assumes "pre_run pf args opts s = (t, Ret (None, opts', prov))" and "fresh_ok s"
  shows "cache_ok t"
proof -
  obtain s1 p where s1: "NewEc2Provider pf args (ProviderConfigPath opts) s = (s1, Ret (Inr p))"
    and r1: "andthen (NewK8sClient pf (KubeConfigPath opts)) (\<lambda>client. restore_pods pf opts p
      (case client of Inl _ \<Rightarrow> None | Inr c \<Rightarrow> Some c)) s1 = (t, Ret (None, opts', prov))"
    using assms(1) unfolding pre_run_split
    by (elim andthen_RetE) (auto simp: die_run split: sum.splits)
  obtain s2 c where s2: "NewK8sClient pf (KubeConfigPath opts) s1 = (s2, Ret c)"
    and r2: "restore_pods pf opts p (case c of Inl _ \<Rightarrow> None | Inr c \<Rightarrow> Some c) s2 = (t, Ret (None, opts', prov))"
    using r1 by (rule andthen_RetE)
  have "fresh_ok s1" using keeps_Ret [OF fresh_NewEc2Provider s1 assms(2)] .
  then have "fresh_ok s2" by (rule framed_fresh_Ret [OF framed_client(1) s2])
  with r2 show ?thesis by (rule restore_pods_ok)
qed

section \<open>The life of a provider\<close>

text \<open>
  What happens to a running provider besides the calls that create, update and delete pods: a new pod object
  of Virtual Kubelet, the other calls, turns of the goroutines (no monitor of the provider has a check
  function), handled check results, ticks of the warm pool (\<open>own_step\<close>), and whatever the outside world, the
  clock and the runtime do.
\<close>

inductive own_step ::
  "('w, 'e) platform_scheme \<Rightarrow> 'w Ec2Provider \<Rightarrow>
   ('w, 'z) prov_scheme \<Rightarrow> ('w, 'z) prov_scheme \<Rightarrow> bool" for pf prov where
  arrives: "pods_at s r = None \<Longrightarrow> own_step pf prov s (s\<lparr>pods_at := (pods_at s)(r \<mapsto> p)\<rparr>)"
| reports: "handlePodStatusUpdate r st s = (t, Ret err) \<Longrightarrow> own_step pf prov s t"
| subscribes: "NotifyPods f s = (t, Ret ()) \<Longrightarrow> own_step pf prov s t"
| lists: "GetPods s = (t, Ret ps) \<Longrightarrow> own_step pf prov s t"
| ticks: "status_tick prev s = (t, Ret now) \<Longrightarrow> own_step pf prov s t"
| handles: "handleCheckResult result s = (t, Ret ()) \<Longrightarrow> own_step pf prov s t"
| pool_ticks: "depth_tick pf (warmPool prov) s = (t, Ret ()) \<Longrightarrow> own_step pf prov s t"
| pool_refreshes: "refresh_tick (warmPool prov) s = (t, Ret ()) \<Longrightarrow> own_step pf prov s t"
| turns: "turn (\<lambda>_. die NilFuncCall) r ctx i pc s = (t, Ret pc') \<Longrightarrow> own_step pf prov s t"

inductive background_step ::
  "('w, 'e) platform_scheme \<Rightarrow> 'w Ec2Provider \<Rightarrow>
   ('w, 'z) prov_scheme \<Rightarrow> ('w, 'z) prov_scheme \<Rightarrow> bool" for pf prov where
  own: "own_step pf prov s t \<Longrightarrow> background_step pf prov s t"
| passes: "background_step pf prov s (s\<lparr>world := w, clock := c, choices := cs\<rparr>)"

inductive provider_step ::
  "('w, 'e) platform_scheme \<Rightarrow> 'w Ec2Provider \<Rightarrow>
   ('w, 'z) prov_scheme \<Rightarrow> ('w, 'z) prov_scheme \<Rightarrow> bool" for pf prov where
  background: "background_step pf prov s t \<Longrightarrow> provider_step pf prov s t"
| creates: "CreatePod pf prov r s = (t, Ret err) \<Longrightarrow> provider_step pf prov s t"
| updates: "UpdatePod r s = (t, Ret err) \<Longrightarrow> provider_step pf prov s t"
| deletes: "DeletePod pf r s = (t, Ret err) \<Longrightarrow> provider_step pf prov s t"
| recreates: "recreatePod pf prov r s = (t, Ret ()) \<Longrightarrow> provider_step pf prov s t"

inductive provider_reaches ::
  "('w, 'e) platform_scheme \<Rightarrow> 'w Ec2Provider \<Rightarrow>
   ('w, 'z) prov_scheme \<Rightarrow> ('w, 'z) prov_scheme \<Rightarrow> bool" for pf prov where
  reaches_refl: "provider_reaches pf prov s s"
| reaches_step: "provider_reaches pf prov s t \<Longrightarrow> provider_step pf prov t u \<Longrightarrow>
    provider_reaches pf prov s u"

lemma own_step_ok:
  assumes "own_step pf prov s t" and "cache_ok s"
  shows "cache_ok t"
  using assms
proof (induction rule: own_step.induct)
  case (arrives s r p)
  have "extends s (s\<lparr>pods_at := (pods_at s)(r \<mapsto> p)\<rparr>)"
    using arrives(1) by (auto simp: extends_def pod_names_def)
  then show ?case using arrives(2) by (rule_tac cache_ok_extends) (auto simp: cache_ok_def fresh_ok_def)
qed (erule keeps_Ret [rotated], assumption, (rule ok_intro ok_turn keeps_die framed_ok framed_intro)+)+

lemma background_step_ok:
  assumes "background_step pf prov s t" and "cache_ok s"
  shows "cache_ok t"
  using assms
proof (induction rule: background_step.induct)
  case (own s t)
  then show ?case by (rule own_step_ok)
next
  case (passes s w c cs)
  then show ?case
    by (rule_tac cache_ok_extends [OF passes(1)]) (auto simp: cache_ok_def fresh_ok_def intro: extends_podmons)
qed

lemma provider_step_ok:
  assumes "provider_step pf prov s t" and "cache_ok s"
  shows "cache_ok t"
  using assms
proof (induction rule: provider_step.induct)
  case (background s t)
  then show ?case by (rule background_step_ok)
qed (erule keeps_Ret [rotated], assumption, rule ok_intro)+

lemma provider_reaches_ok:
  "provider_reaches pf prov s t \<Longrightarrow> cache_ok s \<Longrightarrow> cache_ok t"
  by (induction rule: provider_reaches.induct) (simp_all add: provider_step_ok)

section \<open>Every query returns\<close>

lemma entry_states:
  assumes "entry_ok s key mp"
  shows "\<exists>x. monitor_states mp s = (s, Ret x)"
proof -
  obtain m p pm pmon v a mv ma where c: "metapods_at s mp = Some m" "pods_at s (mp_pod m) = Some p"
    "mp_monitor m = Some pm" "podmons_at s pm = Some pmon" "Monitors pmon = [v, a]" "monitors_at s v = Some mv"
    "monitors_at s a = Some ma"
    using assms unfolding entry_ok_def podmon_complete_def by auto
  then have "collect load_monitor (Monitors pmon) s = (s, Ret [mv, ma])"
    by (simp add: andthen_run load_monitor_run ret_run)
  then show ?thesis
    using c by (simp add: monitor_states_def andthen_run load_metapod_run load_podmon_run load_pod_run deref_def ret_run)
qed

text \<open>The pod reference of an entry, and the key of the pod there.\<close>

definition listed_ref :: "('w, 'z) prov_scheme \<Rightarrow> nat \<Rightarrow> pod_ref" where
  "listed_ref s mp = (case metapods_at s mp of None \<Rightarrow> 0 | Some m \<Rightarrow> mp_pod m)"

lemma cache_ok_GetPod:
  assumes "cache_ok s"
  shows "GetPod ns n s = (s, Ret (case cache_view s (GetPodCacheKey ns n) of
      None \<Rightarrow> Inl (NotFoundError (''Pod '' @ n @ ''('' @ ns @ '') does not exist''))
    | Some mp \<Rightarrow> Inr (listed_ref s mp)))" (is ?pod)
    and "\<exists>x. GetPodStatus ns n s = (s, Ret x)" (is ?status)
proof -
  have get: "Get (GetPodCacheKey ns n) s = (s, Ret (cache_view s (GetPodCacheKey ns n)))"
    by (rule pc.get_runs) (use assms in \<open>simp add: cache_ok_def\<close>)
  have "?pod \<and> ?status"
  proof (cases "cache_view s (GetPodCacheKey ns n)")
    case None
    then show ?thesis using get by (simp add: GetPod_def GetPodStatus_def andthen_run [of "Get _"] ret_run)
  next
    case (Some mp)
    then obtain m p where m: "metapods_at s mp = Some m" "pods_at s (mp_pod m) = Some p"
      using assms unfolding cache_ok_def entry_ok_def by blast
    then show ?thesis
      using get Some by (simp add: GetPod_def GetPodStatus_def andthen_run [of "Get _"] andthen_run [of "load_metapod _"]
          andthen_run [of "load_pod _"] load_metapod_run load_pod_run ret_run listed_ref_def)
  qed
  then show ?pod ?status by simp_all
qed

lemma cache_ok_listed:
  assumes "cache_ok s" and "cache_view s key = Some mp"
  shows "map_option pod_key (pods_at s (listed_ref s mp)) = Some key"
  using assms unfolding cache_ok_def entry_ok_def by (fastforce simp: listed_ref_def)

lemma cache_ok_GetPods:
  assumes "cache_ok s"
  shows "\<exists>t rs. GetPods s = (t, Ret (Inr rs)) \<and> distinct rs \<and>
    (\<lambda>r. map_option pod_key (pods_at s r)) ` set rs = Some ` dom (cache_view s)"
    and "\<exists>t report. status_tick prev s = (t, Ret report)"
proof -
  obtain m where m: "pods s = Some m" "go_map_ok m" "cache_view s = lookup m"
    using assms by (auto simp: cache_ok_def elim: cache_goodE)
  let ?s = "s\<lparr>choices := tl (choices s)\<rparr>"
  let ?es = "range_map (case choices s of [] \<Rightarrow> 0 | c # _ \<Rightarrow> c) m"
  have entry: "entry_ok ?s key mp" "map_option pod_key (pods_at s (listed_ref s mp)) = Some key"
    if "(key, mp) \<in> set m" for key mp
  proof -
    have "cache_view s key = Some mp" using that lookup_in_set [OF m(2)] m(3) by simp
    then show "map_option pod_key (pods_at s (listed_ref s mp)) = Some key" by (rule cache_ok_listed [OF assms])
    have "entry_ok s key mp" using \<open>cache_view s key = Some mp\<close> assms by (simp add: cache_ok_def)
    then show "entry_ok ?s key mp" by (simp add: entry_ok_def podmon_complete_def)
  qed
  let ?rs = "map (\<lambda>(_, mp). listed_ref s mp) ?es"
  have "andthen (load_metapod mp) (\<lambda>me. ret (mp_pod me)) ?s = (?s, Ret (listed_ref s mp))"
    if "(key, mp) \<in> set m" for key mp
    using entry(1) [OF that] by (auto simp: entry_ok_def andthen_run load_metapod_run ret_run listed_ref_def)
  then have "collect (\<lambda>(_, r). andthen (load_metapod r) (\<lambda>me. ret (mp_pod me))) ?es ?s = (?s, Ret ?rs)"
    by (intro collect_same) auto
  then have "GetPodList s = (?s, Ret ?rs)"
    using m(1) by (simp add: GetPodList_def andthen_run [of the_cache] the_cache_run
        andthen_run [of next_choice] next_choice_run)
  then have run: "GetPods s = (?s, Ret (Inr ?rs))"
    by (simp add: GetPods_def andthen_run [of GetPodList] ret_run)
  have keys: "map (\<lambda>r. map_option pod_key (pods_at s r)) ?rs = map Some (map fst ?es)"
    using entry(2) by auto
  have perm: "distinct (permute r xs)" if "distinct xs" for r and xs :: "string list"
    by (rule card_distinct) (simp add: distinct_card [OF that])
  then have "distinct (map fst ?es)"
    using m(2) by (simp add: go_map_ok_def range_map_def permute_map [symmetric])
  then have "distinct (map (\<lambda>r. map_option pod_key (pods_at s r)) ?rs)" unfolding keys by (subst distinct_map) (simp del: map_map)
  then have "distinct ?rs" using distinct_map by blast
  moreover have "dom (cache_view s) = fst ` set m" using lookup_in_set [OF m(2)] unfolding m(3) dom_def by force
  then have "(\<lambda>r. map_option pod_key (pods_at s r)) ` set ?rs = Some ` dom (cache_view s)"
    using arg_cong [OF keys, of set] by (simp add: image_image)
  ultimately show "\<exists>t rs. GetPods s = (t, Ret (Inr rs)) \<and> distinct rs \<and>
    (\<lambda>r. map_option pod_key (pods_at s r)) ` set rs = Some ` dom (cache_view s)"
    using run by blast
  have "\<forall>mp \<in> snd ` set m. \<exists>x. monitor_states mp ?s = (?s, Ret x)"
    using entry(1) entry_states by fastforce
  from bchoice [OF this] obtain g where "mp \<in> snd ` set m \<Longrightarrow> monitor_states mp ?s = (?s, Ret (g mp))" for mp
    by blast
  then have "collect monitor_states (map snd ?es) ?s = (?s, Ret (map g (map snd ?es)))"
    by (intro collect_same) auto
  moreover have "GetList s = (?s, Ret (map snd ?es))"
    using m(1) by (simp add: GetList_def andthen_run the_cache_run next_choice_run ret_run)
  ultimately show "\<exists>t report. status_tick prev s = (t, Ret report)"
    using m(1) by (simp add: status_tick_def andthen_run gets_run ret_run)
qed

text \<open>
  C1: the provider stays consistent all its life: after the callback has restored the cache, whatever calls,
  ticks and check results follow, \<open>GetPod\<close> and \<open>GetPodStatus\<close> return for every name, the pod that \<open>GetPod\<close>
  returns has the name asked for, \<open>GetPods\<close> lists exactly one pod for every key of the cache, and the status
  loop never meets an entry without a pod or monitors.
\<close>

theorem provider_stays_consistent:
  fixes s0 s1 s :: "('w, 'z) prov_scheme"
  assumes "fresh_ok s0"
    and "pre_run pf args opts s0 = (s1, Ret (None, opts', prov))" and "provider_reaches pf prov s1 s"
  shows "(\<exists>x. GetPod ns n s = (s, Ret x) \<and>
      (\<forall>r. x = Inr r \<longrightarrow> map_option pod_key (pods_at s r) = Some (GetPodCacheKey ns n)) \<and>
      (x \<in> range Inl \<longleftrightarrow> cache_view s (GetPodCacheKey ns n) = None)) \<and>
    (\<exists>y. GetPodStatus ns n s = (s, Ret y)) \<and>
    (\<exists>t rs. GetPods s = (t, Ret (Inr rs)) \<and> distinct rs \<and>
      (\<lambda>r. map_option pod_key (pods_at s r)) ` set rs = Some ` dom (cache_view s)) \<and>
    (\<exists>t report. status_tick prev s = (t, Ret report))"
proof -
  have ok: "cache_ok s" by (rule provider_reaches_ok [OF assms(3) pre_run_ok [OF assms(2,1)]])
  show ?thesis
    using cache_ok_GetPod [OF ok, of ns n] cache_ok_GetPods [OF ok] cache_ok_listed [OF ok]
    by (auto split: option.splits)
qed

theorem provider_stays_consistent_witness:
  "\<exists>s1 p s t rs. pre_run (cloud_kube (Inr 4) [sample_pod]) [''vk''] start_opts start_state =
      (s1, Ret (None, start_opts\<lparr>NodeName := ''fargate-ip-10-0-0-3''\<rparr>, p)) \<and>
    NotifyPods (Some 9) s1 = (s, Ret ()) \<and> GetPods s = (t, Ret (Inr rs)) \<and> distinct rs"
proof -
  obtain s1 p where s1: "pre_run (cloud_kube (Inr 4) [sample_pod]) [''vk''] start_opts start_state =
      (s1, Ret (None, start_opts\<lparr>NodeName := ''fargate-ip-10-0-0-3''\<rparr>, p))"
    using sample_start [of start_opts] by blast
  obtain s where s: "NotifyPods (Some 9) s1 = (s, Ret ())"
    by (simp add: NotifyPods_def SetNotifier_def andthen_run modify_run)
  then have "provider_reaches (cloud_kube (Inr 4) [sample_pod]) p s1 s"
    by (intro reaches_step [OF reaches_refl] background own subscribes)
  moreover have "fresh_ok start_state" by (simp add: fresh_ok_def start_state_def sample_prov_def)
  ultimately obtain t rs where "GetPods s = (t, Ret (Inr rs))" "distinct rs"
    using provider_stays_consistent [OF _ s1, of s] by blast
  then show ?thesis using s1 s by blast
qed

end
