(* ===== verification/Provider_Refinement.thy ===== *)
theory Provider_Refinement
  imports Provider_Invariant
begin

text \<open>
  The provider as an implementation of a table of pods.  The specification knows pod keys and references
  only: creating a pod puts it into the table or, on an error, at worst leaves it there; updating replaces
  one that is there; deleting takes it out or leaves the table alone.  Instances, the agent, monitors, the
  warm pool and the cache's heap are all hidden.  Every run of the provider is a run of the table.
\<close>

section \<open>The specification\<close>

type_synonym pod_table = "string \<Rightarrow> pod_ref option"

datatype vk_call = Create | Update | Recreate | Remove

text \<open>A call with the pod it was made with, its key, and the error it returned.\<close>

record vk_event =
  ev_call :: vk_call
  ev_pod :: pod_ref
  ev_key :: string
  ev_error :: "go_error option"

fun spec_step :: "vk_call \<Rightarrow> pod_ref \<Rightarrow> string \<Rightarrow> go_error option \<Rightarrow> pod_table \<Rightarrow> pod_table \<Rightarrow> bool" where
  "spec_step Create r k None T U \<longleftrightarrow> U = T(k \<mapsto> r)"
| "spec_step Create r k (Some e) T U \<longleftrightarrow> U = T(k := None) \<or> U = T(k \<mapsto> r)"
| "spec_step Recreate r k err T U \<longleftrightarrow> U = T(k := None) \<or> U = T(k \<mapsto> r)"
| "spec_step Update r k None T U \<longleftrightarrow> T k \<noteq> None \<and> U = T(k \<mapsto> r)"
| "spec_step Update r k (Some e) T U \<longleftrightarrow> T k = None \<and> U = T"
| "spec_step Remove r k None T U \<longleftrightarrow> T k \<noteq> None \<and> U = T(k := None)"
| "spec_step Remove r k (Some e) T U \<longleftrightarrow> T k \<noteq> None \<and> U = T"

inductive table_run :: "pod_table \<Rightarrow> vk_event list \<Rightarrow> pod_table \<Rightarrow> bool" where
  table_start: "table_run T [] T"
| table_step: "table_run T es U \<Longrightarrow> spec_step (ev_call e) (ev_pod e) (ev_key e) (ev_error e) U V \<Longrightarrow>
    table_run T (es @ [e]) V"

section \<open>The implementation\<close>

text \<open>The table that the provider's cache stands for.\<close>

definition table :: "('w, 'z) prov_scheme \<Rightarrow> pod_table" where
  "table s key = map_option (listed_ref s) (cache_view s key)"

text \<open>A run of the provider with the calls that Virtual Kubelet made and what they returned.\<close>

inductive provider_run ::
  "('w, 'e) platform_scheme \<Rightarrow> 'w Ec2Provider \<Rightarrow> ('w, 'z) prov_scheme \<Rightarrow> vk_event list \<Rightarrow>
   ('w, 'z) prov_scheme \<Rightarrow> bool" for pf prov where
  run_start: "provider_run pf prov s [] s"
| run_background: "provider_run pf prov s es t \<Longrightarrow> background_step pf prov t u \<Longrightarrow> provider_run pf prov s es u"
| run_create: "provider_run pf prov s es t \<Longrightarrow> pods_at t r = Some p \<Longrightarrow> CreatePod pf prov r t = (u, Ret err) \<Longrightarrow>
    provider_run pf prov s (es @ [\<lparr>ev_call = Create, ev_pod = r, ev_key = pod_key p, ev_error = err\<rparr>]) u"
| run_update: "provider_run pf prov s es t \<Longrightarrow> pods_at t r = Some p \<Longrightarrow> UpdatePod r t = (u, Ret err) \<Longrightarrow>
    provider_run pf prov s (es @ [\<lparr>ev_call = Update, ev_pod = r, ev_key = pod_key p, ev_error = err\<rparr>]) u"
| run_recreate: "provider_run pf prov s es t \<Longrightarrow> pods_at t r = Some p \<Longrightarrow> recreatePod pf prov r t = (u, Ret ()) \<Longrightarrow>
    provider_run pf prov s (es @ [\<lparr>ev_call = Recreate, ev_pod = r, ev_key = pod_key p, ev_error = None\<rparr>]) u"
| run_delete: "provider_run pf prov s es t \<Longrightarrow> pods_at t r = Some p \<Longrightarrow> DeletePod pf r t = (u, Ret err) \<Longrightarrow>
    provider_run pf prov s (es @ [\<lparr>ev_call = Remove, ev_pod = r, ev_key = pod_key p, ev_error = err\<rparr>]) u"

lemma provider_run_ok: "provider_run pf prov s es t \<Longrightarrow> cache_ok s \<Longrightarrow> cache_ok t"
  by (induction rule: provider_run.induct)
    (auto intro: background_step_ok provider_step_ok [OF creates] provider_step_ok [OF updates]
      provider_step_ok [OF recreates] provider_step_ok [OF deletes])

section \<open>Operations that leave the cache alone\<close>

text \<open>\<open>quiet\<close>: neither the cache nor its entries change, nor the names of the pods.\<close>

definition cache_part :: "('w, 'z) prov_scheme \<Rightarrow> _" where
  "cache_part s = (metapods_at s, pods s, pod_names (pods_at s))"

definition quiet :: "(('w, 'z) prov_scheme, 'a) go \<Rightarrow> bool" where
  "quiet m \<longleftrightarrow> (\<forall>x. keeps (\<lambda>s. cache_part s = x) m)"

named_theorems quiet_intro

lemma quietD: "quiet m \<Longrightarrow> m s = (t, x) \<Longrightarrow> cache_part t = cache_part s"
  unfolding quiet_def keeps_def by (metis fst_conv)

lemma table_same:
  assumes "metapods_at t = metapods_at s" and "pods t = pods s"
  shows "table t = table s"
proof -
  have "listed_ref t = listed_ref s" by (intro ext) (simp add: assms listed_ref_def)
  then show ?thesis by (intro ext) (simp add: assms table_def cache_view_def)
qed

lemma quiet_table: "cache_part t = cache_part s \<Longrightarrow> table t = table s"
  by (rule table_same) (simp_all add: cache_part_def)

lemma framed_quiet: "framed m \<Longrightarrow> quiet m"
proof -
  assume m: "framed m"
  have "cache_part (fst (m s)) = cache_part s" for s
    using frame_fields [OF framedD [OF m, of s "fst (m s)" "snd (m s)"]] by (simp add: cache_part_def)
  then show ?thesis by (simp add: quiet_def keeps_def)
qed

lemma quiet_andthen [quiet_intro]: "quiet m \<Longrightarrow> (\<And>a. quiet (f a)) \<Longrightarrow> quiet (andthen m f)"
  by (auto simp: quiet_def intro!: keeps_andthen)

lemma quiet_loops [quiet_intro]:
  "(\<And>x. quiet (g x)) \<Longrightarrow> quiet (for_each g xs)" "(\<And>x. quiet (h x)) \<Longrightarrow> quiet (collect h xs)"
  by (auto simp: quiet_def intro!: keeps_for_each keeps_collect)

lemma quiet_cases [quiet_intro]:
  "(b \<Longrightarrow> quiet m) \<Longrightarrow> (\<not> b \<Longrightarrow> quiet n) \<Longrightarrow> quiet (if b then m else n)"
  "(\<And>e. quiet (f e)) \<Longrightarrow> (\<And>a. quiet (g a)) \<Longrightarrow> quiet (case x of Inl e \<Rightarrow> f e | Inr a \<Rightarrow> g a)"
  "quiet m' \<Longrightarrow> (\<And>a. quiet (k a)) \<Longrightarrow> quiet (case y of None \<Rightarrow> m' | Some a \<Rightarrow> k a)"
  "(\<And>a b. quiet (h a b)) \<Longrightarrow> quiet (case z of (a, b) \<Rightarrow> h a b)"
  by (auto split: sum.splits option.splits prod.splits)

lemma quiet_modify:
  "(\<And>s. cache_part (f s) = cache_part s) \<Longrightarrow> quiet (modify f)"
  by (simp add: quiet_def keeps_def modify_run)

lemma quiet_ops [quiet_intro]:
  "quiet (store_monitor r mon)" "quiet (store_handler r h)" "quiet (store_podmon r pm)"
  "quiet (modify (\<lambda>s. s\<lparr>fresh_ref := n\<rparr>))"
  "quiet (modify (\<lambda>s. s\<lparr>cancelled_ctxs := ctx # cancelled_ctxs s\<rparr>))"
  "quiet (modify (\<lambda>s. s\<lparr>podNotifier := f\<rparr>))" "quiet (modify (\<lambda>s. s\<lparr>utilsNotifier := f\<rparr>))"
  "quiet (modify (\<lambda>s. s\<lparr>notified := ns s\<rparr>))"
  unfolding store_monitor_def store_handler_def store_podmon_def
  by (rule quiet_modify; simp add: cache_part_def)+

lemma quiet_reads [quiet_intro]:
  "quiet new_ref" "quiet (load_monitor r)" "quiet (load_handler r)" "quiet (load_podmon r)"
  "quiet (load_metapod p)" "quiet (SetNotifier f)" "quiet GetNotifier" "quiet the_cache" "quiet (Get key)"
  "quiet (call_notifier f r)" "quiet (ctx_done ctx)"
  unfolding new_ref_def load_monitor_def load_handler_def load_podmon_def load_metapod_def SetNotifier_def
    GetNotifier_def the_cache_def Get_def call_notifier_def ctx_done_def
  by (rule quiet_intro framed_quiet framed_intro)+

lemma quiet_monitors [quiet_intro]:
  "quiet (Start pm)" "quiet (Stop pm)" "quiet (stop_and_exit r)" "quiet (stopPodMonitor mp)"
  "quiet (NewCheckResult r failed message data)"
  unfolding Start_def receive_def Run_def Stop_def stop_receiver_def stop_monitor_def stop_and_exit_def
    stopPodMonitor_def NewCheckResult_def incrementFailures_def resetFailures_def
  by (rule quiet_intro framed_quiet framed_intro)+

lemma quiet_calls [quiet_intro]:
  "quiet (notifyPodDelete r)" "quiet (handlePodStatusUpdate r st)" "quiet (NotifyPods f)" "quiet GetPods"
  "quiet (status_tick prev)"
  unfolding notifyPodDelete_def handlePodStatusUpdate_def NotifyPods_def GetPods_def GetPodList_def status_tick_def
    GetList_def monitor_states_def
  by (rule quiet_intro framed_quiet framed_intro)+

lemma quiet_more_cases [quiet_intro]:
  "quiet a \<Longrightarrow> quiet b \<Longrightarrow> quiet c \<Longrightarrow>
    quiet (case st of MonitoringStateUnknown \<Rightarrow> a | MonitoringStateHealthy \<Rightarrow> b | MonitoringStateUnhealthy \<Rightarrow> c)"
  "quiet a \<Longrightarrow> quiet b \<Longrightarrow> quiet c \<Longrightarrow>
    quiet (case sub of SubjectUnknown \<Rightarrow> a | SubjectVkvma \<Rightarrow> b | SubjectApp \<Rightarrow> c)"
  "quiet a \<Longrightarrow> (\<And>x. quiet (f x)) \<Longrightarrow> quiet b \<Longrightarrow>
    quiet (case d of NoData \<Rightarrow> a | PodStatusData x \<Rightarrow> f x | HealthResponseData \<Rightarrow> b)"
  "quiet a \<Longrightarrow> (\<And>k. quiet (g k)) \<Longrightarrow> quiet b \<Longrightarrow>
    quiet (case stream of NilStream \<Rightarrow> a | OpenStream k \<Rightarrow> g k | OtherStream \<Rightarrow> b)"
  "(\<And>x. quiet (f1 x)) \<Longrightarrow> (\<And>x. quiet (f2 x)) \<Longrightarrow> (\<And>x. quiet (f3 x)) \<Longrightarrow> quiet b \<Longrightarrow>
    quiet (case i of Opened x \<Rightarrow> f1 x | RecvError x \<Rightarrow> f2 x | RecvResponse x \<Rightarrow> f3 x | Elapsed \<Rightarrow> b)"
  by (auto split: MonitoringState.split Subject.split check_data.split stream.split input.split)

lemma quiet_handle [quiet_intro]: "quiet (handleCheckResult result)"
  unfolding handleCheckResult_def getState_def by (rule quiet_intro framed_quiet framed_intro)+

lemma quiet_turn [quiet_intro]: "quiet (turn (\<lambda>_. die NilFuncCall) r ctx i pc)"
  by (cases pc; simp only: turn_simps watch_top_def watch_select_def watch_recv_def check_top_def)
    (rule quiet_intro framed_quiet framed_intro)+

lemma own_table: "own_step pf prov s t \<Longrightarrow> table t = table s"
proof (induction rule: own_step.induct)
  case (arrives s r p)
  show ?case by (rule table_same) simp_all
qed (rule quiet_table, erule quietD [rotated], (rule quiet_intro framed_quiet framed_intro)+)+

lemma background_table: "background_step pf prov s t \<Longrightarrow> table t = table s"
proof (induction rule: background_step.induct)
  case (own s t)
  then show ?case by (rule own_table)
next
  case (passes s w c cs)
  show ?case by (rule table_same) simp_all
qed

section \<open>The calls\<close>

text \<open>Operations that may take pods out of the cache, but leave its entries as they are.\<close>

definition entries_kept :: "(('w, 'z) prov_scheme, 'a) go \<Rightarrow> bool" where
  "entries_kept m \<longleftrightarrow> (\<forall>x. keeps (\<lambda>s. metapods_at s = x) m)"

lemma entries_keptD: "entries_kept m \<Longrightarrow> m s = (t, x) \<Longrightarrow> metapods_at t = metapods_at s"
  unfolding entries_kept_def keeps_def by (metis fst_conv)

lemma quiet_entries: "quiet m \<Longrightarrow> entries_kept m"
  unfolding entries_kept_def quiet_def keeps_def cache_part_def by (metis prod.inject)

named_theorems entries_intro

lemma entries_rules [entries_intro]:
  "entries_kept (Delete key)"
  "entries_kept m \<Longrightarrow> (\<And>a. entries_kept (f a)) \<Longrightarrow> entries_kept (andthen m f)"
  "(b \<Longrightarrow> entries_kept m) \<Longrightarrow> (\<not> b \<Longrightarrow> entries_kept n) \<Longrightarrow> entries_kept (if b then m else n)"
  "(\<And>e. entries_kept (g e)) \<Longrightarrow> (\<And>a. entries_kept (h a)) \<Longrightarrow> entries_kept (case x of Inl e \<Rightarrow> g e | Inr a \<Rightarrow> h a)"
  "entries_kept n \<Longrightarrow> (\<And>a. entries_kept (k a)) \<Longrightarrow> entries_kept (case y of None \<Rightarrow> n | Some a \<Rightarrow> k a)"
  "(\<And>a b. entries_kept (q a b)) \<Longrightarrow> entries_kept (case z of (a, b) \<Rightarrow> q a b)"
proof -
  show "entries_kept (Delete key)"
    unfolding entries_kept_def Delete_def the_cache_def by (intro allI keeps_intro keeps_modify) simp_all
qed (auto simp: entries_kept_def intro!: keeps_andthen split: sum.splits option.splits prod.splits)

lemma CreatePod_Ret:
  assumes "CreatePod pf prov r s = (t, Ret err)" and "pods_at s r = Some p"
  obtains cfg ch where "config s = Some cfg" "handlers_at s (defaultHandler prov) = Some ch"
proof -
  have "config s \<noteq> None"
  proof
    assume "config s = None"
    then have "NewPodMonitor r (defaultHandler prov) s = (s, Crash NilDeref)"
      by (simp add: NewPodMonitor_def andthen_run Config_nil)
    then show False using assms(1) by (simp add: CreatePod_early_crash [OF assms(2)])
  qed
  then obtain cfg where cfg: "config s = Some cfg" by blast
  moreover obtain ch where "handlers_at s (defaultHandler prov) = Some ch"
    using assms(1) CreatePod_early_crash [OF assms(2) NewPodMonitor_without_handler [OF cfg], of prov pf]
    by (cases "handlers_at s (defaultHandler prov)") simp_all
  ultimately show thesis by (rule that)
qed

lemma CreatePod_entries:
  assumes "CreatePod pf prov r s = (t, Ret err)" and "cache_ok s" and "pods_at s r = Some p" and "mp < fresh_ref s"
  shows "metapods_at t mp = metapods_at s mp"
proof -
  obtain cfg ch where c: "config s = Some cfg" "handlers_at s (defaultHandler prov) = Some ch"
    using assms(1,3) by (rule CreatePod_Ret)
  obtain m where m: "pods s = Some m" using assms(2) by (auto simp: cache_ok_def elim: cache_goodE)
  let ?s = "with_metapod cfg r (pod_key p) (defaultHandler prov) (in_chan ch) m s"
  have "entries_kept (andthen (GetCompute pf prov r) (\<lambda>compute. case compute of
      Inl err \<Rightarrow> andthen (Delete (pod_key p)) (\<lambda>_. ret (Some err))
    | Inr (iid, ip) \<Rightarrow> launch_and_watch pf prov r (fresh_ref s) iid ip))"
    unfolding create_parts launchApplication_def clean_up_def
    by (rule entries_intro quiet_entries quiet_intro framed_quiet framed_intro)+
  then have "metapods_at t = metapods_at ?s"
    by (rule entries_keptD [where x = "Ret err"]) (use assms(1) in \<open>simp only: CreatePod_start [OF c(1) assms(3) c(2) m]\<close>)
  then show ?thesis using assms(4) by (simp add: with_metapod_def with_podmon_def Let_def)
qed

lemma cache_ok_below: "cache_ok s \<Longrightarrow> cache_view s key = Some mp \<Longrightarrow> mp < fresh_ref s"
  unfolding cache_ok_def fresh_ok_def entry_ok_def by (metis not_le option.distinct(1))

text \<open>How a change of one key of the cache shows in the table.\<close>

lemma table_delete:
  assumes "cache_view t = (cache_view s)(key := None)"
    and "\<And>k mp. cache_view s k = Some mp \<Longrightarrow> metapods_at t mp = metapods_at s mp"
  shows "table t = (table s)(key := None)"
proof (rule ext)
  fix k
  show "table t k = ((table s)(key := None)) k"
    using assms by (cases "cache_view s k") (auto simp: table_def listed_ref_def)
qed

lemma table_put:
  assumes "cache_view t = (cache_view s)(key \<mapsto> mp)" and "map_option mp_pod (metapods_at t mp) = Some r"
    and "\<And>k mp'. k \<noteq> key \<Longrightarrow> cache_view s k = Some mp' \<Longrightarrow> metapods_at t mp' = metapods_at s mp'"
  shows "table t = (table s)(key \<mapsto> r)"
proof (rule ext)
  fix k
  show "table t k = ((table s)(key \<mapsto> r)) k"
    using assms by (cases "cache_view s k") (auto simp: table_def listed_ref_def)
qed

lemma CreatePod_table:
  assumes "CreatePod pf prov r s = (t, Ret err)" and "cache_ok s" and "pods_at s r = Some p"
  shows "spec_step Create r (pod_key p) err (table s) (table t)"
proof -
  obtain cfg ch where c: "config s = Some cfg" "handlers_at s (defaultHandler prov) = Some ch"
    using assms(1,3) by (rule CreatePod_Ret)
  have kept: "cache_view s k = Some mp \<Longrightarrow> metapods_at t mp = metapods_at s mp" for k mp
    using CreatePod_entries [OF assms] cache_ok_below [OF assms(2)] by blast
  have put: "table t = (table s)(pod_key p \<mapsto> r)"
    if "cache_view t = (cache_view s)(pod_key p \<mapsto> mp)" "monitored t mp r pm b" for mp pm b
    by (rule table_put [OF that(1)]) (use that(2) kept in \<open>auto simp: monitored_def\<close>)
  have "cache_good s" using assms(2) by (simp add: cache_ok_def)
  from CreatePod_cases [OF c(1) assms(3) c(2) this assms(1)] show ?thesis
  proof (cases err)
    case None
    then show ?thesis using CreatePod_cases [OF c(1) assms(3) c(2) \<open>cache_good s\<close> assms(1)] put by auto
  next
    case (Some e)
    then show ?thesis
      using CreatePod_cases [OF c(1) assms(3) c(2) \<open>cache_good s\<close> assms(1)] put table_delete [OF _ kept] by auto
  qed
qed

lemma UpdatePod_table:
  assumes "UpdatePod r s = (t, Ret err)" and "cache_ok s" and "pods_at s r = Some p"
  shows "spec_step Update r (pod_key p) err (table s) (table t)"
proof -
  obtain m where m: "pods s = Some m" "go_map_ok m" "cache_view s = lookup m"
    using assms(2) by (auto simp: cache_ok_def elim: cache_goodE)
  show ?thesis
  proof (cases "lookup m (pod_key p)")
    case None
    then have "Get (pod_key p) s = (s, Ret None)" using m(1) by (simp add: cache_runs)
    then have "t = s" "err \<noteq> None"
      using assms(1) by (auto simp: UpdatePod_def andthen_load_pod [OF assms(3)] pod_key_def [symmetric]
          cache_UpdatePod_def andthen_run [of "Get _"] ret_run)
    then show ?thesis using None m(3) by (auto simp: table_def)
  next
    case (Some mp)
    have entries: "entry_ok s key mp'" if "lookup m key = Some mp'" for key mp'
      using assms(2) that m(3) by (simp add: cache_ok_def)
    obtain me where me: "metapods_at s mp = Some me" using entries [OF Some] unfolding entry_ok_def by blast
    have t: "t = s\<lparr>metapods_at := (metapods_at s)(mp \<mapsto> me\<lparr>mp_pod := r\<rparr>), pods := Some (assign (pod_key p) mp m)\<rparr>"
      "err = None"
      using UpdatePod_run [OF assms(3) m(1) Some me] assms(1) by simp_all
    have "table t = (table s)(pod_key p \<mapsto> r)"
    proof (rule table_put)
      show "cache_view t = (cache_view s)(pod_key p \<mapsto> mp)"
        using lookup_maps(1) [OF m(2)] m(3) by (simp add: t cache_view_def)
      show "map_option mp_pod (metapods_at t mp) = Some r" by (simp add: t)
      show "metapods_at t mp' = metapods_at s mp'" if "k \<noteq> pod_key p" "cache_view s k = Some mp'" for k mp'
      proof -
        have "entry_ok s k mp'" using that(2) m(3) entries by simp
        then have "mp' \<noteq> mp" using entries [OF Some] that(1) unfolding entry_ok_def by auto
        then show ?thesis by (simp add: t)
      qed
    qed
    then show ?thesis using t(2) Some m(3) by (simp add: table_def)
  qed
qed

text \<open>What follows a quiet operation.\<close>

lemma quiet_then:
  assumes "andthen m f s = (t, Ret x)" and "quiet m"
  obtains a u where "f a u = (t, Ret x)" and "cache_part u = cache_part s" and "m s = (u, Ret a)"
  using assms quietD by (metis andthen_RetE)

lemma Delete_table:
  assumes "pods s = Some m" and "go_map_ok m"
  shows "\<exists>t. Delete key s = (t, Ret ()) \<and> table t = (table s)(key := None) \<and> pods_at t = pods_at s"
proof -
  let ?t = "s\<lparr>pods := Some (delete_key key m)\<rparr>"
  have "table ?t = (table s)(key := None)"
    by (rule table_delete) (use assms lookup_maps(2) [OF assms(2)] in \<open>simp_all add: cache_view_def\<close>)
  then show ?thesis using Delete_run [OF assms(1)] by auto
qed

text \<open>\<open>DeletePod\<close> in three parts: stopping the monitors, ending the application and the instance, and the rest.\<close>

definition end_instance ::
  "('w, 'e) platform_scheme \<Rightarrow> pod_ref \<Rightarrow> nat option \<Rightarrow> (('w, 'z) prov_scheme, go_error option) go" where
  "end_instance pf r metaPod =
     andthen (terminateApp pf metaPod) (\<lambda>appErr.
     andthen (if appErr \<noteq> None then Inc TerminateApplicationErrors else ret ()) (\<lambda>_.
     DeleteCompute pf r))"

definition report_deleted :: "pod_ref \<Rightarrow> (('w, 'z) prov_scheme, unit) go" where
  "report_deleted r =
     andthen Now (\<lambda>now.
     andthen (update_pod r (\<lambda>p. p\<lparr>Status := terminate_status
       (terminated_state ''EC2 Provider terminated container upon deletion''
          ''ProviderPodContainerDeleted'' now) (Status p)\<rparr>)) (\<lambda>_.
     notifyPodDelete r))"

definition forget_pod ::
  "pod_ref \<Rightarrow> string \<Rightarrow> nat option \<Rightarrow> go_error option \<Rightarrow> (('w, 'z) prov_scheme, go_error option) go" where
  "forget_pod r podKey metaPod = (\<lambda>computeErr. case computeErr of
     Some err \<Rightarrow> andthen (deref metaPod) (\<lambda>_. ret (Some err))
   | None \<Rightarrow> andthen (Delete podKey) (\<lambda>_. andthen (report_deleted r) (\<lambda>_. ret None)))"

lemma DeletePod_parts:
  assumes "pods_at s r = Some p" and "pods s = Some m"
  shows "DeletePod pf r s =
    andthen (stopPodMonitor (lookup m (pod_key p))) (\<lambda>stopErr. case stopErr of
      Some err \<Rightarrow> andthen (deref (lookup m (pod_key p))) (\<lambda>_. ret (Some err))
    | None \<Rightarrow> andthen (end_instance pf r (lookup m (pod_key p)))
        (forget_pod r (pod_key p) (lookup m (pod_key p)))) s"
  unfolding DeletePod_def Let_def end_instance_def report_deleted_def forget_pod_def andthen_assoc
  by (simp only: andthen_load_pod [OF assms(1)] pod_key_def [symmetric] andthen_run [of "Get _"]
      cache_runs [OF assms(2)] prod.case outcome.case)

lemma quiet_delete_parts [quiet_intro]: "quiet (end_instance pf r mp)" "quiet (report_deleted r)"
  unfolding end_instance_def report_deleted_def by (rule quiet_intro framed_quiet framed_intro)+

lemma DeletePod_table:
  assumes "DeletePod pf r s = (t, Ret err)" and "cache_ok s" and "pods_at s r = Some p"
  shows "spec_step Remove r (pod_key p) err (table s) (table t)"
proof -
  obtain m where m: "pods s = Some m" "go_map_ok m" "cache_view s = lookup m"
    using assms(2) by (auto simp: cache_ok_def elim: cache_goodE)
  note run = assms(1) [unfolded DeletePod_parts [OF assms(3) m(1)]]
  obtain mp where mp: "lookup m (pod_key p) = Some mp"
    using run by (cases "lookup m (pod_key p)")
      (auto simp: stopPodMonitor_def andthen_run ret_run deref_def die_run)
  then have there: "table s (pod_key p) \<noteq> None" by (simp add: table_def m(3))
  from run [unfolded mp] obtain stopErr s1 where r1: "(case stopErr of
      Some err \<Rightarrow> andthen (deref (Some mp)) (\<lambda>_. ret (Some err))
    | None \<Rightarrow> andthen (end_instance pf r (Some mp)) (forget_pod r (pod_key p) (Some mp))) s1 = (t, Ret err)"
    and s1: "cache_part s1 = cache_part s"
    by (rule quiet_then) (rule quiet_intro, blast)
  show ?thesis
  proof (cases stopErr)
    case (Some e)
    then have "t = s1" "err = Some e" using r1 by (auto simp: deref_def andthen_run ret_run)
    then show ?thesis using there quiet_table [OF s1] by simp
  next
    case None
    with r1 have "andthen (end_instance pf r (Some mp)) (forget_pod r (pod_key p) (Some mp)) s1 = (t, Ret err)" by simp
    then obtain computeErr s2 where r2: "forget_pod r (pod_key p) (Some mp) computeErr s2 = (t, Ret err)"
      and s2: "cache_part s2 = cache_part s1"
      by (rule quiet_then) (rule quiet_intro, blast)
    show ?thesis
    proof (cases computeErr)
      case (Some e)
      then have "t = s2" "err = Some e" using r2 by (auto simp: forget_pod_def deref_def andthen_run ret_run)
      then show ?thesis using there quiet_table [OF s1] quiet_table [OF s2] by simp
    next
      case None
      have "pods s2 = Some m" using s1 s2 m(1) by (simp add: cache_part_def)
      from Delete_table [OF this m(2)] obtain s3 where s3: "Delete (pod_key p) s2 = (s3, Ret ())"
        "table s3 = (table s)(pod_key p := None)" using quiet_table [OF s1] quiet_table [OF s2] by auto
      have "andthen (report_deleted r) (\<lambda>_. ret None) s3 = (t, Ret err)"
        using r2 None s3(1) by (simp add: forget_pod_def andthen_run [of "Delete _"])
      then obtain a u where u: "ret None u = (t, Ret err)" "cache_part u = cache_part s3"
        by (rule quiet_then) (rule quiet_intro, blast)
      then have "err = None" "cache_part t = cache_part s3" by (simp_all add: ret_run)
      then show ?thesis using there s3(2) quiet_table [of t s3] by simp
    qed
  qed
qed

text \<open>\<open>recreatePod\<close> up to where the pod leaves the cache.\<close>

definition stop_instance ::
  "('w, 'e) platform_scheme \<Rightarrow> pod_ref \<Rightarrow> nat option \<Rightarrow> (('w, 'z) prov_scheme, unit) go" where
  "stop_instance pf r metaPod =
     andthen (stopPodMonitor metaPod) (\<lambda>err.
     andthen (if err \<noteq> None then andthen (deref metaPod) (\<lambda>_. ret ()) else ret ()) (\<lambda>_.
     andthen (DeleteCompute pf r) (\<lambda>_. notifyPodDelete r)))"

lemma recreatePod_parts:
  assumes "pods_at s r = Some p" and "pods s = Some m"
  shows "recreatePod pf prov r s = andthen (stop_instance pf r (lookup m (pod_key p))) (\<lambda>_.
    andthen (Delete (pod_key p)) (\<lambda>_. andthen (CreatePod pf prov r) (\<lambda>_. ret ()))) s"
  unfolding recreatePod_def Let_def stop_instance_def andthen_assoc
  by (simp only: andthen_load_pod [OF assms(1)] pod_key_def [symmetric] andthen_run [of "Get _"]
      cache_runs [OF assms(2)] prod.case outcome.case)

lemma quiet_stop_instance: "quiet (stop_instance pf r mp)"
  unfolding stop_instance_def by (rule quiet_intro framed_quiet framed_intro)+

lemma ok_stop_instance: "keeps cache_ok (stop_instance pf r mp)"
  unfolding stop_instance_def by (rule ok_intro keeps_intro framed_ok framed_intro)+

lemma recreatePod_table:
  assumes "recreatePod pf prov r s = (t, Ret ())" and "cache_ok s" and "pods_at s r = Some p"
  shows "spec_step Recreate r (pod_key p) err (table s) (table t)"
proof -
  obtain m where m: "pods s = Some m" "go_map_ok m" "cache_view s = lookup m"
    using assms(2) by (auto simp: cache_ok_def elim: cache_goodE)
  let ?stop = "stop_instance pf r (lookup m (pod_key p))"
  note run = assms(1) [unfolded recreatePod_parts [OF assms(3) m(1)]]
  from run obtain a s1 where r1: "andthen (Delete (pod_key p)) (\<lambda>_. andthen (CreatePod pf prov r) (\<lambda>_. ret ())) s1 = (t, Ret ())"
    and s1: "cache_part s1 = cache_part s" and stop: "?stop s = (s1, Ret a)"
    by (rule quiet_then [OF _ quiet_stop_instance])
  have ok1: "cache_ok s1" by (rule keeps_Ret [OF ok_stop_instance stop assms(2)])
  have "pods s1 = Some m" using s1 m(1) by (simp add: cache_part_def)
  from Delete_table [OF this m(2)] obtain s2 where s2: "Delete (pod_key p) s1 = (s2, Ret ())"
    "table s2 = (table s)(pod_key p := None)" "pods_at s2 = pods_at s1" using quiet_table [OF s1] by auto
  have ok2: "cache_ok s2" using keeps_Ret [OF ok_Delete s2(1) ok1] .
  have "pod_names (pods_at s2) r = Some (Namespace p, PodName p)"
    using s1 s2(3) assms(3) by (simp add: cache_part_def) (simp add: pod_names_def)
  then obtain q where q: "pods_at s2 r = Some q" "pod_key q = pod_key p"
    by (auto simp: pod_key_def elim: pod_names_SomeE)
  have "andthen (CreatePod pf prov r) (\<lambda>_. ret ()) s2 = (t, Ret ())"
    using r1 s2(1) by (simp add: andthen_run [of "Delete _"])
  then obtain err' v where "CreatePod pf prov r s2 = (v, Ret err')" "ret () v = (t, Ret ())"
    by (rule andthen_RetE)
  then have "CreatePod pf prov r s2 = (t, Ret err')" by (simp add: ret_run)
  from CreatePod_table [OF this ok2 q(1)] show ?thesis
    using s2(2) q(2) by (cases err') (auto simp: fun_upd_def)
qed

section \<open>Refinement\<close>

text \<open>
  C2: every run of the provider, from the state in which the callback left it, is a run of the table of pods
  with the same calls and results; and in every state it reaches, \<open>GetPod\<close> answers from that table.
\<close>

theorem provider_refines_table:
  fixes s0 s1 s :: "('w, 'z) prov_scheme"
  assumes "fresh_ok s0" and "pre_run pf args opts s0 = (s1, Ret (None, opts', prov))"
    and "provider_run pf prov s1 es s"
  shows "table_run (table s1) es (table s) \<and>
    GetPod ns n s = (s, Ret (case table s (GetPodCacheKey ns n) of
        None \<Rightarrow> Inl (NotFoundError (''Pod '' @ n @ ''('' @ ns @ '') does not exist''))
      | Some r \<Rightarrow> Inr r))"
proof -
  have start: "cache_ok s1" by (rule pre_run_ok [OF assms(2,1)])
  have "table_run (table s1) es (table s)" using assms(3) start
  proof (induction rule: provider_run.induct)
    case (run_background s es t u)
    then show ?case using background_table provider_run_ok by metis
  next
    case (run_create s es t r p u err)
    then show ?case using CreatePod_table provider_run_ok by (intro table_step) fastforce+
  next
    case (run_update s es t r p u err)
    then show ?case using UpdatePod_table provider_run_ok by (intro table_step) fastforce+
  next
    case (run_recreate s es t r p u)
    then show ?case using recreatePod_table provider_run_ok by (intro table_step) fastforce+
  next
    case (run_delete s es t r p u err)
    then show ?case using DeletePod_table provider_run_ok by (intro table_step) fastforce+
  qed (rule table_start)
  moreover have "cache_ok s" using provider_run_ok [OF assms(3) start] .
  ultimately show ?thesis
    using cache_ok_GetPod(1) [of s ns n] by (simp add: table_def split: option.splits)
qed

theorem provider_refines_table_witness:
  "\<exists>s1 p u r. pre_run (cloud_kube (Inr 4) [sample_pod]) [''vk''] start_opts start_state =
      (s1, Ret (None, start_opts\<lparr>NodeName := ''fargate-ip-10-0-0-3''\<rparr>, p)) \<and>
    UpdatePod r s1 = (u, Ret None) \<and>
    table_run (table s1) [\<lparr>ev_call = Update, ev_pod = r, ev_key = pod_key sample_pod, ev_error = None\<rparr>] (table u) \<and>
    GetPod ''default'' ''other'' u = (u, Ret (case table u (GetPodCacheKey ''default'' ''other'') of
        None \<Rightarrow> Inl (NotFoundError (''Pod '' @ ''other'' @ ''('' @ ''default'' @ '') does not exist''))
      | Some r \<Rightarrow> Inr r))"
proof -
  obtain s1 p r where s1: "pre_run (cloud_kube (Inr 4) [sample_pod]) [''vk''] start_opts start_state =
      (s1, Ret (None, start_opts\<lparr>NodeName := ''fargate-ip-10-0-0-3''\<rparr>, p))"
    and r: "GetPod (Namespace sample_pod) (PodName sample_pod) s1 = (s1, Ret (Inr r))" "pods_at s1 r = Some sample_pod"
    using sample_start [of start_opts] by blast
  have fresh: "fresh_ok start_state" by (simp add: fresh_ok_def start_state_def sample_prov_def)
  have ok: "cache_ok s1" by (rule pre_run_ok [OF s1 fresh])
  obtain m where m: "pods s1 = Some m" "cache_view s1 = lookup m"
    using ok by (auto simp: cache_ok_def elim: cache_goodE)
  obtain mp where mp: "lookup m (pod_key sample_pod) = Some mp"
    using r(1) cache_ok_GetPod(1) [OF ok, of "Namespace sample_pod" "PodName sample_pod"] m(2)
    by (auto simp: pod_key_def split: option.splits)
  then obtain me where "metapods_at s1 mp = Some me"
    using ok m(2) unfolding cache_ok_def entry_ok_def by metis
  from UpdatePod_run [OF r(2) m(1) mp this] obtain u where u: "UpdatePod r s1 = (u, Ret None)" by blast
  from provider_refines_table [OF fresh s1 run_update [OF run_start r(2) u], of "''default''" "''other''"] s1 u
  show ?thesis by fastforce
qed

section \<open>Pods whose keys clash\<close>

lemma GetPod_table:
  assumes "cache_ok s"
  shows "GetPod ns n s = (s, Ret (case table s (GetPodCacheKey ns n) of
      None \<Rightarrow> Inl (NotFoundError (''Pod '' @ n @ ''('' @ ns @ '') does not exist''))
    | Some r \<Rightarrow> Inr r))"
  using cache_ok_GetPod(1) [OF assms, of ns n] by (simp add: table_def split: option.splits)

text \<open>
  C24: the key of a pod joins its namespace and its name with a dash, so two pods can have the same one.  Then the
  second pod is taken for the first: Virtual Kubelet, asking for it, is given the first; updating it puts it in
  the first one's place; and deleting the first one, when that succeeds, makes the second unknown.
\<close>

theorem clashing_keys_mix_pods:
  assumes "cache_ok s" and "pods_at s r1 = Some p1" and "pods_at s r2 = Some p2"
    and "pod_key p1 = pod_key p2" and "table s (pod_key p1) = Some r1"
  shows "GetPod (Namespace p2) (PodName p2) s = (s, Ret (Inr r1)) \<and>
    (\<exists>t. UpdatePod r2 s = (t, Ret None) \<and> GetPod (Namespace p1) (PodName p1) t = (t, Ret (Inr r2)) \<and>
      (\<forall>u. DeletePod pf r1 t = (u, Ret None) \<longrightarrow> (\<exists>e. GetPod (Namespace p2) (PodName p2) u = (u, Ret (Inl (NotFoundError e))))))"
proof -
  obtain m mp where m: "pods s = Some m" "lookup m (pod_key p2) = Some mp" "cache_view s = lookup m"
    using assms(1,4,5) by (auto simp: cache_ok_def table_def elim: cache_goodE)
  then obtain me where "metapods_at s mp = Some me"
    using assms(1) unfolding cache_ok_def entry_ok_def by metis
  from UpdatePod_run [OF assms(3) m(1,2) this] obtain t where t: "UpdatePod r2 s = (t, Ret None)"
    and pods: "pods_at t = pods_at s" by auto
  have ok: "cache_ok t" by (rule keeps_Ret [OF ok_UpdatePod t assms(1)])
  have T: "table t = (table s)(pod_key p2 \<mapsto> r2)" using UpdatePod_table [OF t assms(1,3)] by simp
  have "\<exists>e. GetPod (Namespace p2) (PodName p2) u = (u, Ret (Inl (NotFoundError e)))"
    if u: "DeletePod pf r1 t = (u, Ret None)" for u
  proof -
    have "pods_at t r1 = Some p1" using pods assms(2) by simp
    from DeletePod_table [OF u ok this] have "table u (pod_key p2) = None" using assms(4) by simp
    then show ?thesis
      using GetPod_table [OF keeps_Ret [OF ok_DeletePod u ok], of "Namespace p2" "PodName p2"]
      by (simp add: pod_key_def)
  qed
  then show ?thesis
    using GetPod_table [OF assms(1), of "Namespace p2" "PodName p2"] GetPod_table [OF ok, of "Namespace p1" "PodName p1"]
      t T assms(4,5) by (auto simp: pod_key_def)
qed

definition first_pod :: pod where
  "first_pod = sample_pod\<lparr>Namespace := ''team'', PodName := ''a-web''\<rparr>"

definition second_pod :: pod where
  "second_pod = sample_pod\<lparr>Namespace := ''team-a'', PodName := ''web''\<rparr>"

text \<open>A provider that runs the first pod and is asked about the second.\<close>

definition clash_state :: "unit prov" where
  "clash_state = (sample_prov () (assign (pod_key first_pod) 2 make_map))\<lparr>
     pods_at := [0 \<mapsto> first_pod, 1 \<mapsto> second_pod],
     metapods_at := [2 \<mapsto> \<lparr>mp_pod = 0, mp_monitor = Some 3, mp_notifier = None\<rparr>],
     podmons_at := [3 \<mapsto> new_podmon sample_config 0 1 4],
     monitors_at := [4 \<mapsto> new_watcher 0 0 SubjectVkvma ''vkvma.watch'' HealthWatch,
       5 \<mapsto> new_watcher 0 0 SubjectApp ''app.watch'' ApplicationWatch],
     fresh_ref := 6\<rparr>"

lemma clash_state_ok:
  "cache_ok clash_state" "table clash_state (pod_key first_pod) = Some 0" "pod_key first_pod = pod_key second_pod"
proof -
  have view: "cache_view clash_state = [pod_key first_pod \<mapsto> 2]"
    by (simp add: clash_state_def cache_view_def lookup_maps(1) [OF gm.ok_empty] gm.look_empty fun_eq_iff)
  have "go_map_ok (assign (pod_key first_pod) (2::nat) make_map)"
    by (rule gm.ok_put [OF gm.ok_empty])
  then have "fresh_ok clash_state" "cache_good clash_state" "entry_ok clash_state (pod_key first_pod) 2"
    by (simp_all add: clash_state_def fresh_ok_def cache_good_def entry_ok_def podmon_complete_def new_podmon_def)
  then show "cache_ok clash_state" by (simp add: cache_ok_def view split: if_splits)
  show "table clash_state (pod_key first_pod) = Some 0"
    unfolding table_def view listed_ref_def by (simp add: clash_state_def)
  show "pod_key first_pod = pod_key second_pod"
    by (simp add: pod_key_def first_pod_def second_pod_def GetPodCacheKey_def)
qed

theorem clashing_keys_mix_pods_witness:
  "\<exists>t. GetPod ''team-a'' ''web'' clash_state = (clash_state, Ret (Inr 0)) \<and>
    UpdatePod 1 clash_state = (t, Ret None) \<and> GetPod ''team'' ''a-web'' t = (t, Ret (Inr 1))"
proof -
  have "pods_at clash_state 0 = Some first_pod" "pods_at clash_state 1 = Some second_pod"
    by (simp_all add: clash_state_def)
  moreover have "Namespace first_pod = ''team''" "PodName first_pod = ''a-web''" "Namespace second_pod = ''team-a''"
    "PodName second_pod = ''web''"
    by (simp_all add: first_pod_def second_pod_def)
  ultimately show ?thesis
    using clashing_keys_mix_pods [OF clash_state_ok(1) _ _ clash_state_ok(3,2), of 1] by auto
qed

end
