(* ===== verification/Provider_Threads.thy ===== *)
theory Provider_Threads
  imports Provider_Refinement
begin

text \<open>
  The worker goroutines of Virtual Kubelet.  It calls the provider from several of them at once, but never has
  two calls for one pod in flight; everything else interleaves.  A call is here a thread, a sequence of atomic
  blocks, one for each statement of the source that has effects.  The blocks of a thread run one after another
  are the call (\<open>exec\<close>); interleaved with those of other threads and with the background they still refine the
  table of pods, as if every call had happened at the moment it returned.  The proof is by rely and guarantee:
  a thread changes the cache at its own key only, and relies on the others to leave that key alone.
\<close>

section \<open>Threads\<close>

datatype ('s, 'a) thread = Finished 'a | Block "'s \<Rightarrow> 's \<times> ('s, 'a) thread outcome"

definition do_then :: "('s, 'b) go \<Rightarrow> ('b \<Rightarrow> ('s, 'a) thread) \<Rightarrow> ('s, 'a) thread" where
  "do_then m f = Block (andthen m (\<lambda>b. ret (f b)))"

text \<open>All blocks of a thread, with nothing in between.\<close>

primrec exec :: "('s, 'a) thread \<Rightarrow> ('s, 'a) go" where
  "exec (Finished a) = ret a"
| "exec (Block m) = (\<lambda>s. case (map_prod id (map_outcome exec) \<circ> m) s of
     (t, Ret rest) \<Rightarrow> rest t | (t, Crash c) \<Rightarrow> (t, Crash c))"

lemma exec_do_then: "exec (do_then m f) = andthen m (\<lambda>b. exec (f b))"
  by (rule ext) (auto simp: do_then_def andthen_run ret_run split: prod.splits outcome.splits)

declare exec.simps(2) [simp del] exec_do_then [simp]

section \<open>The calls as threads\<close>

definition clean_up_then ::
  "('w, 'e) platform_scheme \<Rightarrow> pod_ref \<Rightarrow> (('w, 'z) prov_scheme, 'a) thread \<Rightarrow> (('w, 'z) prov_scheme, 'a) thread" where
  "clean_up_then pf r rest =
     do_then (DeleteCompute pf r) (\<lambda>_.
     do_then (andthen (load_pod r) (\<lambda>pod. Delete (GetPodCacheKey (Namespace pod) (PodName pod)))) (\<lambda>_.
     rest))"

definition launchApplication_then ::
  "('w, 'e) platform_scheme \<Rightarrow> pod_ref \<Rightarrow> (go_error option \<Rightarrow> (('w, 'z) prov_scheme, 'a) thread) \<Rightarrow>
   (('w, 'z) prov_scheme, 'a) thread" where
  "launchApplication_then pf r rest =
     do_then (andthen (load_pod r) (\<lambda>pod.
       andthen Config (\<lambda>cfg.
       NewVkvmaClient (PodIP (Status pod)) (Port (VKVMAgentConnectionConfig cfg))))) (\<lambda>vkvmaClient.
     do_then (GetApplicationLifecycleClient pf vkvmaClient) (\<lambda>(_, appClient). case appClient of
       Inl err \<Rightarrow>
         do_then (Inc GRPCAppClientErrors) (\<lambda>_.
         clean_up_then pf r (rest (Some err)))
     | Inr client \<Rightarrow>
         do_then (andthen (load_pod r) (\<lambda>pod. rpc client (\<lambda>c. rpc_LaunchApplication pf c pod))) (\<lambda>err. case err of
           Some e \<Rightarrow> clean_up_then pf r (rest (Some e))
         | None \<Rightarrow> rest None)))"

text \<open>The new \<open>MetaPod\<close> belongs to its thread until it is put into the cache, so both are one block.\<close>

definition CreatePod_thread ::
  "('w, 'e) platform_scheme \<Rightarrow> 'w Ec2Provider \<Rightarrow> pod_ref \<Rightarrow> (('w, 'z) prov_scheme, go_error option) thread" where
  "CreatePod_thread pf p r =
     do_then (load_pod r) (\<lambda>pod.
     do_then (NewPodMonitor r (defaultHandler p)) (\<lambda>mon. case mon of
       Inl err \<Rightarrow> Finished (Some err)
     | Inr podMonitor \<Rightarrow>
         (let podKey = GetPodCacheKey (Namespace pod) (PodName pod) in
          do_then (andthen (gets podNotifier) (\<lambda>notifier.
            andthen (NewMetaPod r (Some podMonitor) notifier) (\<lambda>metaPod. Set podKey metaPod))) (\<lambda>_.
          do_then (GetCompute pf p r) (\<lambda>compute. case compute of
            Inl err \<Rightarrow> do_then (Delete podKey) (\<lambda>_. Finished (Some err))
          | Inr (instanceID, privateIP) \<Rightarrow>
              do_then (update_pod r (\<lambda>p. p\<lparr>Status :=
                (Status p)\<lparr>PodIP := privateIP, HostIP := privateIP\<rparr>\<rparr>)) (\<lambda>_.
              launchApplication_then pf r (\<lambda>launchErr. case launchErr of
                Some err \<Rightarrow> do_then (Inc LaunchApplicationErrors) (\<lambda>_. Finished (Some err))
              | None \<Rightarrow>
                  do_then (andthen (load_pod r) (\<lambda>pod.
                    if PodIsWarmPool pod (length (wpm_config (warmPool p)))
                    then updateEC2Tags (warmPool p) instanceID ''set_in_use'' pod
                    else ret None)) (\<lambda>tagErr. case tagErr of
                    Some err \<Rightarrow> Finished (Some err)
                  | None \<Rightarrow>
                      do_then (Start podMonitor) (\<lambda>_.
                      do_then (andthen (gets podNotifier) (\<lambda>notifier. call_notifier notifier r)) (\<lambda>_.
                      do_then (Inc PodsLaunched) (\<lambda>_. Finished None)))))))))))"

definition UpdatePod_thread :: "pod_ref \<Rightarrow> (('w, 'z) prov_scheme, go_error option) thread" where
  "UpdatePod_thread r =
     do_then (load_pod r) (\<lambda>pod.
     (let podKey = GetPodCacheKey (Namespace pod) (PodName pod) in
      do_then (Get podKey) (\<lambda>metaPod. case metaPod of
        None \<Rightarrow> Finished (Some (ErrorString (''Can't find cache member with key '' @ podKey @ '' to update'')))
      | Some mpr \<Rightarrow>
          do_then (andthen (load_metapod mpr) (\<lambda>mp. store_metapod mpr (mp\<lparr>mp_pod := r\<rparr>))) (\<lambda>_.
          do_then (Set podKey mpr) (\<lambda>_. Finished None)))))"

definition DeletePod_thread ::
  "('w, 'e) platform_scheme \<Rightarrow> pod_ref \<Rightarrow> (('w, 'z) prov_scheme, go_error option) thread" where
  "DeletePod_thread pf r =
     do_then (load_pod r) (\<lambda>pod.
     (let podKey = GetPodCacheKey (Namespace pod) (PodName pod) in
      do_then (Get podKey) (\<lambda>metaPod.
      do_then (stopPodMonitor metaPod) (\<lambda>stopErr. case stopErr of
        Some err \<Rightarrow> do_then (deref metaPod) (\<lambda>_. Finished (Some err))
      | None \<Rightarrow>
          do_then (terminateApp pf metaPod) (\<lambda>appErr.
          do_then (if appErr \<noteq> None then Inc TerminateApplicationErrors else ret ()) (\<lambda>_.
          do_then (DeleteCompute pf r) (\<lambda>computeErr. case computeErr of
            Some err \<Rightarrow> do_then (deref metaPod) (\<lambda>_. Finished (Some err))
          | None \<Rightarrow>
              do_then (Delete podKey) (\<lambda>_.
              do_then Now (\<lambda>now.
              do_then (update_pod r (\<lambda>p. p\<lparr>Status := terminate_status
                (terminated_state ''EC2 Provider terminated container upon deletion''
                   ''ProviderPodContainerDeleted'' now) (Status p)\<rparr>)) (\<lambda>_.
              do_then (notifyPodDelete r) (\<lambda>_.
              Finished None)))))))))))"

lemma exec_cases [simp]:
  "exec (case x of Inl e \<Rightarrow> f e | Inr b \<Rightarrow> g b) = (case x of Inl e \<Rightarrow> exec (f e) | Inr b \<Rightarrow> exec (g b))"
  "exec (case y of None \<Rightarrow> m | Some c \<Rightarrow> h c) = (case y of None \<Rightarrow> exec m | Some c \<Rightarrow> exec (h c))"
  "exec (case z of (d, e) \<Rightarrow> q d e) = (case z of (d, e) \<Rightarrow> exec (q d e))"
  by (simp_all split: sum.splits option.splits prod.splits)

lemma andthen_cases:
  "andthen (case x of Inl e \<Rightarrow> f e | Inr b \<Rightarrow> g b) k = (case x of Inl e \<Rightarrow> andthen (f e) k | Inr b \<Rightarrow> andthen (g b) k)"
  "andthen (case y of None \<Rightarrow> m | Some c \<Rightarrow> h c) k = (case y of None \<Rightarrow> andthen m k | Some c \<Rightarrow> andthen (h c) k)"
  "andthen (case z of (d, e) \<Rightarrow> q d e) k = (case z of (d, e) \<Rightarrow> andthen (q d e) k)"
  by (simp_all split: sum.splits option.splits prod.splits)

lemma exec_launch:
  "exec (launchApplication_then pf r rest) = andthen (launchApplication pf r) (\<lambda>e. exec (rest e))"
  unfolding launchApplication_then_def launchApplication_def clean_up_then_def clean_up_def
  by (simp add: andthen_assoc andthen_cases cong: sum.case_cong option.case_cong prod.case_cong)

text \<open>
  Without interleaving the threads are the calls: running all blocks of a thread one after another changes
  the state and returns, or crashes, exactly as the call.
\<close>

lemma exec_calls:
  "exec (CreatePod_thread pf p r) = CreatePod pf p r"
  "exec (UpdatePod_thread r) = UpdatePod r"
  "exec (DeletePod_thread pf r) = DeletePod pf r"
  unfolding CreatePod_thread_def CreatePod_def UpdatePod_thread_def UpdatePod_def DeletePod_thread_def DeletePod_def
  by (simp_all add: andthen_assoc andthen_cases exec_launch Let_def cache_UpdatePod_def write_back_def
      cong: sum.case_cong option.case_cong prod.case_cong)

section \<open>Operations that leave the cache alone, in any good state\<close>

lemma extends_trans: "extends s t \<Longrightarrow> extends t u \<Longrightarrow> extends s u"
  unfolding extends_def by (intro conjI allI impI; (blast | metis (no_types, lifting) PodMonitor.surjective PodMonitor.update_convs(5)))

definition still :: "(('w, 'z) prov_scheme, 'a) go \<Rightarrow> bool" where
  "still m \<longleftrightarrow> (\<forall>s t x. cache_ok s \<longrightarrow> m s = (t, x) \<longrightarrow> cache_ok t \<and> extends s t \<and> cache_part t = cache_part s)"

named_theorems still_intro

lemma stillI:
  "keeps cache_ok m \<Longrightarrow> quiet m \<Longrightarrow> (\<And>s t x. cache_ok s \<Longrightarrow> m s = (t, x) \<Longrightarrow> extends s t) \<Longrightarrow> still m"
  unfolding still_def by (blast intro: keeps_Ret quietD)

lemma stillD:
  "still m \<Longrightarrow> cache_ok s \<Longrightarrow> m s = (t, x) \<Longrightarrow> cache_ok t \<and> extends s t \<and> cache_part t = cache_part s"
  unfolding still_def by blast

lemma framed_still: "framed m \<Longrightarrow> still m"
proof (rule stillI [OF framed_ok framed_quiet])
  fix s t :: "('a, 'b) prov_scheme" and x
  assume "framed m" "m s = (t, x)"
  then have "frame t = frame s" by (rule framedD)
  from frame_fields [OF this] show "extends s t" by (simp add: extends_def)
qed

lemma still_andthen [still_intro]:
  assumes "still m" and "\<And>a. still (f a)"
  shows "still (andthen m f)"
  unfolding still_def
proof (intro allI impI)
  fix s u x
  assume s: "cache_ok s" and run: "andthen m f s = (u, x)"
  obtain t y where t: "m s = (t, y)" by (cases "m s")
  note first = stillD [OF assms(1) s t]
  show "cache_ok u \<and> extends s u \<and> cache_part u = cache_part s"
  proof (cases y)
    case (Ret a)
    then have "f a t = (u, x)" using run t by (simp add: andthen_run)
    from stillD [OF assms(2) _ this] first show ?thesis by (auto intro: extends_trans)
  next
    case (Crash c)
    then show ?thesis using first run t by (simp add: andthen_run)
  qed
qed

lemma still_ret: "still (ret a)" "still (die c)"
  by (simp_all add: still_def ret_run die_run)

lemma still_loops [still_intro]:
  "(\<And>x. still (g x)) \<Longrightarrow> still (for_each g xs)" "(\<And>x. still (h x)) \<Longrightarrow> still (collect h xs)"
  by (induction xs) (auto intro!: still_andthen still_ret)

lemma still_cases [still_intro]:
  "(b \<Longrightarrow> still m) \<Longrightarrow> (\<not> b \<Longrightarrow> still n) \<Longrightarrow> still (if b then m else n)"
  "(\<And>e. still (f e)) \<Longrightarrow> (\<And>a. still (g a)) \<Longrightarrow> still (case x of Inl e \<Rightarrow> f e | Inr a \<Rightarrow> g a)"
  "still m' \<Longrightarrow> (\<And>a. still (k a)) \<Longrightarrow> still (case y of None \<Rightarrow> m' | Some a \<Rightarrow> k a)"
  "(\<And>a b. still (h a b)) \<Longrightarrow> still (case z of (a, b) \<Rightarrow> h a b)"
  "still u \<Longrightarrow> still v \<Longrightarrow> still w \<Longrightarrow>
    still (case st of MonitoringStateUnknown \<Rightarrow> u | MonitoringStateHealthy \<Rightarrow> v | MonitoringStateUnhealthy \<Rightarrow> w)"
  "still u \<Longrightarrow> still v \<Longrightarrow> still w \<Longrightarrow>
    still (case sub of SubjectUnknown \<Rightarrow> u | SubjectVkvma \<Rightarrow> v | SubjectApp \<Rightarrow> w)"
  "still u \<Longrightarrow> (\<And>x. still (pst x)) \<Longrightarrow> still v \<Longrightarrow>
    still (case d of NoData \<Rightarrow> u | PodStatusData x \<Rightarrow> pst x | HealthResponseData \<Rightarrow> v)"
  "still u \<Longrightarrow> (\<And>k. still (str k)) \<Longrightarrow> still v \<Longrightarrow>
    still (case stream of NilStream \<Rightarrow> u | OpenStream k \<Rightarrow> str k | OtherStream \<Rightarrow> v)"
  "(\<And>x. still (f1 x)) \<Longrightarrow> (\<And>x. still (f2 x)) \<Longrightarrow> (\<And>x. still (f3 x)) \<Longrightarrow> still v \<Longrightarrow>
    still (case i of Opened x \<Rightarrow> f1 x | RecvError x \<Rightarrow> f2 x | RecvResponse x \<Rightarrow> f3 x | Elapsed \<Rightarrow> v)"
  by (auto split: sum.split option.split prod.split MonitoringState.split Subject.split check_data.split
      stream.split input.split)

lemma still_modify:
  assumes "keeps cache_ok (modify f)" and "quiet (modify f)" and "\<And>s. cache_ok s \<Longrightarrow> extends s (f s)"
  shows "still (modify f)"
  by (rule stillI [OF assms(1,2)]) (use assms(3) in \<open>auto simp: modify_run\<close>)

lemma still_ops [still_intro]:
  "still (store_monitor r mon)" "still (store_handler r h)"
  "still (modify (\<lambda>s. s\<lparr>fresh_ref := Suc (fresh_ref s)\<rparr>))"
  "still (modify (\<lambda>s. s\<lparr>cancelled_ctxs := ctx # cancelled_ctxs s\<rparr>))"
  "still (modify (\<lambda>s. s\<lparr>podNotifier := f\<rparr>))" "still (modify (\<lambda>s. s\<lparr>utilsNotifier := f\<rparr>))"
  "still (modify (\<lambda>s. s\<lparr>notified := ns s\<rparr>))"
  by (rule stillI, rule ok_intro, (rule quiet_ops | rule quiet_modify, simp add: cache_part_def),
      auto simp: store_runs modify_run intro: extends_podmons)+

lemma still_reads [still_intro]:
  "still new_ref" "still (load_monitor r)" "still (load_handler r)" "still (load_podmon r)" "still (load_metapod p)"
  "still (SetNotifier f)" "still GetNotifier" "still the_cache" "still (Get key)" "still (call_notifier f r)"
  "still (ctx_done ctx)"
proof -
  show "still new_ref"
    by (rule stillI [OF ok_new_ref quiet_reads(1)]) (auto simp: new_ref_run intro: extends_podmons)
qed (unfold load_monitor_def load_handler_def load_podmon_def load_metapod_def SetNotifier_def
    GetNotifier_def the_cache_def Get_def call_notifier_def ctx_done_def, (rule still_intro framed_still framed_intro)+)

text \<open>Starting a pod monitor stores its cancel function.\<close>

lemma still_set_cancel:
  assumes "\<And>pm. still (g pm)"
  shows "still (andthen (load_podmon r) (\<lambda>pm. andthen (store_podmon r (pm\<lparr>pm_cancel := c\<rparr>)) (\<lambda>_. g pm)))"
  unfolding still_def
proof (intro allI impI)
  fix s t :: "('a, 'b) prov_scheme" and x
  assume ok: "cache_ok s"
    and run: "andthen (load_podmon r) (\<lambda>pm. andthen (store_podmon r (pm\<lparr>pm_cancel := c\<rparr>)) (\<lambda>_. g pm)) s = (t, x)"
  show "cache_ok t \<and> extends s t \<and> cache_part t = cache_part s"
  proof (cases "podmons_at s r")
    case None
    then show ?thesis using ok run by (auto simp: load_podmon_def andthen_run gets_run deref_def die_run)
  next
    case (Some pm)
    let ?t = "s\<lparr>podmons_at := (podmons_at s)(r \<mapsto> pm\<lparr>pm_cancel := c\<rparr>)\<rparr>"
    have ext: "extends s ?t" using Some by (auto simp: extends_def)
    moreover have "fresh_ok ?t" using ok Some by (auto simp: cache_ok_def fresh_ok_def)
    ultimately have "cache_ok ?t" by (intro cache_ok_extends [OF ok]) simp_all
    moreover have "g pm ?t = (t, x)" using Some run by (simp add: andthen_run load_podmon_run store_runs)
    ultimately have "cache_ok t \<and> extends ?t t \<and> cache_part t = cache_part ?t" by (rule stillD [OF assms])
    moreover have "cache_part ?t = cache_part s" by (simp add: cache_part_def)
    ultimately show ?thesis using extends_trans [OF ext] by simp
  qed
qed

lemma still_monitors [still_intro]:
  "still (Start pm)" "still (Stop pm)" "still (stop_and_exit r)" "still (stopPodMonitor mp)"
  "still (NewCheckResult r failed message data)"
  unfolding Start_def receive_def Run_def Stop_def stop_receiver_def stop_monitor_def stop_and_exit_def
    stopPodMonitor_def NewCheckResult_def incrementFailures_def resetFailures_def
  by (rule still_set_cancel still_intro framed_still framed_intro)+

lemma still_calls [still_intro]:
  "still (notifyPodDelete r)" "still (handlePodStatusUpdate r st)" "still (NotifyPods f)" "still GetPods"
  "still (status_tick prev)" "still (handleCheckResult result)"
  unfolding notifyPodDelete_def handlePodStatusUpdate_def NotifyPods_def GetPods_def GetPodList_def status_tick_def
    GetList_def monitor_states_def handleCheckResult_def getState_def
  by (rule still_intro framed_still framed_intro)+

lemma still_turn [still_intro]: "still (turn (\<lambda>_. die NilFuncCall) r ctx i pc)"
  by (cases pc; simp only: turn_simps watch_top_def watch_select_def watch_recv_def check_top_def)
    (rule still_intro framed_still framed_intro)+

lemma background_extends: "background_step pf prov s t \<Longrightarrow> cache_ok s \<Longrightarrow> extends s t"
proof (induction rule: background_step.induct)
  case (own s t)
  then show ?case
  proof (induction rule: own_step.induct)
    case (arrives s r p)
    then show ?case by (auto simp: extends_def pod_names_def)
  qed (drule stillD [rotated 2], (rule still_intro framed_still framed_intro)+, assumption, blast)+
next
  case (passes s w c cs)
  show ?case by (rule extends_podmons) simp_all
qed

lemma background_view: "background_step pf prov s t \<Longrightarrow> cache_ok s \<Longrightarrow> cache_view t = cache_view s"
proof -
  have still: "cache_view t = cache_view s" if "still m" "cache_ok s" "m s = (t, x)"
    for m :: "(('a, 'c) prov_scheme, 'd) go" and s t x
    using stillD [OF that] by (simp add: cache_part_def cache_view_def)
  show "background_step pf prov s t \<Longrightarrow> cache_ok s \<Longrightarrow> cache_view t = cache_view s"
  proof (induction rule: background_step.induct)
    case (own s t)
    then show ?case
    proof (induction rule: own_step.induct)
      case (arrives s r p)
      show ?case by (simp add: cache_view_def)
    qed (drule still [rotated 2], (rule still_intro framed_still framed_intro)+, assumption, blast)+
  next
    case (passes s w c cs)
    show ?case by (simp add: cache_view_def)
  qed
qed

end
