(* ===== verification/Provider_Interleaved.thy ===== *)
theory Provider_Interleaved
  imports Provider_Threads
begin

text \<open>
  Calls in flight at the same time, as Virtual Kubelet's workers make them.  The locale \<open>interference\<close> is what
  threads promise and rely on; its interpretation says so of the provider's cache.  From it follows that every
  interleaving of calls, of their blocks and of the background refines the table of pods.
\<close>

section \<open>Rely and guarantee\<close>

text \<open>
  A thread that, wherever others leave the state according to \<open>R\<close>, changes it according to \<open>G\<close> only, and
  finishes with what \<open>Q\<close> says.
\<close>

inductive safe ::
  "('s \<Rightarrow> 's \<Rightarrow> bool) \<Rightarrow> ('s \<Rightarrow> 's \<Rightarrow> bool) \<Rightarrow> ('a \<Rightarrow> 's \<Rightarrow> bool) \<Rightarrow> ('s, 'a) thread \<Rightarrow> 's \<Rightarrow> bool" for R G Q where
  safe_finished: "(\<forall>t. R s t \<longrightarrow> Q a t) \<Longrightarrow> safe R G Q (Finished a) s"
| safe_block: "(\<forall>t u rest. R s t \<longrightarrow> m t = (u, Ret rest) \<longrightarrow> G t u \<and> safe R G Q rest u) \<Longrightarrow> safe R G Q (Block m) s"

inductive_cases safe_finishedE: "safe R G Q (Finished a) s"
inductive_cases safe_blockE: "safe R G Q (Block m) s"

locale interference =
  fixes rely guar :: "'k \<Rightarrow> 's \<Rightarrow> 's \<Rightarrow> bool"
  assumes rely_trans: "rely k s t \<Longrightarrow> rely k t u \<Longrightarrow> rely k s u"
    and guar_rely: "k \<noteq> k' \<Longrightarrow> guar k s t \<Longrightarrow> rely k' s t"
begin

lemma safe_rely:
  assumes "safe (rely k) G Q T s" and "rely k s t"
  shows "safe (rely k) G Q T t"
proof (cases T)
  case (Finished a)
  then show ?thesis using assms rely_trans by (auto intro!: safe_finished elim!: safe_finishedE)
next
  case (Block m)
  then have "rely k s u \<Longrightarrow> m u = (v, Ret rest) \<Longrightarrow> G u v \<and> safe (rely k) G Q rest v" for u v rest
    using assms(1) by (blast elim: safe_blockE)
  then show ?thesis unfolding Block using rely_trans [OF assms(2)] by (intro safe_block) blast
qed

text \<open>A step of one thread leaves the threads at all other keys safe.\<close>

lemma safe_others: "safe (rely k') G Q T s \<Longrightarrow> k \<noteq> k' \<Longrightarrow> guar k s t \<Longrightarrow> safe (rely k') G Q T t"
  using safe_rely guar_rely by blast

end

text \<open>What the cache shows at a key, and how the heaps may grow.\<close>

definition rely :: "string \<Rightarrow> ('w, 'z) prov_scheme \<Rightarrow> ('w, 'z) prov_scheme \<Rightarrow> bool" where
  "rely k s t \<longleftrightarrow> cache_ok t \<and> extends s t \<and> cache_view t k = cache_view s k \<and> table t k = table s k"

definition guar :: "string \<Rightarrow> ('w, 'z) prov_scheme \<Rightarrow> ('w, 'z) prov_scheme \<Rightarrow> bool" where
  "guar k s t \<longleftrightarrow> (\<forall>k'. k' \<noteq> k \<longrightarrow> rely k' s t) \<and> cache_ok t \<and> extends s t"

interpretation vk: interference rely guar
  by unfold_locales (auto simp: rely_def guar_def intro: extends_trans)

abbreviation safe_at ::
  "string \<Rightarrow> ('a \<Rightarrow> pod_ref option \<Rightarrow> bool) \<Rightarrow> (('w, 'z) prov_scheme, 'a) thread \<Rightarrow> ('w, 'z) prov_scheme \<Rightarrow> bool" where
  "safe_at k Q \<equiv> safe (rely k) (guar k) (\<lambda>a s. Q a (table s k))"

definition stable :: "string \<Rightarrow> (('w, 'z) prov_scheme \<Rightarrow> bool) \<Rightarrow> bool" where
  "stable k P \<longleftrightarrow> (\<forall>s t. P s \<longrightarrow> rely k s t \<longrightarrow> P t)"

lemma stableD: "stable k P \<Longrightarrow> P s \<Longrightarrow> rely k s t \<Longrightarrow> P t"
  unfolding stable_def by blast

definition named :: "pod_ref \<Rightarrow> string \<Rightarrow> ('w, 'z) prov_scheme \<Rightarrow> bool" where
  "named r k s \<longleftrightarrow> (\<exists>p. pods_at s r = Some p \<and> pod_key p = k)"

named_theorems stable_intro

lemma stable_rules [stable_intro]:
  "stable k (\<lambda>s. P (table s k))" "stable k (\<lambda>s. P (cache_view s k))"
  "stable k A \<Longrightarrow> stable k B \<Longrightarrow> stable k (\<lambda>s. A s \<and> B s)"
  by (auto simp: stable_def rely_def)

lemma stable_named [stable_intro]: "stable k (named r k')"
  unfolding stable_def rely_def extends_def named_def
  by (fastforce simp: pod_names_def pod_key_def)

lemma stable_podmon [stable_intro]: "stable k (\<lambda>s. \<exists>pmon. podmon_complete s pm pmon)"
  unfolding stable_def rely_def using podmon_complete_extends by blast

lemma still_guar:
  assumes "still m" and "cache_ok s" and "m s = (t, x)"
  shows "guar k s t" and "rely k s t"
proof -
  have t: "cache_ok t" "extends s t" "cache_part t = cache_part s" using stillD [OF assms] by simp_all
  then have "table t = table s" "cache_view t = cache_view s"
    using quiet_table [OF t(3)] by (simp_all add: cache_part_def cache_view_def)
  then show "guar k s t" "rely k s t" using t by (simp_all add: guar_def rely_def)
qed

section \<open>Rules for threads\<close>

lemma safe_Finished: "Q a (table s k) \<Longrightarrow> safe_at k Q (Finished a) s"
  by (rule safe_finished) (simp add: rely_def)

text \<open>Branches, with the state left as it is.\<close>

lemma safe_cases:
  "(\<And>e. safe R G Q (f e) s) \<Longrightarrow> (\<And>a. safe R G Q (g a) s) \<Longrightarrow> safe R G Q (case x of Inl e \<Rightarrow> f e | Inr a \<Rightarrow> g a) s"
  "safe R G Q m s \<Longrightarrow> (\<And>b. safe R G Q (h b) s) \<Longrightarrow> safe R G Q (case y of None \<Rightarrow> m | Some b \<Rightarrow> h b) s"
  "(\<And>c d. safe R G Q (q c d) s) \<Longrightarrow> safe R G Q (case z of (c, d) \<Rightarrow> q c d) s"
  by (simp_all split: sum.split option.split prod.split)

lemma safe_do_then:
  assumes "stable k P" and "P s"
    and "\<And>t u b. cache_ok t \<Longrightarrow> P t \<Longrightarrow> m t = (u, Ret b) \<Longrightarrow> guar k t u \<and> safe_at k Q (f b) u"
  shows "safe_at k Q (do_then m f) s"
  unfolding do_then_def
proof (rule safe_block, intro allI impI)
  fix t u rest
  assume t: "rely k s t" and run: "andthen m (\<lambda>b. ret (f b)) t = (u, Ret rest)"
  from run obtain b where b: "m t = (u, Ret b)" "rest = f b" by (auto elim!: andthen_RetE simp: ret_run)
  show "guar k t u \<and> safe_at k Q rest u"
    using assms(3) [OF _ stableD [OF assms(1,2) t] b(1)] t b(2) by (simp add: rely_def)
qed

lemma safe_still:
  assumes "still m" and "stable k P" and "P s"
    and "\<And>u b. P u \<Longrightarrow> safe_at k Q (f b) u"
  shows "safe_at k Q (do_then m f) s"
proof (rule safe_do_then [OF assms(2,3)])
  fix t u b
  assume t: "cache_ok t" "P t" "m t = (u, Ret b)"
  show "guar k t u \<and> safe_at k Q (f b) u"
    using still_guar [OF assms(1) t(1,3), of k] assms(4) stableD [OF assms(2) t(2)] by blast
qed

lemma safe_load_pod:
  assumes "stable k P" and "P s" and "named r k s"
    and "\<And>u pod. P u \<Longrightarrow> named r k u \<Longrightarrow> pod_key pod = k \<Longrightarrow> safe_at k Q (f pod) u"
  shows "safe_at k Q (do_then (load_pod r) f) s"
proof (rule safe_do_then [where P = "\<lambda>s. P s \<and> named r k s"])
  fix t u b
  assume t: "cache_ok t" "P t \<and> named r k t" "load_pod r t = (u, Ret b)"
  then have "u = t" "pod_key b = k" by (auto simp: named_def load_pod_run)
  then show "guar k t u \<and> safe_at k Q (f b) u"
    using assms(4) t by (simp add: guar_def rely_def)
qed (use assms in \<open>auto intro: stable_intro\<close>)

lemma Delete_guar:
  assumes "cache_ok s" and "Delete k s = (t, Ret x)"
  shows "guar k s t" and "table t k = None"
proof -
  obtain m where m: "pods s = Some m" "go_map_ok m" "cache_view s = lookup m"
    using assms(1) by (auto simp: cache_ok_def elim: cache_goodE)
  have t: "t = s\<lparr>pods := Some (delete_key k m)\<rparr>" using assms(2) Delete_run [OF m(1)] by simp
  have "cache_ok t" by (rule keeps_Ret [OF ok_Delete assms(2,1)])
  moreover have "extends s t" unfolding t by (rule extends_podmons) simp_all
  moreover have view: "cache_view t = (cache_view s)(k := None)"
    using m lookup_maps(2) [OF m(2)] by (simp add: t cache_view_def)
  moreover have "table t = (table s)(k := None)" by (rule table_delete [OF view]) (simp add: t)
  ultimately show "guar k s t" "table t k = None" by (simp_all add: guar_def rely_def)
qed

lemma safe_Delete:
  fixes s :: "('w, 'z) prov_scheme"
  assumes "\<And>u. table u k = None \<Longrightarrow> safe_at k Q (f ()) u"
  shows "safe_at k Q (do_then (Delete k) f) s"
proof (rule safe_do_then [where P = "\<lambda>_. True"])
  fix t u :: "('w, 'z) prov_scheme" and b
  assume t: "cache_ok t" "Delete k t = (u, Ret b)"
  then show "guar k t u \<and> safe_at k Q (f b) u" using Delete_guar [OF t] assms by simp
qed (simp_all add: stable_def)

section \<open>The calls\<close>

text \<open>What a call may do to the pod at its key: the specification at one key.\<close>

fun spec_at :: "vk_call \<Rightarrow> pod_ref \<Rightarrow> go_error option \<Rightarrow> pod_ref option \<Rightarrow> pod_ref option \<Rightarrow> bool" where
  "spec_at Create r None x y \<longleftrightarrow> y = Some r"
| "spec_at Create r (Some e) x y \<longleftrightarrow> y = None \<or> y = Some r"
| "spec_at Recreate r err x y \<longleftrightarrow> y = None \<or> y = Some r"
| "spec_at Update r None x y \<longleftrightarrow> x \<noteq> None \<and> y = Some r"
| "spec_at Update r (Some e) x y \<longleftrightarrow> x = None \<and> y = None"
| "spec_at Remove r None x y \<longleftrightarrow> x \<noteq> None \<and> y = None"
| "spec_at Remove r (Some e) x y \<longleftrightarrow> x \<noteq> None \<and> y = x"

lemma spec_at_step: "spec_at c r err (T k) y \<Longrightarrow> spec_step c r k err T (T(k := y))"
  by (induction c r err "T k" y rule: spec_at.induct) auto

lemma safe_clean_up:
  assumes "named r k s" and "\<And>u. table u k = None \<Longrightarrow> safe_at k Q rest u"
  shows "safe_at k Q (clean_up_then pf r rest) s"
  unfolding clean_up_then_def
proof (rule safe_still [where P = "named r k"])
  fix v :: "('a, 'b) prov_scheme" and b :: "go_error option"
  assume v: "named r k v"
  show "safe_at k Q (do_then (andthen (load_pod r) (\<lambda>pod. Delete (GetPodCacheKey (Namespace pod) (PodName pod)))) (\<lambda>_. rest)) v"
  proof (rule safe_do_then [where P = "named r k"])
    fix t u :: "('a, 'b) prov_scheme" and b
    assume t: "cache_ok t" "named r k t"
      "andthen (load_pod r) (\<lambda>pod. Delete (GetPodCacheKey (Namespace pod) (PodName pod))) t = (u, Ret b)"
    then have "Delete k t = (u, Ret b)" by (auto simp: named_def andthen_load_pod pod_key_def)
    then show "guar k t u \<and> safe_at k Q rest u" using Delete_guar [OF t(1)] assms(2) by blast
  qed (rule stable_intro v)+
qed (rule stable_intro framed_still framed_intro assms(1))+

lemma safe_launch:
  assumes "named r k s \<and> table s k = Some r"
    and "\<And>u e. table u k = None \<Longrightarrow> safe_at k Q (rest (Some e)) u"
    and "\<And>u. named r k u \<and> table u k = Some r \<Longrightarrow> safe_at k Q (rest None) u"
  shows "safe_at k Q (launchApplication_then pf r rest) s"
  unfolding launchApplication_then_def
  by (rule safe_still [where P = "\<lambda>s. named r k s \<and> table s k = Some r"] stable_intro framed_still framed_intro |
      simp split: sum.split option.split prod.split add: assms | intro conjI allI impI | 
      rule safe_clean_up assms(2,3) | blast)+

lemma NewPodMonitor_guar:
  assumes "cache_ok s" and "NewPodMonitor r h s = (t, Ret x)"
  shows "guar k s t" and "\<exists>pm pmon. x = Inr pm \<and> podmon_complete t pm pmon"
proof -
  have "config s \<noteq> None"
  proof
    assume "config s = None"
    then show False using assms(2) by (simp add: NewPodMonitor_def andthen_run Config_nil)
  qed
  then obtain cfg where cfg: "config s = Some cfg" by blast
  have "handlers_at s h \<noteq> None" using assms(2) NewPodMonitor_without_handler [OF cfg, of h r] by auto
  then obtain ch where h: "handlers_at s h = Some ch" by blast
  have t: "t = with_podmon cfg r h (in_chan ch) s" "x = Inr (fresh_ref s)"
    using NewPodMonitor_run [OF cfg h] assms(2) by simp_all
  have ext: "extends s t"
    by (rule ok_allocated [OF assms(1), where pmon = "new_podmon cfg r h (Suc (fresh_ref s))"])
      (simp_all add: t with_podmon_def Let_def)
  have same: "metapods_at t = metapods_at s" "pods t = pods s" by (simp_all add: t with_podmon_def Let_def)
  have "cache_ok t"
    by (rule cache_ok_extends [OF assms(1) ext same])
      (use assms(1) in \<open>auto simp: t cache_ok_def fresh_ok_def with_podmon_def Let_def\<close>)
  then show "guar k s t" using ext same table_same [OF same] by (simp add: guar_def rely_def cache_view_def)
  show "\<exists>pm pmon. x = Inr pm \<and> podmon_complete t pm pmon"
    using h by (simp add: t podmon_complete_def with_podmon_def new_podmon_def Let_def)
qed

lemma publish_guar:
  assumes "cache_ok s" and "named r k s" and "podmon_complete s pm pmon"
    and run: "andthen (gets podNotifier) (\<lambda>notifier. andthen (NewMetaPod r (Some pm) notifier) (\<lambda>mp. Set k mp)) s = (t, Ret x)"
  shows "guar k s t" and "table t k = Some r"
proof -
  let ?mp = "fresh_ref s" and ?me = "\<lparr>mp_pod = r, mp_monitor = Some pm, mp_notifier = podNotifier s\<rparr>"
  obtain m where m: "pods s = Some m" "go_map_ok m" "cache_view s = lookup m"
    using assms(1) by (auto simp: cache_ok_def elim: cache_goodE)
  have t: "t = s\<lparr>fresh_ref := Suc ?mp, metapods_at := (metapods_at s)(?mp \<mapsto> ?me), pods := Some (assign k ?mp m)\<rparr>"
    using run m(1) by (simp add: NewMetaPod_def andthen_run gets_run new_ref_run store_metapod_run ret_run cache_runs)
  have ext: "extends s t" unfolding t by (rule extends_podmons) simp_all
  have view: "cache_view t = (cache_view s)(k \<mapsto> ?mp)"
    using lookup_maps(1) [OF m(2)] m(3) by (simp add: t cache_view_def)
  have old: "metapods_at t mp = metapods_at s mp" if "cache_view s k' = Some mp" for k' mp
    using cache_ok_below [OF assms(1) that] by (simp add: t)
  have "entry_ok t k' mp" if "cache_view t k' = Some mp" for k' mp
  proof (cases "k' = k")
    case True
    then have "mp = ?mp" using that view by simp
    then show ?thesis
      using True assms(2,3) by (auto simp: entry_ok_def named_def t podmon_complete_def)
  next
    case False
    then have "cache_view s k' = Some mp" using that view by simp
    then show ?thesis using assms(1) old entry_ok_extends [OF _ ext] by (simp add: cache_ok_def)
  qed
  moreover have "fresh_ok t" using assms(1) by (simp add: cache_ok_def fresh_ok_def t)
  ultimately have "cache_ok t" using gm.ok_put [OF m(2)] by (simp add: cache_ok_def cache_good_def t)
  moreover have "table t = (table s)(k \<mapsto> r)"
    by (rule table_put [OF view]) (use old in \<open>simp_all add: t\<close>)
  ultimately show "guar k s t" "table t k = Some r" using ext view by (simp_all add: guar_def rely_def)
qed

lemma safe_NewPodMonitor:
  fixes s :: "('w, 'z) prov_scheme"
  assumes "named r k s" and "\<And>u pm pmon. named r k u \<Longrightarrow> podmon_complete u pm pmon \<Longrightarrow> safe_at k Q (f (Inr pm)) u"
  shows "safe_at k Q (do_then (NewPodMonitor r h) f) s"
proof (rule safe_do_then [OF stable_named assms(1)])
  fix t u :: "('w, 'z) prov_scheme" and b
  assume t: "cache_ok t" "named r k t" "NewPodMonitor r h t = (u, Ret b)"
  note g = NewPodMonitor_guar [OF t(1,3)]
  have "rely k t u" using g(1) [of "k @ ''x''"] by (simp add: guar_def)
  then have "named r k u" by (rule stableD [OF stable_named t(2)])
  then show "guar k t u \<and> safe_at k Q (f b) u" using g assms(2) by blast
qed

lemma safe_publish:
  fixes s :: "('w, 'z) prov_scheme"
  assumes "named r k s" and "podmon_complete s pm pmon"
    and "\<And>u. named r k u \<and> table u k = Some r \<Longrightarrow> safe_at k Q (f ()) u"
  shows "safe_at k Q (do_then (andthen (gets podNotifier) (\<lambda>notifier.
    andthen (NewMetaPod r (Some pm) notifier) (\<lambda>mp. Set k mp))) f) s"
proof (rule safe_do_then [OF stable_rules(3) [OF stable_named stable_podmon]])
  show "named r k s \<and> (\<exists>pmon. podmon_complete s pm pmon)" using assms by blast
next
  fix t u :: "('w, 'z) prov_scheme" and b
  assume t: "cache_ok t" "named r k t \<and> (\<exists>pmon. podmon_complete t pm pmon)"
    and run: "andthen (gets podNotifier) (\<lambda>notifier. andthen (NewMetaPod r (Some pm) notifier) (\<lambda>mp. Set k mp)) t = (u, Ret b)"
  then obtain pmon where "podmon_complete t pm pmon" by blast
  note g = publish_guar [OF t(1) conjunct1 [OF t(2)] this run]
  have "rely (k @ ''x'') t u" using g(1) by (simp add: guar_def)
  then have "named r k u" by (rule stableD [OF stable_named conjunct1 [OF t(2)]])
  then show "guar k t u \<and> safe_at k Q (f b) u" using g assms(3) [of u] by simp
qed

lemma safe_Create:
  fixes s :: "('w, 'z) prov_scheme"
  assumes "named r k s"
  shows "safe_at k (\<lambda>err. spec_at Create r err x) (CreatePod_thread pf prov r) s"
    (is "safe_at k ?Q _ s")
proof -
  let ?in = "\<lambda>s :: ('w, 'z) prov_scheme. named r k s \<and> table s k = Some r"
  note stable_in = stable_rules(3) [OF stable_named stable_rules(1) [where P = "\<lambda>x. x = Some r"]]
  have gone: "safe_at k ?Q (do_then m (\<lambda>_. Finished (Some e))) u" if "table u k = None" "still m" for m u e
    by (rule safe_still [OF that(2) stable_rules(1) [where P = "\<lambda>x. x = None"] that(1)]) (rule safe_Finished, simp)
  have launched: "safe_at k ?Q (do_then m f) u" if "?in u" "still m" "\<And>v b. ?in v \<Longrightarrow> safe_at k ?Q (f b) v" for m f u
    by (rule safe_still [OF that(2) stable_in that(1)]) (rule that(3))
  have in_fin: "safe_at k ?Q (Finished err) u" if "?in u" for err u
    by (rule safe_Finished) (use that in \<open>cases err; simp\<close>)
  have gone_fin: "safe_at k ?Q (Finished (Some e)) u" if "table u k = None" for e u
    by (rule safe_Finished) (use that in simp)
  show ?thesis
    unfolding CreatePod_thread_def Let_def
    apply (rule safe_load_pod [where P = "\<lambda>_. True", OF _ TrueI assms])
     apply (simp add: stable_def)
    apply (simp only: pod_key_def [symmetric])
    apply (rule safe_NewPodMonitor, assumption)
    apply (simp only: sum.case)
    apply (rule safe_publish, assumption, assumption)
    apply (simp only: option.case | rule safe_cases safe_Delete | rule gone gone_fin, assumption |
        rule launched safe_launch in_fin, assumption | (rule still_intro framed_still framed_intro)+)+
    done
qed

lemma update_guar:
  assumes "cache_ok s" and "named r k s" and "cache_view s k = Some mp"
    and run: "andthen (load_metapod mp) (\<lambda>me. store_metapod mp (me\<lparr>mp_pod := r\<rparr>)) s = (t, Ret x)"
  shows "guar k s t" and "table t k = Some r" and "cache_view t k = Some mp"
proof -
  have entries: "entry_ok s k' mp'" if "cache_view s k' = Some mp'" for k' mp'
    using assms(1) that by (simp add: cache_ok_def)
  obtain me pm pmon where me: "metapods_at s mp = Some me" "mp_monitor me = Some pm" "podmon_complete s pm pmon"
    using entries [OF assms(3)] unfolding entry_ok_def by blast
  have t: "t = s\<lparr>metapods_at := (metapods_at s)(mp \<mapsto> me\<lparr>mp_pod := r\<rparr>)\<rparr>"
    using run me(1) by (simp add: andthen_run load_metapod_run store_metapod_run)
  have ext: "extends s t" unfolding t by (rule extends_podmons) simp_all
  have view: "cache_view t = cache_view s" by (simp add: t cache_view_def)
  have old: "metapods_at t mp' = metapods_at s mp'" if "k' \<noteq> k" "cache_view s k' = Some mp'" for k' mp'
  proof -
    have "mp' \<noteq> mp" using entries [OF that(2)] entries [OF assms(3)] that(1) unfolding entry_ok_def by auto
    then show ?thesis by (simp add: t)
  qed
  have "entry_ok t k' mp'" if "cache_view s k' = Some mp'" for k' mp'
  proof (cases "k' = k")
    case True
    then show ?thesis
      using that assms(2,3) me by (auto simp: entry_ok_def named_def t podmon_complete_def)
  next
    case False
    then show ?thesis using entry_ok_extends [OF entries [OF that] ext] old that by blast
  qed
  moreover have "fresh_ok t" using assms(1) me(1) by (auto simp: cache_ok_def fresh_ok_def t)
  ultimately have "cache_ok t" using assms(1) view by (simp add: cache_ok_def cache_good_def t)
  moreover have "table t = (table s)(k \<mapsto> r)"
  proof (rule table_put)
    show "cache_view t = (cache_view s)(k \<mapsto> mp)" using view assms(3) by auto
  qed (use old in \<open>simp_all add: t\<close>)
  ultimately show "guar k s t" "table t k = Some r" "cache_view t k = Some mp"
    using ext view assms(3) by (simp_all add: guar_def rely_def)
qed

lemma Set_again_guar:
  assumes "cache_ok s" and "cache_view s k = Some mp" and "Set k mp s = (t, Ret x)"
  shows "guar k s t" and "table t k = table s k"
proof -
  obtain m where m: "pods s = Some m" "go_map_ok m" "cache_view s = lookup m"
    using assms(1) by (auto simp: cache_ok_def elim: cache_goodE)
  have t: "t = s\<lparr>pods := Some (assign k mp m)\<rparr>" using assms(3) m(1) by (simp add: cache_runs)
  have grows: "extends s t" unfolding t by (rule extends_podmons) simp_all
  have view: "cache_view t = cache_view s"
    using lookup_maps(1) [OF m(2)] m(3) assms(2) by (auto simp: t cache_view_def)
  have "entry_ok t k' mp'" if "cache_view s k' = Some mp'" for k' mp'
    using assms(1) that entry_ok_extends [OF _ grows] by (simp add: cache_ok_def t)
  moreover have "fresh_ok t" using assms(1) by (simp add: cache_ok_def fresh_ok_def t)
  ultimately have ok: "cache_ok t" using view gm.ok_put [OF m(2)] by (simp add: cache_ok_def cache_good_def t)
  have "listed_ref t = listed_ref s" by (simp add: t listed_ref_def fun_eq_iff)
  then have "table t = table s" by (intro ext) (simp add: table_def view)
  then show "guar k s t" "table t k = table s k" using grows view ok by (simp_all add: guar_def rely_def)
qed

lemma safe_Get:
  fixes s :: "('w, 'z) prov_scheme"
  assumes "stable k P" and "P s" and "\<And>u. P u \<Longrightarrow> safe_at k Q (f (cache_view u k)) u"
  shows "safe_at k Q (do_then (Get k) f) s"
proof (rule safe_do_then [OF assms(1,2)])
  fix t u :: "('w, 'z) prov_scheme" and b
  assume t: "cache_ok t" "P t" "Get k t = (u, Ret b)"
  have "Get k t = (t, Ret (cache_view t k))" by (rule pc.get_runs) (use t(1) in \<open>simp add: cache_ok_def\<close>)
  then show "guar k t u \<and> safe_at k Q (f b) u" using assms(3) t by (simp add: guar_def rely_def)
qed

lemma safe_put_back:
  fixes s :: "('w, 'z) prov_scheme"
  assumes "cache_view s k = Some mp \<and> table s k = Some r" and "\<And>u. table u k = Some r \<Longrightarrow> safe_at k Q (f ()) u"
  shows "safe_at k Q (do_then (Set k mp) f) s"
proof (rule safe_do_then [where P = "\<lambda>u. cache_view u k = Some mp \<and> table u k = Some r"])
  fix t u :: "('w, 'z) prov_scheme" and b
  assume t: "cache_ok t" "cache_view t k = Some mp \<and> table t k = Some r" "Set k mp t = (u, Ret b)"
  with Set_again_guar [OF t(1) _ t(3)] assms(2) [of u] show "guar k t u \<and> safe_at k Q (f b) u" by simp
qed (use assms(1) in \<open>auto simp: stable_def rely_def\<close>)

lemma safe_update_entry:
  fixes s :: "('w, 'z) prov_scheme"
  assumes "named r k s \<and> cache_view s k = Some mp"
    and "\<And>u. cache_view u k = Some mp \<and> table u k = Some r \<Longrightarrow> safe_at k Q (f ()) u"
  shows "safe_at k Q (do_then (andthen (load_metapod mp) (\<lambda>me. store_metapod mp (me\<lparr>mp_pod := r\<rparr>))) f) s"
proof (rule safe_do_then [OF stable_rules(3) [OF stable_named stable_rules(2) [where P = "\<lambda>v. v = Some mp"]] assms(1)])
  fix t u :: "('w, 'z) prov_scheme" and b
  assume t: "cache_ok t" "named r k t \<and> cache_view t k = Some mp"
    "andthen (load_metapod mp) (\<lambda>me. store_metapod mp (me\<lparr>mp_pod := r\<rparr>)) t = (u, Ret b)"
  with update_guar [OF t(1) _ _ t(3)] assms(2) [of u] show "guar k t u \<and> safe_at k Q (f b) u" by simp
qed

lemma table_there: "cache_view s k = Some mp \<Longrightarrow> table s k = x \<Longrightarrow> x \<noteq> None"
  by (auto simp: table_def)

lemma safe_Update:
  fixes s :: "('w, 'z) prov_scheme"
  assumes "named r k s" and "table s k = x"
  shows "safe_at k (\<lambda>err. spec_at Update r err x) (UpdatePod_thread r) s"
  unfolding UpdatePod_thread_def Let_def
  apply (rule safe_load_pod [OF stable_rules(1) [where P = "\<lambda>y. y = x"] assms(2,1)])
  apply (simp only: pod_key_def [symmetric])
  apply (rule safe_Get [OF stable_rules(3) [OF stable_named stable_rules(1) [where P = "\<lambda>y. y = x"]]], blast)
  subgoal for u pod v
    apply (cases "cache_view v k")
     apply (simp only: option.case, rule safe_Finished, simp add: table_def)
    apply (subgoal_tac "x \<noteq> None")
     apply (simp only: option.case, rule safe_update_entry, blast)
     apply (rule safe_put_back, blast, rule safe_Finished, simp)
    apply (blast dest: table_there)
    done
  done

lemma safe_stop_nothing:
  fixes s :: "('w, 'z) prov_scheme"
  shows "safe_at k Q (do_then (stopPodMonitor None) (\<lambda>stopErr. case stopErr of
    Some err \<Rightarrow> do_then (deref None) (h err) | None \<Rightarrow> rest)) s"
proof (rule safe_do_then [where P = "\<lambda>_. True"])
  fix t u :: "('w, 'z) prov_scheme" and b
  assume t: "cache_ok t" "stopPodMonitor None t = (u, Ret b)"
  have "safe_at k Q (do_then (deref None) (h err)) t" for err
    by (rule safe_do_then [where P = "\<lambda>_. True"]) (simp_all add: stable_def die_run)
  then show "guar k t u \<and> safe_at k Q (case b of Some err \<Rightarrow> do_then (deref None) (h err) | None \<Rightarrow> rest) u"
    using t by (auto simp: stopPodMonitor_def ret_run guar_def rely_def)
qed (simp_all add: stable_def)

lemma safe_Remove:
  fixes s :: "('w, 'z) prov_scheme"
  assumes "named r k s" and "table s k = x"
  shows "safe_at k (\<lambda>err. spec_at Remove r err x) (DeletePod_thread pf r) s" (is "safe_at k ?Q _ s")
proof -
  have kept: "safe_at k ?Q (do_then m f) u"
    if "table u k = x" "still m" "\<And>v b. table v k = x \<Longrightarrow> safe_at k ?Q (f b) v" for m f and u :: "('w, 'z) prov_scheme"
    by (rule safe_still [OF that(2) stable_rules(1) [where P = "\<lambda>y. y = x"] that(1)]) (rule that(3))
  have gone: "safe_at k ?Q (do_then m f) u"
    if "table u k = None" "still m" "\<And>v b. table v k = None \<Longrightarrow> safe_at k ?Q (f b) v" for m f and u :: "('w, 'z) prov_scheme"
    by (rule safe_still [OF that(2) stable_rules(1) [where P = "\<lambda>y. y = None"] that(1)]) (rule that(3))
  show ?thesis
    unfolding DeletePod_thread_def Let_def
    apply (rule safe_load_pod [OF stable_rules(1) [where P = "\<lambda>y. y = x"] assms(2,1)])
    apply (simp only: pod_key_def [symmetric])
    apply (rule safe_Get [OF stable_rules(1) [where P = "\<lambda>y. y = x"]], assumption)
    subgoal for u pod v
      apply (cases "cache_view v k")
       apply (simp only:, rule safe_stop_nothing)
      apply (subgoal_tac "x \<noteq> None")
       apply (simp only:)
       apply (rule safe_cases safe_Delete | rule gone kept, assumption |
          (rule still_intro framed_still framed_intro)+ | rule safe_Finished, simp)+
      apply (blast dest: table_there)
      done
    done
qed

section \<open>Runs with calls in flight\<close>

text \<open>A call that has begun and not returned, with what is left of it.\<close>

record 's flight =
  fl_call :: vk_call
  fl_pod :: pod_ref
  fl_thread :: "('s, go_error option) thread"

text \<open>What Virtual Kubelet can call; nothing calls \<open>recreatePod\<close>.\<close>

fun call_thread ::
  "('w, 'e) platform_scheme \<Rightarrow> 'w Ec2Provider \<Rightarrow> vk_call \<Rightarrow> pod_ref \<Rightarrow>
   (('w, 'z) prov_scheme, go_error option) thread option" where
  "call_thread pf prov Create r = Some (CreatePod_thread pf prov r)"
| "call_thread pf prov Update r = Some (UpdatePod_thread r)"
| "call_thread pf prov Remove r = Some (DeletePod_thread pf r)"
| "call_thread pf prov Recreate r = None"

text \<open>
  A run with the calls in flight, by key, and those that have returned.  A call begins when none is in flight for
  its key; any thread may perform its next block, and the background take a step, at any time; when nothing
  is left of a call it returns.  A block that crashes ends the process and the run.
\<close>

inductive conc_run ::
  "('w, 'e) platform_scheme \<Rightarrow> 'w Ec2Provider \<Rightarrow> ('w, 'z) prov_scheme \<Rightarrow>
   (string \<Rightarrow> ('w, 'z) prov_scheme flight option) \<Rightarrow> vk_event list \<Rightarrow> ('w, 'z) prov_scheme \<Rightarrow> bool" for pf prov s0 where
  conc_start: "conc_run pf prov s0 (\<lambda>_. None) [] s0"
| conc_background: "conc_run pf prov s0 F es s \<Longrightarrow> background_step pf prov s t \<Longrightarrow> conc_run pf prov s0 F es t"
| conc_begin: "conc_run pf prov s0 F es s \<Longrightarrow> pods_at s r = Some p \<Longrightarrow> F (pod_key p) = None \<Longrightarrow>
    call_thread pf prov c r = Some T \<Longrightarrow>
    conc_run pf prov s0 (F(pod_key p \<mapsto> \<lparr>fl_call = c, fl_pod = r, fl_thread = T\<rparr>)) es s"
| conc_block: "conc_run pf prov s0 F es s \<Longrightarrow> F k = Some fl \<Longrightarrow> fl_thread fl = Block m \<Longrightarrow> m s = (t, Ret T) \<Longrightarrow>
    conc_run pf prov s0 (F(k \<mapsto> fl\<lparr>fl_thread := T\<rparr>)) es t"
| conc_return: "conc_run pf prov s0 F es s \<Longrightarrow> F k = Some fl \<Longrightarrow> fl_thread fl = Finished err \<Longrightarrow>
    conc_run pf prov s0 (F(k := None))
      (es @ [\<lparr>ev_call = fl_call fl, ev_pod = fl_pod fl, ev_key = k, ev_error = err\<rparr>]) s"

text \<open>
  The table \<open>T\<close> of the calls that have returned: the cache agrees with it where nothing is in flight, and a call
  in flight will do to its key what the specification says.
\<close>

definition flights_ok ::
  "(string \<Rightarrow> ('w, 'z) prov_scheme flight option) \<Rightarrow> pod_table \<Rightarrow> ('w, 'z) prov_scheme \<Rightarrow> bool" where
  "flights_ok F T s \<longleftrightarrow> (\<forall>k. case F k of None \<Rightarrow> table s k = T k
     | Some fl \<Rightarrow> safe_at k (\<lambda>err. spec_at (fl_call fl) (fl_pod fl) err (T k)) (fl_thread fl) s)"

lemma flights_okD:
  "flights_ok F T s \<Longrightarrow> F k = None \<Longrightarrow> table s k = T k"
  "flights_ok F T s \<Longrightarrow> F k = Some fl \<Longrightarrow> safe_at k (\<lambda>err. spec_at (fl_call fl) (fl_pod fl) err (T k)) (fl_thread fl) s"
  unfolding flights_ok_def by (drule spec [of _ k], simp)+

lemma flights_ok_rely:
  assumes "flights_ok F T s" and "\<And>k. k \<in> A \<Longrightarrow> rely k s t"
    and "\<And>k. k \<notin> A \<Longrightarrow> case G k of None \<Rightarrow> table t k = T k
     | Some fl \<Rightarrow> safe_at k (\<lambda>err. spec_at (fl_call fl) (fl_pod fl) err (T k)) (fl_thread fl) t"
    and "\<And>k. k \<in> A \<Longrightarrow> G k = F k"
  shows "flights_ok G T t"
  unfolding flights_ok_def
proof
  fix k
  show "case G k of None \<Rightarrow> table t k = T k
     | Some fl \<Rightarrow> safe_at k (\<lambda>err. spec_at (fl_call fl) (fl_pod fl) err (T k)) (fl_thread fl) t"
  proof (cases "k \<in> A")
    case True
    then have "G k = F k" "rely k s t" using assms(2,4) by blast+
    then show ?thesis
      using flights_okD [OF assms(1), of k] vk.safe_rely [of k "guar k" _ _ s t]
      by (cases "F k") (auto simp: rely_def)
  qed (rule assms(3))
qed

lemma begin_safe:
  assumes "call_thread pf prov c r = Some th" and "named r k s" and "table s k = x"
  shows "safe_at k (\<lambda>err. spec_at c r err x) th s"
  using assms safe_Create [OF assms(2)] safe_Update [OF assms(2,3)] safe_Remove [OF assms(2,3)] by (cases c) auto

lemma conc_run_ok:
  assumes "conc_run pf prov s0 F es s" and "cache_ok s0"
  shows "cache_ok s \<and> (\<exists>T. table_run (table s0) es T \<and> flights_ok F T s)"
  using assms
proof (induction rule: conc_run.induct)
  case conc_start
  then show ?case using table_start by (force simp: flights_ok_def)
next
  case (conc_background F es s t)
  then obtain T where T: "cache_ok s" "table_run (table s0) es T" "flights_ok F T s" by blast
  have "cache_ok t" using background_step_ok [OF conc_background(2) T(1)] .
  moreover have "cache_view t = cache_view s" by (rule background_view [OF conc_background(2) T(1)])
  ultimately have "rely k s t" for k
    using background_table [OF conc_background(2)] background_extends [OF conc_background(2) T(1)]
    by (simp add: rely_def)
  then have "flights_ok F T t" by (intro flights_ok_rely [OF T(3), of UNIV]) simp_all
  then show ?case using T(2) \<open>cache_ok t\<close> by blast
next
  case (conc_begin F es s r p c th)
  then obtain T where T: "cache_ok s" "table_run (table s0) es T" "flights_ok F T s" by blast
  have "safe_at (pod_key p) (\<lambda>err. spec_at c r err (T (pod_key p))) th s"
    using begin_safe [OF conc_begin(4)] conc_begin(2) flights_okD(1) [OF T(3) conc_begin(3)] by (auto simp: named_def)
  then have "flights_ok (F(pod_key p \<mapsto> \<lparr>fl_call = c, fl_pod = r, fl_thread = th\<rparr>)) T s"
    using T(3) by (auto simp: flights_ok_def)
  then show ?case using T by blast
next
  case (conc_block F es s k fl m t th)
  then obtain T where T: "cache_ok s" "table_run (table s0) es T" "flights_ok F T s" by blast
  have "rely k s s" using T(1) by (simp add: rely_def)
  then have "guar k s t \<and> safe_at k (\<lambda>err. spec_at (fl_call fl) (fl_pod fl) err (T k)) th t"
    using flights_okD(2) [OF T(3) conc_block(2)] conc_block(3,4) by (auto elim!: safe_blockE)
  then have "flights_ok (F(k \<mapsto> fl\<lparr>fl_thread := th\<rparr>)) T t" "cache_ok t"
    by (auto intro!: flights_ok_rely [OF T(3), of "- {k}"] simp: guar_def split: if_splits)
  then show ?case using T(2) by blast
next
  case (conc_return F es s k fl err)
  then obtain T where T: "cache_ok s" "table_run (table s0) es T" "flights_ok F T s" by blast
  let ?e = "\<lparr>ev_call = fl_call fl, ev_pod = fl_pod fl, ev_key = k, ev_error = err\<rparr>"
  have "rely k s s" using T(1) by (simp add: rely_def)
  then have "spec_at (fl_call fl) (fl_pod fl) err (T k) (table s k)"
    using flights_okD(2) [OF T(3) conc_return(2)] conc_return(3) by (auto elim!: safe_finishedE)
  then have "spec_step (fl_call fl) (fl_pod fl) k err T (T(k := table s k))" by (rule spec_at_step)
  then have "table_run (table s0) (es @ [?e]) (T(k := table s k))" by (intro table_step [OF T(2)]) simp
  moreover have "flights_ok (F(k := None)) (T(k := table s k)) s"
    unfolding flights_ok_def using flights_okD [OF T(3)] by (auto split: option.split)
  ultimately show ?case using T(1) by blast
qed

text \<open>A call whose blocks nothing interrupts.\<close>

lemma exec_Block: "exec (Block m) s = (t, Ret a) \<longleftrightarrow> (\<exists>u T. m s = (u, Ret T) \<and> exec T u = (t, Ret a))"
  by (cases "m s", cases "snd (m s)") (auto simp: exec.simps(2))

lemma conc_run_thread:
  assumes "conc_run pf prov s0 F es s" and "F k = Some fl" and "exec (fl_thread fl) s = (t, Ret err)"
  shows "conc_run pf prov s0 (F(k \<mapsto> fl\<lparr>fl_thread := Finished err\<rparr>)) es t"
proof -
  have "conc_run pf prov s0 F es s \<Longrightarrow> F k = Some fl \<Longrightarrow> fl_thread fl = T \<Longrightarrow> exec T s = (t, Ret err) \<Longrightarrow> ?thesis"
    for T
  proof (induction T arbitrary: F s fl)
    case (Finished a)
    then have "F(k \<mapsto> fl\<lparr>fl_thread := Finished err\<rparr>) = F" "t = s" by (auto simp: ret_run)
    then show ?case using Finished(1) by simp
  next
    case (Block m)
    obtain u T where T: "m s = (u, Ret T)" "exec T u = (t, Ret err)" using Block.prems(4) by (auto simp: exec_Block)
    have "(u, Ret T) \<in> range m" using T(1) by (metis rangeI)
    then have "conc_run pf prov s0 ((F(k \<mapsto> fl\<lparr>fl_thread := T\<rparr>))(k \<mapsto> (fl\<lparr>fl_thread := T\<rparr>)\<lparr>fl_thread := Finished err\<rparr>)) es t"
      by (rule Block.IH [OF _ _ _ conc_block [OF Block.prems(1-3) T(1)]]) (simp_all add: T(2))+
    then have "conc_run pf prov s0 (F(k \<mapsto> fl\<lparr>fl_thread := Finished err\<rparr>)) es t" by simp
    then show ?case by (simp add: fun_upd_def)
  qed
  then show ?thesis using assms by blast
qed

lemma conc_run_call:
  assumes "conc_run pf prov s0 F es s" and "pods_at s r = Some p" and "F (pod_key p) = None"
    and "call_thread pf prov c r = Some T" and "exec T s = (t, Ret err)"
  shows "conc_run pf prov s0 F (es @ [\<lparr>ev_call = c, ev_pod = r, ev_key = pod_key p, ev_error = err\<rparr>]) t"
proof -
  let ?fl = "\<lparr>fl_call = c, fl_pod = r, fl_thread = T\<rparr>"
  have "conc_run pf prov s0 ((F(pod_key p \<mapsto> ?fl))(pod_key p \<mapsto> ?fl\<lparr>fl_thread := Finished err\<rparr>)) es t"
    by (rule conc_run_thread [OF conc_begin [OF assms(1-4)]]) (simp_all add: assms(5))
  from conc_return [OF this, of "pod_key p" "?fl\<lparr>fl_thread := Finished err\<rparr>" err] assms(3) show ?thesis by (simp add: fun_upd_idem)
qed

text \<open>
  C3: in every run with calls in flight, however their blocks interleave, the calls that have returned form a run
  of the table of pods, each as if it had happened at once when it returned; and for every key with no call in
  flight \<open>GetPod\<close> answers from that table.
\<close>

theorem interleaved_calls_refine_table:
  fixes s0 s1 s :: "('w, 'z) prov_scheme"
  assumes "fresh_ok s0" and "pre_run pf args opts s0 = (s1, Ret (None, opts', prov))"
    and "conc_run pf prov s1 F es s"
  shows "\<exists>T. table_run (table s1) es T \<and>
    (\<forall>ns n. F (GetPodCacheKey ns n) = None \<longrightarrow>
      GetPod ns n s = (s, Ret (case T (GetPodCacheKey ns n) of
          None \<Rightarrow> Inl (NotFoundError (''Pod '' @ n @ ''('' @ ns @ '') does not exist''))
        | Some r \<Rightarrow> Inr r)))"
proof -
  obtain T where T: "cache_ok s" "table_run (table s1) es T" "flights_ok F T s"
    using conc_run_ok [OF assms(3) pre_run_ok [OF assms(2,1)]] by blast
  then show ?thesis using GetPod_table [OF T(1)] flights_okD(1) [OF T(3)] by auto
qed

theorem interleaved_calls_refine_table_witness:
  "\<exists>s1 p u r T. pre_run (cloud_kube (Inr 4) [sample_pod]) [''vk''] start_opts start_state =
      (s1, Ret (None, start_opts\<lparr>NodeName := ''fargate-ip-10-0-0-3''\<rparr>, p)) \<and>
    UpdatePod r s1 = (u, Ret None) \<and>
    table_run (table s1) [\<lparr>ev_call = Update, ev_pod = r, ev_key = pod_key sample_pod, ev_error = None\<rparr>] T \<and>
    GetPod ''default'' ''web'' u = (u, Ret (case T (GetPodCacheKey ''default'' ''web'') of
        None \<Rightarrow> Inl (NotFoundError (''Pod '' @ ''web'' @ ''('' @ ''default'' @ '') does not exist''))
      | Some r \<Rightarrow> Inr r))"
proof -
  obtain s1 p r where s1: "pre_run (cloud_kube (Inr 4) [sample_pod]) [''vk''] start_opts start_state =
      (s1, Ret (None, start_opts\<lparr>NodeName := ''fargate-ip-10-0-0-3''\<rparr>, p))"
    and r: "GetPod (Namespace sample_pod) (PodName sample_pod) s1 = (s1, Ret (Inr r))" "pods_at s1 r = Some sample_pod"
    using sample_start [of start_opts] by blast
  have fresh: "fresh_ok start_state" by (simp add: fresh_ok_def start_state_def sample_prov_def)
  have ok: "cache_ok s1" by (rule pre_run_ok [OF s1 fresh])
  obtain m where m: "pods s1 = Some m" "cache_view s1 = lookup m"
    using ok by (auto simp: cache_ok_def elim: cache_goodE)
  obtain mp where mp: "lookup m (pod_key sample_pod) = Some mp"
    using r(1) cache_ok_GetPod(1) [OF ok, of "Namespace sample_pod" "PodName sample_pod"] m(2)
    by (auto simp: pod_key_def split: option.splits)
  then obtain me where "metapods_at s1 mp = Some me"
    using ok m(2) unfolding cache_ok_def entry_ok_def by metis
  from UpdatePod_run [OF r(2) m(1) mp this] obtain u where u: "UpdatePod r s1 = (u, Ret None)" by blast
  then have "exec (UpdatePod_thread r) s1 = (u, Ret None)" by (simp add: exec_calls)
  then have "conc_run (cloud_kube (Inr 4) [sample_pod]) p s1 (\<lambda>_. None)
      ([] @ [\<lparr>ev_call = Update, ev_pod = r, ev_key = pod_key sample_pod, ev_error = None\<rparr>]) u"
    by (intro conc_run_call [OF conc_start r(2)]) simp_all
  from interleaved_calls_refine_table [OF fresh s1 this] obtain T where
    "table_run (table s1) [\<lparr>ev_call = Update, ev_pod = r, ev_key = pod_key sample_pod, ev_error = None\<rparr>] T"
    and T: "\<forall>ns n. GetPod ns n u = (u, Ret (case T (GetPodCacheKey ns n) of
        None \<Rightarrow> Inl (NotFoundError (''Pod '' @ n @ ''('' @ ns @ '') does not exist''))
      | Some r \<Rightarrow> Inr r))" by auto
  with s1 u T [rule_format, of "''default''" "''web''"] show ?thesis by (intro exI conjI)
qed

section \<open>Two calls at one key\<close>

text \<open>The first \<open>n\<close> blocks of a thread.\<close>

fun run_blocks :: "nat \<Rightarrow> ('s, 'a) thread \<Rightarrow> 's \<Rightarrow> 's \<times> ('s, 'a) thread outcome" where
  "run_blocks 0 T s = (s, Ret T)"
| "run_blocks (Suc n) (Finished a) s = (s, Ret (Finished a))"
| "run_blocks (Suc n) (Block m) s = (case m s of (t, Ret T) \<Rightarrow> run_blocks n T t | (t, Crash c) \<Rightarrow> (t, Crash c))"

lemma run_blocks_do_then:
  "run_blocks (Suc n) (do_then m f) s = (case m s of (t, Ret b) \<Rightarrow> run_blocks n (f b) t | (t, Crash c) \<Rightarrow> (t, Crash c))"
  by (simp add: do_then_def andthen_run ret_run split: prod.split outcome.split)

lemma entries_DeletePod: "entries_kept (DeletePod pf r)"
  unfolding DeletePod_def Let_def
  by (rule entries_intro quiet_entries quiet_intro framed_quiet framed_intro)+

lemma table_run_snoc:
  assumes "table_run T (es @ [e]) V"
  shows "\<exists>U. table_run T es U \<and> spec_step (ev_call e) (ev_pod e) (ev_key e) (ev_error e) U V"
  using assms by (cases rule: table_run.cases) auto

lemma table_run_two:
  assumes "table_run T [a, b] V"
  shows "\<exists>U. spec_step (ev_call a) (ev_pod a) (ev_key a) (ev_error a) T U \<and>
    spec_step (ev_call b) (ev_pod b) (ev_key b) (ev_error b) U V"
proof -
  obtain U where U: "table_run T [a] U" "spec_step (ev_call b) (ev_pod b) (ev_key b) (ev_error b) U V"
    using table_run_snoc [of T "[a]" b V] assms by auto
  obtain S where S: "table_run T [] S" "spec_step (ev_call a) (ev_pod a) (ev_key a) (ev_error a) S U"
    using table_run_snoc [of T "[]" a U] U(1) by auto
  from S(1) have "S = T" by (cases rule: table_run.cases) auto
  then show ?thesis using U(2) S(2) by blast
qed

text \<open>
  C25: one call in flight for each key of the cache is needed, and more than Virtual Kubelet promises, which queues
  calls by namespace and name: two pods whose
  keys clash have queues of their own.  If \<open>DeletePod\<close> for one of them succeeds after \<open>UpdatePod\<close> for the other has
  looked its entry up, then the update succeeds as well and the entry is back; no order of an update and a
  deletion, both successful, leads to that table.
\<close>

theorem clashing_calls_not_serial:
  assumes "cache_ok s" and "pods_at s r1 = Some p1" and "pods_at s r2 = Some p2" and "pod_key p1 = pod_key p2"
    and "DeletePod pf r1 s = (t, Ret None)"
    and "d = \<lparr>ev_call = Remove, ev_pod = r1, ev_key = pod_key p1, ev_error = None\<rparr>"
    and "e = \<lparr>ev_call = Update, ev_pod = r2, ev_key = pod_key p1, ev_error = None\<rparr>"
  shows "\<exists>rest u. run_blocks 2 (UpdatePod_thread r2) s = (s, Ret rest) \<and> exec rest t = (u, Ret None) \<and>
    table u (pod_key p1) = Some r2 \<and> \<not> table_run (table s) [d, e] (table u) \<and> \<not> table_run (table s) [e, d] (table u)"
proof -
  let ?k = "pod_key p1"
  have gone: "spec_step Remove r1 ?k None (table s) (table t)" by (rule DeletePod_table [OF assms(5,1,2)])
  then obtain mp where mp: "cache_view s ?k = Some mp" by (auto simp: table_def)
  then obtain me where "metapods_at s mp = Some me" using assms(1) unfolding cache_ok_def entry_ok_def by metis
  then have me: "metapods_at t mp = Some me" using entries_keptD [OF entries_DeletePod assms(5)] by simp
  have "cache_ok t" by (rule keeps_Ret [OF ok_DeletePod assms(5,1)])
  then obtain m where m: "pods t = Some m" "go_map_ok m" by (auto simp: cache_ok_def elim: cache_goodE)
  let ?rest = "do_then (andthen (load_metapod mp) (\<lambda>me. store_metapod mp (me\<lparr>mp_pod := r2\<rparr>)))
    (\<lambda>_. do_then (Set ?k mp) (\<lambda>_. Finished None))"
  let ?u = "t\<lparr>metapods_at := (metapods_at t)(mp \<mapsto> me\<lparr>mp_pod := r2\<rparr>), pods := Some (assign ?k mp m)\<rparr>"
  have "Get ?k s = (s, Ret (Some mp))"
    using pc.get_runs [of s ?k] assms(1) mp by (simp add: cache_ok_def)
  then have first: "run_blocks 2 (UpdatePod_thread r2) s = (s, Ret ?rest)"
    by (simp add: UpdatePod_thread_def numeral_2_eq_2 run_blocks_do_then load_pod_run [OF assms(3)] Let_def
        pod_key_def [symmetric] assms(4) del: run_blocks.simps(2,3))
  have "exec ?rest t = (?u, Ret None)"
    by (simp add: andthen_run load_metapod_run [OF me] store_metapod_run cache_runs(2) [where m = m] m(1) ret_run)
  moreover have there: "table ?u ?k = Some r2"
    using lookup_maps(1) [OF m(2)] by (simp add: table_def cache_view_def listed_ref_def)
  moreover have "\<not> table_run (table s) [d, e] (table ?u)" "\<not> table_run (table s) [e, d] (table ?u)"
    using there by (auto simp: assms(6,7) dest!: table_run_two)
  ultimately show ?thesis using first by blast
qed

theorem clashing_calls_not_serial_witness:
  "\<exists>s t rest u. CreatePod cloud_platform (sample_provider []) 0 running_state = (s, Ret None) \<and>
    run_blocks 2 (UpdatePod_thread 0) s = (s, Ret rest) \<and> DeletePod cloud_platform 0 s = (t, Ret None) \<and>
    exec rest t = (u, Ret None) \<and> table u ''default-web'' = Some 0"
proof -
  let ?p = "addressed ''10.0.0.7'' (with_instance ''i-7'' sample_pod)"
  obtain s mp pm where s: "CreatePod cloud_platform (sample_provider []) 0 running_state = (s, Ret None)"
    "world s = running_cloud" "cache_view s = [''default-web'' \<mapsto> mp]" "monitored s mp 0 pm True"
    "config s = Some sample_config" "cache_good s" "podNotifier s = Some 9" "pods_at s = [0 \<mapsto> ?p]"
    by (rule create_running)
  have key: "pod_key ?p = ''default-web''" by simp
  have "fresh_ok running_state" by (simp add: fresh_ok_def running_state_def sample_prov_def)
  then have "cache_ok running_state" by (simp add: cache_ok_def)
  then have ok: "cache_ok s" by (rule keeps_Ret [OF ok_CreatePod s(1)])
  have d: "DialContext cloud_platform (dial_pod sample_config ?p) (world s) = ((Inr 7, False), running_cloud)"
    using s(2) by simp
  have told: "told cloud_platform (dialled (Inr 7, False)) running_cloud = running_cloud"
    by (simp add: told_def dialled_def)
  obtain t where t: "DeletePod cloud_platform 0 s = (t, Ret None)"
    using DeletePod_run [OF s(5) _ s(6) _ s(4) _ s(7) d, of 0 ?p "''i-7''" running_cloud "''i-7''" "[]" empty_cloud]
      s(3,8) key by (simp add: told) (auto simp: dialled_def)
  have "pods_at s 0 = Some ?p" using s(8) by simp
  from clashing_calls_not_serial [OF ok this this refl t refl refl] show ?thesis using s(1) t unfolding key by blast
qed

end
