(* ===== verification/Provider_Launches.thy ===== *)
theory Provider_Launches
  imports Provider_Refinement
begin

text \<open>
  What the provider may cost: without a warm pool, a run launches at most one instance for every call that
  creates or recreates a pod; with one, only the pool's ticks launch instances, each at most as many as the
  pools want.  AWS is described by what its calls do to a set of instances; the provider's
  operations then either launch nothing (\<open>calm\<close>) or at most one (\<open>once\<close>).
\<close>

section \<open>What is assumed of AWS and the agents\<close>

text \<open>\<open>inst w\<close> are the instances of the account in the outside world \<open>w\<close>.\<close>

definition stays :: "('w \<Rightarrow> string set) \<Rightarrow> ('w \<Rightarrow> 'r \<times> 'w) \<Rightarrow> bool" where
  "stays inst f \<longleftrightarrow> (\<forall>w. inst (snd (f w)) \<subseteq> inst w)"

text \<open>\<open>RunInstances\<close> launches no more instances than \<open>MaxCount\<close>; no other call launches any.\<close>

definition service_laws :: "('w \<Rightarrow> string set) \<Rightarrow> 'w service \<Rightarrow> bool" where
  "service_laws inst svc \<longleftrightarrow>
     (\<forall>x. stays inst (svc_TerminateInstances svc x)) \<and> (\<forall>x. stays inst (svc_DescribeInstances svc x)) \<and>
     (\<forall>x. stays inst (svc_DescribeInstanceStatus svc x)) \<and> (\<forall>x. stays inst (svc_CreateTags svc x)) \<and>
     (\<forall>o1 d x. stays inst (wait_InstanceRunning svc o1 d x)) \<and>
     (\<forall>x w. MaxCount x = 1 \<longrightarrow> (\<exists>iid. inst (snd (svc_RunInstances svc x w)) \<subseteq> insert iid (inst w)))"

definition platform_laws :: "('w \<Rightarrow> string set) \<Rightarrow> ('w, 'e) platform_scheme \<Rightarrow> bool" where
  "platform_laws inst pf \<longleftrightarrow>
     (\<forall>cs. stays inst (LoadDefaultConfig pf cs)) \<and> (\<forall>cs. service_laws inst (ec2_NewFromConfig pf cs)) \<and>
     (\<forall>cs x. stays inst (PresignGetObject_op pf cs x)) \<and> (\<forall>x. stays inst (DialContext pf x)) \<and>
     (\<forall>c p. stays inst (rpc_LaunchApplication pf c p)) \<and> (\<forall>c. stays inst (rpc_TerminateApplication pf c))"

section \<open>Operations that launch nothing\<close>

definition calm :: "('w \<Rightarrow> string set) \<Rightarrow> (('w, 'z) base_scheme, 'a) go \<Rightarrow> bool" where
  "calm inst m \<longleftrightarrow> (\<forall>s. inst (world (fst (m s))) \<subseteq> inst (world s))"

named_theorems calm_intro

lemma calmD: "calm inst m \<Longrightarrow> m s = (t, x) \<Longrightarrow> inst (world t) \<subseteq> inst (world s)"
  unfolding calm_def by (metis fst_conv)

lemma calm_same: "(\<And>s. world (fst (m s)) = world s) \<Longrightarrow> calm inst m"
  by (simp add: calm_def)

lemma calm_call: "stays inst f \<Longrightarrow> calm inst (call f)"
  by (simp add: calm_def stays_def call_run)

lemma calm_basic [calm_intro]:
  "calm inst (ret a)" "calm inst (die c)" "calm inst (gets g)" "calm inst (deref p)" "calm inst (index xs i)"
  "calm inst (Inc k)" "calm inst next_choice" "calm inst Now" "calm inst Config"
  by (auto intro!: calm_same simp: go_simps Config_def deref_def index_def split: option.splits)

lemma calm_andthen [calm_intro]: "calm inst m \<Longrightarrow> (\<And>a. calm inst (f a)) \<Longrightarrow> calm inst (andthen m f)"
  by (fastforce simp: calm_def andthen_run split: prod.splits outcome.splits)

lemma calm_loops [calm_intro]:
  "(\<And>x. calm inst (g x)) \<Longrightarrow> calm inst (for_each g xs)"
  "(\<And>x. calm inst (h x)) \<Longrightarrow> calm inst (collect h xs)"
  by (induction xs) (auto intro!: calm_intro)

lemma calm_cases [calm_intro]:
  "(b \<Longrightarrow> calm inst m) \<Longrightarrow> (\<not> b \<Longrightarrow> calm inst n) \<Longrightarrow> calm inst (if b then m else n)"
  "(\<And>e. calm inst (f e)) \<Longrightarrow> (\<And>a. calm inst (g a)) \<Longrightarrow> calm inst (case x of Inl e \<Rightarrow> f e | Inr a \<Rightarrow> g a)"
  "calm inst m' \<Longrightarrow> (\<And>a. calm inst (k a)) \<Longrightarrow> calm inst (case y of None \<Rightarrow> m' | Some a \<Rightarrow> k a)"
  "(\<And>a b. calm inst (h a b)) \<Longrightarrow> calm inst (case z of (a, b) \<Rightarrow> h a b)"
  by (auto split: sum.splits option.splits prod.splits)

lemma calm_modify: "(\<And>s. world (f s) = world s) \<Longrightarrow> calm inst (modify f)"
  by (rule calm_same) (simp add: modify_run)

lemma calm_updates [calm_intro]:
  "calm inst (modify (\<lambda>s. s\<lparr>pods_at := u1 s\<rparr>))" "calm inst (modify (\<lambda>s. s\<lparr>fresh_ref := u2 s\<rparr>))"
  "calm inst (modify (\<lambda>s. s\<lparr>monitors_at := u3 s\<rparr>))" "calm inst (modify (\<lambda>s. s\<lparr>handlers_at := u4 s\<rparr>))"
  "calm inst (modify (\<lambda>s. s\<lparr>podmons_at := u5 s\<rparr>))" "calm inst (modify (\<lambda>s. s\<lparr>metapods_at := u6 s\<rparr>))"
  "calm inst (modify (\<lambda>s. s\<lparr>VKState := u7 s\<rparr>))" "calm inst (modify (\<lambda>s. s\<lparr>cancelled_ctxs := u8 s\<rparr>))"
  "calm inst (modify (\<lambda>s. s\<lparr>podNotifier := u9 s\<rparr>))" "calm inst (modify (\<lambda>s. s\<lparr>utilsNotifier := u10 s\<rparr>))"
  "calm inst (modify (\<lambda>s. s\<lparr>notified := u11 s\<rparr>))" "calm inst (modify (\<lambda>s. s\<lparr>pods := u12 s\<rparr>))"
  by (rule calm_modify, simp)+

lemma calm_heap [calm_intro]:
  "calm inst (load_pod r)" "calm inst (update_pod r g)" "calm inst (set_annotation r k v)"
  "calm inst (store_pod r p)" "calm inst new_ref" "calm inst (store_monitor r m)" "calm inst (store_handler r h)"
  "calm inst (store_podmon r pm)" "calm inst (store_metapod r mp)"
  unfolding load_pod_def update_pod_def set_annotation_def store_pod_def new_ref_def store_monitor_def
    store_handler_def store_podmon_def store_metapod_def
  by (rule calm_intro)+

lemma calm_reads [calm_intro]:
  "calm inst (load_monitor r)" "calm inst (load_handler r)" "calm inst (load_podmon r)" "calm inst (load_metapod p)"
  "calm inst (SetNotifier f)" "calm inst GetNotifier" "calm inst the_cache" "calm inst (Get key)"
  "calm inst (Set key mp)" "calm inst (Delete key)" "calm inst (call_notifier f r)" "calm inst (ctx_done ctx)"
  unfolding load_monitor_def load_handler_def load_podmon_def load_metapod_def SetNotifier_def GetNotifier_def
    the_cache_def Get_def Set_def Delete_def call_notifier_def ctx_done_def
  by (rule calm_intro)+

lemma calm_monitors [calm_intro]:
  "calm inst (Start pm)" "calm inst (Stop pm)" "calm inst (stop_and_exit r)" "calm inst (stopPodMonitor mp)"
  "calm inst (NewCheckResult r failed message data)" "calm inst (NewPodMonitor r h)"
  unfolding Start_def receive_def Run_def Stop_def stop_receiver_def stop_monitor_def stop_and_exit_def
    stopPodMonitor_def NewCheckResult_def incrementFailures_def resetFailures_def NewPodMonitor_def createMonitors_def
    create_watcher_def NewMonitor_def Let_def
  by (rule calm_intro)+

lemma calm_queries [calm_intro]:
  "calm inst (notifyPodDelete r)" "calm inst (handlePodStatusUpdate r st)" "calm inst (NotifyPods f)"
  "calm inst GetPods" "calm inst (status_tick prev)" "calm inst (UpdatePod r)"
  unfolding notifyPodDelete_def handlePodStatusUpdate_def NotifyPods_def GetPods_def GetPodList_def status_tick_def
    GetList_def monitor_states_def UpdatePod_def cache_UpdatePod_def write_back_def Let_def
  by (rule calm_intro)+

lemma calm_results [calm_intro]:
  "calm inst a \<Longrightarrow> calm inst b \<Longrightarrow> calm inst c \<Longrightarrow>
    calm inst (case st of MonitoringStateUnknown \<Rightarrow> a | MonitoringStateHealthy \<Rightarrow> b | MonitoringStateUnhealthy \<Rightarrow> c)"
  "calm inst a \<Longrightarrow> calm inst b \<Longrightarrow> calm inst c \<Longrightarrow>
    calm inst (case sub of SubjectUnknown \<Rightarrow> a | SubjectVkvma \<Rightarrow> b | SubjectApp \<Rightarrow> c)"
  "calm inst a \<Longrightarrow> (\<And>x. calm inst (f x)) \<Longrightarrow> calm inst b \<Longrightarrow>
    calm inst (case d of NoData \<Rightarrow> a | PodStatusData x \<Rightarrow> f x | HealthResponseData \<Rightarrow> b)"
  "calm inst a \<Longrightarrow> (\<And>k. calm inst (g k)) \<Longrightarrow> calm inst b \<Longrightarrow>
    calm inst (case stream of NilStream \<Rightarrow> a | OpenStream k \<Rightarrow> g k | OtherStream \<Rightarrow> b)"
  "(\<And>x. calm inst (f1 x)) \<Longrightarrow> (\<And>x. calm inst (f2 x)) \<Longrightarrow> (\<And>x. calm inst (f3 x)) \<Longrightarrow> calm inst b \<Longrightarrow>
    calm inst (case i of Opened x \<Rightarrow> f1 x | RecvError x \<Rightarrow> f2 x | RecvResponse x \<Rightarrow> f3 x | Elapsed \<Rightarrow> b)"
  by (auto split: MonitoringState.split Subject.split check_data.split stream.split input.split)

lemma calm_handle [calm_intro]: "calm inst (handleCheckResult result)"
  unfolding handleCheckResult_def getState_def by (rule calm_intro)+

lemma calm_turn [calm_intro]: "calm inst (turn (\<lambda>_. die NilFuncCall) r ctx i pc)"
  by (cases pc; simp only: turn_simps watch_top_def watch_select_def watch_recv_def check_top_def)
    (rule calm_intro)+

section \<open>AWS and the agents\<close>

lemma calm_service:
  assumes "service_laws inst (Svc c)"
  shows "calm inst (TerminateInstances c x1)" "calm inst (DescribeInstances c x2)"
    "calm inst (DescribeInstanceStatus c x3)" "calm inst (CreateTags c x4)" "calm inst (NewInstanceRunningWaiter c x5)"
  unfolding client_calls by (rule calm_call; use assms in \<open>simp add: service_laws_def\<close>)+

text \<open>A client that was just made obeys the laws.\<close>

lemma platform_stays:
  assumes "platform_laws inst pf"
  shows "stays inst (LoadDefaultConfig pf cs)" "stays inst (PresignGetObject_op pf cs x)" "stays inst (DialContext pf d)"
    "stays inst (rpc_LaunchApplication pf c p)" "stays inst (rpc_TerminateApplication pf c)"
  using assms unfolding platform_laws_def by blast+

lemma calm_clients:
  assumes "platform_laws inst pf"
  shows "calm inst (NewEc2Client pf)" "calm inst (NewS3Client pf)"
  unfolding NewEc2Client_def NewS3Client_def Let_def
  by (rule calm_intro calm_call platform_stays [OF assms])+

lemma client_result:
  "NewEc2Client pf s = (t, Ret (Inr c)) \<Longrightarrow> platform_laws inst pf \<Longrightarrow> service_laws inst (Svc c)"
  "NewS3Client pf s = (t, Ret (Inr c3)) \<Longrightarrow> platform_laws inst pf \<Longrightarrow> stays inst (PresignSvc c3 (b, k))"
  by (auto simp: NewEc2Client_def NewS3Client_def andthen_run call_run ret_run die_run Let_def Config_def
      platform_laws_def gets_run deref_def split: prod.splits option.splits outcome.splits)

lemma calm_andthen_result:
  fixes m :: "(('w, 'z) base_scheme, 'a) go"
  assumes "calm inst m" and "\<And>s t a. m s = (t, Ret a) \<Longrightarrow> calm inst (f a)"
  shows "calm inst (andthen m f)"
  unfolding calm_def
proof
  fix s :: "('w, 'z) base_scheme"
  obtain t x where m: "m s = (t, x)" by fastforce
  show "inst (world (fst (andthen m f s))) \<subseteq> inst (world s)"
  proof (cases x)
    case (Ret a)
    then show ?thesis using calmD [OF assms(1) m] assms(2) m by (fastforce simp: calm_def andthen_run)
  qed (use calmD [OF assms(1) m] m in \<open>simp add: andthen_run\<close>)
qed

lemma calm_with_client:
  assumes "platform_laws inst pf" and "\<And>e. calm inst (f (Inl e))"
    and "\<And>c. service_laws inst (Svc c) \<Longrightarrow> calm inst (f (Inr c))"
  shows "calm inst (andthen (NewEc2Client pf) f)"
proof (rule calm_andthen_result [OF calm_clients(1) [OF assms(1)]])
  show "calm inst (f a)" if "NewEc2Client pf s = (t, Ret a)" for s t a
    using that client_result(1) [OF _ assms(1), of s t] assms(2,3) by (cases a) auto
qed

lemma calm_GenerateVKVMUserData:
  assumes "platform_laws inst pf"
  shows "calm inst (GenerateVKVMUserData pf b k vm ag)"
  unfolding GenerateVKVMUserData_def
proof (rule calm_andthen_result [OF calm_clients(2) [OF assms]])
  fix s t a
  assume c: "NewS3Client pf s = (t, Ret a)"
  show "calm inst (case a of Inl err \<Rightarrow> ret (Inl err) | Inr s3api \<Rightarrow>
      andthen (SignURL s3api b k) (\<lambda>r. case r of
          Inl err \<Rightarrow> ret (Inl err)
        | Inr url \<Rightarrow> (let tempData = \<lparr>VmInit = vm, UserBootstrapAgent = ag, PresignedURL = url\<rparr>;
              userDataJSON = marshal_user_data tempData
            in ret (Inr (EncodeUserData (EncodeUserData (replaceHTMLEscapes userDataJSON)))))))"
  proof (cases a)
    case (Inr c3)
    have "stays inst (PresignSvc c3 (b, k))" using client_result(2) [OF _ assms, of s t] c Inr by blast
    then show ?thesis unfolding SignURL_def PresignGetObject_def Let_def Inr sum.case
      by (rule_tac calm_intro calm_call | assumption)+
  qed (simp add: calm_intro)
qed

lemma calm_known_sum:
  "calm inst (f e) \<Longrightarrow> calm inst (case Inl e of Inl e \<Rightarrow> f e | Inr a \<Rightarrow> g a)"
  "calm inst (g a) \<Longrightarrow> calm inst (case Inr a of Inl e \<Rightarrow> f e | Inr a \<Rightarrow> g a)"
  by simp_all

lemma calm_ec2:
  assumes "platform_laws inst pf"
  shows "calm inst (TerminateEC2 pf iid)" "calm inst (GetPrivateIP pf iid)" "calm inst (podHasInstance pf r)"
  unfolding TerminateEC2_def GetPrivateIP_def podHasInstance_def Let_def
  by (rule calm_known_sum calm_with_client [OF assms] calm_intro calm_service | assumption)+

lemma calm_DeleteCompute: "platform_laws inst pf \<Longrightarrow> calm inst (DeleteCompute pf r)"
  unfolding DeleteCompute_def deleteCompute_def by (rule calm_intro calm_ec2 | assumption)+

lemma calm_agent:
  assumes "platform_laws inst pf"
  shows "calm inst (NewVkvmaClient ip n)" "calm inst (GetApplicationLifecycleClient pf v)"
    "calm inst (rpc c (\<lambda>c. rpc_LaunchApplication pf c p))" "calm inst (rpc c (rpc_TerminateApplication pf))"
    "calm inst (terminateApp pf mp)"
  unfolding terminateApp_def NewVkvmaClient_def GetApplicationLifecycleClient_def IsConnected_def Connect_def rpc_def
    Let_def
  by (rule calm_intro calm_call platform_stays [OF assms])+

lemma calm_launchApplication: "platform_laws inst pf \<Longrightarrow> calm inst (launchApplication pf r)"
  unfolding launchApplication_def clean_up_def by (rule calm_intro calm_agent calm_DeleteCompute | assumption)+

lemma calm_DeletePod: "platform_laws inst pf \<Longrightarrow> calm inst (DeletePod pf r)"
  unfolding DeletePod_def Let_def by (rule calm_intro calm_agent calm_DeleteCompute | assumption)+

lemma calm_pool:
  assumes "service_laws inst (Svc (wpm_ec2Client wpm))"
  shows "calm inst (updateEC2Tags wpm iid reason p)" "calm inst (RefreshWarmPoolFromEC2 wpm)"
    "calm inst (GetWarmPoolInstanceIfExist wpm)"
proof -
  show tags: "calm inst (updateEC2Tags wpm iid reason p)" for iid reason p
    unfolding updateEC2Tags_def populateEC2Tags_def Let_def by (rule calm_intro calm_service [OF assms])+
  have load: "calm inst (load_instance wpm i)" for i
    unfolding load_instance_def load_tag_def with_info_def put_info_def put_ready_def put_provisioning_def
      put_unhealthy_def put_allocated_def
    by (rule calm_intro tags)+
  have loop: "calm inst (refresh_loop n wpm outer input)" for n outer input
    by (induction n arbitrary: outer input)
      (simp_all add: Let_def, (rule calm_intro load calm_service [OF assms] | assumption)+)
  show refresh: "calm inst (RefreshWarmPoolFromEC2 wpm)"
    unfolding RefreshWarmPoolFromEC2_def checkEC2TagsForState_def by (rule calm_intro loop)+
  show "calm inst (GetWarmPoolInstanceIfExist wpm)"
    unfolding GetWarmPoolInstanceIfExist_def pop_def popKey_def by (rule calm_intro refresh)+
qed

section \<open>Operations that launch at most one instance\<close>

definition once :: "('w \<Rightarrow> string set) \<Rightarrow> (('w, 'z) base_scheme, 'a) go \<Rightarrow> bool" where
  "once inst m \<longleftrightarrow> (\<forall>s. \<exists>iid. inst (world (fst (m s))) \<subseteq> insert iid (inst (world s)))"

named_theorems once_intro

lemma onceD: "once inst m \<Longrightarrow> m s = (t, x) \<Longrightarrow> \<exists>iid. inst (world t) \<subseteq> insert iid (inst (world s))"
  unfolding once_def by (metis fst_conv)

lemma once_calm: "calm inst m \<Longrightarrow> once inst m"
  unfolding calm_def once_def by blast

lemma once_then_calm:
  assumes "once inst m" and "\<And>a. calm inst (f a)"
  shows "once inst (andthen m f)"
proof -
  have "\<exists>iid. inst (world (fst (andthen m f s))) \<subseteq> insert iid (inst (world s))" for s
    using assms unfolding once_def calm_def
    by (cases "m s"; cases "snd (m s)") (fastforce simp: andthen_run dest: spec [of _ s])+
  then show ?thesis by (simp add: once_def)
qed

lemma calm_then_once:
  fixes m :: "(('w, 'z) base_scheme, 'a) go"
  assumes "calm inst m" and "\<And>s t a. m s = (t, Ret a) \<Longrightarrow> once inst (f a)"
  shows "once inst (andthen m f)"
  unfolding once_def
proof
  fix s :: "('w, 'z) base_scheme"
  obtain t x where m: "m s = (t, x)" by fastforce
  show "\<exists>iid. inst (world (fst (andthen m f s))) \<subseteq> insert iid (inst (world s))"
  proof (cases x)
    case (Ret a)
    then obtain iid where "inst (world (fst (f a t))) \<subseteq> insert iid (inst (world t))"
      using assms(2) m unfolding once_def by metis
    then show ?thesis using calmD [OF assms(1) m] m Ret by (fastforce simp: andthen_run)
  qed (use calmD [OF assms(1) m] m in \<open>auto simp: andthen_run\<close>)
qed

lemma once_cases [once_intro]:
  "(b \<Longrightarrow> once inst m) \<Longrightarrow> (\<not> b \<Longrightarrow> once inst n) \<Longrightarrow> once inst (if b then m else n)"
  "(\<And>e. once inst (f e)) \<Longrightarrow> (\<And>a. once inst (g a)) \<Longrightarrow> once inst (case x of Inl e \<Rightarrow> f e | Inr a \<Rightarrow> g a)"
  "(\<And>a b. once inst (h a b)) \<Longrightarrow> once inst (case z of (a, b) \<Rightarrow> h a b)"
  "once inst (ret a)" "once inst (die c)"
  by (auto split: sum.splits prod.splits intro: once_calm calm_intro)

lemma once_after [once_intro]: "calm inst m \<Longrightarrow> (\<And>a. once inst (f a)) \<Longrightarrow> once inst (andthen m f)"
  by (rule calm_then_once)

lemma once_RunInstances:
  assumes "service_laws inst (Svc c)"
  shows "once inst (EC2RunInstancesUtil prof img ty key sgs subnet tags ud c)"
proof -
  have "\<exists>iid. inst (snd (svc_RunInstances (Svc c) x w)) \<subseteq> insert iid (inst w)" if "MaxCount x = 1" for x w
    using assms that unfolding service_laws_def by blast
  then show ?thesis by (simp add: EC2RunInstancesUtil_def RunInstances_def once_def call_run Let_def)
qed

lemma once_with_client:
  assumes "platform_laws inst pf" and "\<And>e. once inst (f (Inl e))"
    and "\<And>c. service_laws inst (Svc c) \<Longrightarrow> once inst (f (Inr c))"
  shows "once inst (andthen (NewEc2Client pf) f)"
proof (rule calm_then_once [OF calm_clients(1) [OF assms(1)]])
  show "once inst (f a)" if "NewEc2Client pf s = (t, Ret a)" for s t a
    using that client_result(1) [OF _ assms(1), of s t] assms(2,3) by (cases a) auto
qed

lemma once_known_sum:
  "once inst (f e) \<Longrightarrow> once inst (case Inl e of Inl e \<Rightarrow> f e | Inr a \<Rightarrow> g a)"
  "once inst (g a) \<Longrightarrow> once inst (case Inr a of Inl e \<Rightarrow> f e | Inr a \<Rightarrow> g a)"
  by simp_all

lemma once_CreateEC2:
  assumes "platform_laws inst pf"
  shows "once inst (CreateEC2 pf r u b k)"
  unfolding CreateEC2_def Let_def
  by (rule once_with_client [OF assms] once_known_sum once_then_calm [OF once_RunInstances] once_intro calm_intro
      | assumption)+

lemma once_createCompute:
  assumes "platform_laws inst pf"
  shows "once inst (createCompute pf r)"
  unfolding createCompute_def Let_def
  by (rule once_then_calm [OF once_CreateEC2 [OF assms]] once_intro calm_GenerateVKVMUserData [OF assms]
      calm_ec2 [OF assms] calm_intro)+

lemma once_GetCompute:
  assumes "platform_laws inst pf" and "service_laws inst (Svc (wpm_ec2Client (warmPool prov)))"
  shows "once inst (GetCompute pf prov r)"
  unfolding GetCompute_def
  by (rule once_createCompute [OF assms(1)] once_intro calm_ec2 [OF assms(1)] calm_pool [OF assms(2)] calm_intro
      once_calm)+

lemma once_CreatePod:
  assumes "platform_laws inst pf" and "service_laws inst (Svc (wpm_ec2Client (warmPool prov)))"
  shows "once inst (CreatePod pf prov r)"
  unfolding CreatePod_def NewMetaPod_def Let_def
  by (rule once_then_calm [OF once_GetCompute [OF assms]] once_intro calm_launchApplication [OF assms(1)]
      calm_pool [OF assms(2)] calm_intro)+

lemma once_recreatePod:
  assumes "platform_laws inst pf" and "service_laws inst (Svc (wpm_ec2Client (warmPool prov)))"
  shows "once inst (recreatePod pf prov r)"
  unfolding recreatePod_def Let_def
  by (rule once_then_calm [OF once_CreatePod [OF assms]] once_intro calm_DeleteCompute [OF assms(1)] calm_intro)+

section \<open>With a warm pool\<close>

lemma calm_pool_calls:
  assumes "platform_laws inst pf" and "service_laws inst (Svc (wpm_ec2Client (warmPool prov)))"
    and "wpm_config (warmPool prov) \<noteq> []"
  shows "calm inst (CreatePod pf prov r)" "calm inst (recreatePod pf prov r)"
proof -
  have pool: "PodIsWarmPool p (length (wpm_config (warmPool prov)))" for p
    using assms(3) by (simp add: PodIsWarmPool_def)
  have get: "calm inst (GetCompute pf prov r)"
    unfolding GetCompute_def if_P [OF pool] by (rule calm_intro calm_ec2 [OF assms(1)] calm_pool [OF assms(2)])+
  show create: "calm inst (CreatePod pf prov r)"
    unfolding CreatePod_def NewMetaPod_def Let_def
    by (rule get calm_intro calm_launchApplication [OF assms(1)] calm_pool [OF assms(2)])+
  show "calm inst (recreatePod pf prov r)"
    unfolding recreatePod_def Let_def by (rule create calm_intro calm_DeleteCompute [OF assms(1)])+
qed

text \<open>At most \<open>n\<close> more instances in \<open>B\<close> than in \<open>A\<close>.\<close>

definition at_most_more :: "string set \<Rightarrow> nat \<Rightarrow> string set \<Rightarrow> bool" where
  "at_most_more A n B \<longleftrightarrow> (\<exists>new. finite new \<and> card new \<le> n \<and> B \<subseteq> A \<union> new)"

lemma at_most_calm: "at_most_more A n B \<Longrightarrow> C \<subseteq> B \<Longrightarrow> at_most_more A n C"
  unfolding at_most_more_def by blast

lemma at_most_same: "B \<subseteq> A \<Longrightarrow> at_most_more A n B"
  unfolding at_most_more_def by (intro exI [of _ "{}"]) simp

lemma at_most_trans:
  assumes "at_most_more A n B" and "at_most_more B k C"
  shows "at_most_more A (n + k) C"
proof -
  obtain new1 new2 where "finite new1" "card new1 \<le> n" "B \<subseteq> A \<union> new1" "finite new2" "card new2 \<le> k" "C \<subseteq> B \<union> new2"
    using assms unfolding at_most_more_def by blast
  moreover from this have "card (new1 \<union> new2) \<le> n + k" using card_Un_le [of new1 new2] by simp
  ultimately show ?thesis unfolding at_most_more_def by (intro exI [of _ "new1 \<union> new2"]) auto
qed

lemma at_most_mono: "at_most_more A n B \<Longrightarrow> n \<le> k \<Longrightarrow> at_most_more A k B"
  unfolding at_most_more_def by (meson order_trans)

definition adds_at_most :: "('w \<Rightarrow> string set) \<Rightarrow> nat \<Rightarrow> (('w, 'z) base_scheme, 'a) go \<Rightarrow> bool" where
  "adds_at_most inst n m \<longleftrightarrow> (\<forall>s. at_most_more (inst (world s)) n (inst (world (fst (m s)))))"

lemma launchesD: "adds_at_most inst n m \<Longrightarrow> m s = (t, x) \<Longrightarrow> at_most_more (inst (world s)) n (inst (world t))"
  unfolding adds_at_most_def by (metis fst_conv)

lemma launches_calm: "calm inst m \<Longrightarrow> adds_at_most inst n m"
  by (simp add: adds_at_most_def calm_def at_most_same)

lemma launches_once: "once inst m \<Longrightarrow> adds_at_most inst 1 m"
  unfolding adds_at_most_def
proof
  fix s
  assume "once inst m"
  then obtain iid where "inst (world (fst (m s))) \<subseteq> inst (world s) \<union> {iid}" unfolding once_def by blast
  then show "at_most_more (inst (world s)) 1 (inst (world (fst (m s))))"
    unfolding at_most_more_def by (intro exI [of _ "{iid}"]) simp
qed

lemma launches_then:
  fixes m :: "(('w, 'z) base_scheme, 'a) go"
  assumes "adds_at_most inst n m" and "\<And>a. adds_at_most inst k (f a)"
  shows "adds_at_most inst (n + k) (andthen m f)"
  unfolding adds_at_most_def
proof
  fix s :: "('w, 'z) base_scheme"
  obtain t x where m: "m s = (t, x)" by fastforce
  note first = launchesD [OF assms(1) m]
  show "at_most_more (inst (world s)) (n + k) (inst (world (fst (andthen m f s))))"
  proof (cases x)
    case (Ret a)
    then show ?thesis using m at_most_trans [OF first] assms(2) by (simp add: andthen_run adds_at_most_def)
  next
    case (Crash c)
    then show ?thesis using m at_most_mono [OF first] by (simp add: andthen_run)
  qed
qed

lemma launches_repeat: "adds_at_most inst k m \<Longrightarrow> adds_at_most inst (n * k) (repeat_n n m)"
  by (induction n) (auto intro: launches_calm calm_intro launches_then)

lemma launches_for_each:
  "(\<And>x. adds_at_most inst (cost x) (g x)) \<Longrightarrow> adds_at_most inst (\<Sum>x\<leftarrow>xs. cost x) (for_each g xs)"
  by (induction xs) (auto intro: launches_calm calm_intro launches_then)

lemma launches_mono: "adds_at_most inst n m \<Longrightarrow> n \<le> k \<Longrightarrow> adds_at_most inst k m"
  unfolding adds_at_most_def using at_most_mono by blast

lemma once_createWarmEC2:
  assumes "platform_laws inst pf" and "service_laws inst (Svc (wpm_ec2Client wpm))"
  shows "once inst (createWarmEC2 pf wpm wpc)"
proof -
  have "once inst (CreateWarmEC2 pf wpm wpc tags)" for tags
    unfolding CreateWarmEC2_def Let_def
    by (rule once_then_calm [OF once_RunInstances [OF assms(2)]] once_intro calm_GenerateVKVMUserData [OF assms(1)]
        calm_intro)+
  note create = once_then_calm [OF this]
  show ?thesis
    unfolding createWarmEC2_def populateEC2Tags_def put_provisioning_def put_info_def Let_def split_beta
    by (rule create once_intro calm_intro)+
qed

text \<open>The sizes that the pools want, together.\<close>

definition pool_size :: "'w WarmPoolManager \<Rightarrow> nat" where
  "pool_size wpm = (\<Sum>wpc\<leftarrow>wpm_config wpm. nat (DesiredCount wpc))"

lemma launches_depth_tick:
  assumes "platform_laws inst pf" and "service_laws inst (Svc (wpm_ec2Client wpm))"
  shows "adds_at_most inst (pool_size wpm) (depth_tick pf wpm)"
proof -
  have "calm inst pop_excess" unfolding pop_excess_def pop_def popKey_def by (rule calm_intro)+
  then have pops: "calm inst (pop_excesses n ids)" for n ids
    by (induction n arbitrary: ids) (auto intro: calm_intro)
  have body: "adds_at_most inst (nat (DesiredCount wpc)) (if int count < DesiredCount wpc then
      repeat_n (nat (DesiredCount wpc - int count)) (andthen (createWarmEC2 pf wpm wpc) (\<lambda>_. ret ()))
    else if int count > DesiredCount wpc then
      andthen (pop_excesses (nat (int count - DesiredCount wpc)) []) (\<lambda>terminatingInstances.
      andthen (TerminateInstances (wpm_ec2Client wpm) terminatingInstances) (\<lambda>r.
      andthen (case r of Inl err \<Rightarrow> Inc WarmEC2TerminationErrors | Inr _ \<Rightarrow> ret ()) (\<lambda>_.
      Inc WarmEC2Terminated)))
    else ret ())" (is "adds_at_most inst ?n (if ?less then ?fill else ?drop)") for wpc count
  proof (cases ?less)
    case True
    have "adds_at_most inst (nat (DesiredCount wpc - int count) * 1) ?fill"
      by (intro launches_repeat launches_once once_then_calm [OF once_createWarmEC2 [OF assms]] calm_intro)
    then show ?thesis unfolding if_P [OF True] by (rule launches_mono) simp
  next
    case False
    have "calm inst ?drop" by (rule pops calm_intro calm_service [OF assms(2)])+
    then show ?thesis unfolding if_not_P [OF False] by (rule launches_calm)
  qed
  have "adds_at_most inst (nat (DesiredCount wpc)) (CheckWarmPoolDepth pf wpm wpc)" for wpc
    using body [of wpc] unfolding adds_at_most_def CheckWarmPoolDepth_def andthen_gets by blast
  then show ?thesis unfolding depth_tick_def pool_size_def by (rule launches_for_each)
qed

section \<open>Runs\<close>

text \<open>The provider as it is when it leaves the pool alone.\<close>

definition without_pool :: "'w Ec2Provider \<Rightarrow> 'w Ec2Provider" where
  "without_pool prov = prov\<lparr>warmPool := (warmPool prov)\<lparr>wpm_config := []\<rparr>\<rparr>"

text \<open>
  A run of the provider, with the number of its calls that create or recreate a pod and of the checks of the
  pool's depth.  While the provider is idle the world may change in any way, except that nobody else launches
  instances.
\<close>

inductive sole_run ::
  "('w \<Rightarrow> string set) \<Rightarrow> ('w, 'e) platform_scheme \<Rightarrow> 'w Ec2Provider \<Rightarrow> ('w, 'z) prov_scheme \<Rightarrow> nat \<Rightarrow> nat \<Rightarrow>
   ('w, 'z) prov_scheme \<Rightarrow> bool" for inst pf prov where
  sole_start: "sole_run inst pf prov s 0 0 s"
| sole_own: "sole_run inst pf prov s n k t \<Longrightarrow> own_step pf (without_pool prov) t u \<Longrightarrow> sole_run inst pf prov s n k u"
| sole_passes: "sole_run inst pf prov s n k t \<Longrightarrow> inst w \<subseteq> inst (world t) \<Longrightarrow>
    sole_run inst pf prov s n k (t\<lparr>world := w, clock := c, choices := cs\<rparr>)"
| sole_check: "sole_run inst pf prov s n k t \<Longrightarrow> depth_tick pf (warmPool prov) t = (u, Ret ()) \<Longrightarrow>
    sole_run inst pf prov s n (Suc k) u"
| sole_refresh: "sole_run inst pf prov s n k t \<Longrightarrow> refresh_tick (warmPool prov) t = (u, Ret ()) \<Longrightarrow>
    sole_run inst pf prov s n k u"
| sole_create: "sole_run inst pf prov s n k t \<Longrightarrow> CreatePod pf prov r t = (u, Ret err) \<Longrightarrow>
    sole_run inst pf prov s (Suc n) k u"
| sole_recreate: "sole_run inst pf prov s n k t \<Longrightarrow> recreatePod pf prov r t = (u, Ret ()) \<Longrightarrow>
    sole_run inst pf prov s (Suc n) k u"
| sole_update: "sole_run inst pf prov s n k t \<Longrightarrow> UpdatePod r t = (u, Ret err) \<Longrightarrow> sole_run inst pf prov s n k u"
| sole_delete: "sole_run inst pf prov s n k t \<Longrightarrow> DeletePod pf r t = (u, Ret err) \<Longrightarrow> sole_run inst pf prov s n k u"

lemma own_step_calm:
  assumes "own_step pf (without_pool prov) s t" and "platform_laws inst pf"
  shows "inst (world t) \<subseteq> inst (world s)"
proof -
  have none: "wpm_config (warmPool (without_pool prov)) = []" by (simp add: without_pool_def)
  show ?thesis
    using assms(1) none
  proof (induction rule: own_step.induct)
    case (pool_ticks s t)
    then show ?case by (simp add: depth_tick_def ret_run)
  next
    case (pool_refreshes s t)
    then show ?case by (simp add: refresh_tick_def ret_run)
  next
    case (arrives s r p)
    show ?case by simp
  qed (erule calmD [rotated], rule calm_intro)+
qed

lemma calm_refresh_tick: "service_laws inst (Svc (wpm_ec2Client wpm)) \<Longrightarrow> calm inst (refresh_tick wpm)"
  unfolding refresh_tick_def by (rule calm_intro calm_pool | assumption)+

text \<open>What a call that creates a pod may launch.\<close>

lemma launches_creates:
  assumes "platform_laws inst pf" and "service_laws inst (Svc (wpm_ec2Client (warmPool prov)))"
  shows "adds_at_most inst (if wpm_config (warmPool prov) = [] then 1 else 0) (CreatePod pf prov r)"
    "adds_at_most inst (if wpm_config (warmPool prov) = [] then 1 else 0) (recreatePod pf prov r)"
proof -
  show "adds_at_most inst (if wpm_config (warmPool prov) = [] then 1 else 0) (CreatePod pf prov r)"
    using launches_once [OF once_CreatePod [OF assms]] launches_calm [OF calm_pool_calls(1) [OF assms]]
    by (metis (full_types))
  show "adds_at_most inst (if wpm_config (warmPool prov) = [] then 1 else 0) (recreatePod pf prov r)"
    using launches_once [OF once_recreatePod [OF assms]] launches_calm [OF calm_pool_calls(2) [OF assms]]
    by (metis (full_types))
qed

text \<open>
  C8: while nobody else launches instances in the account, and whatever AWS and the agents answer, a run of the
  provider with \<open>n\<close> calls that create or recreate pods and \<open>k\<close> checks of the pool's depth adds at most \<open>n\<close>
  instances without a warm pool, and with one at most \<open>k\<close> times the sizes of the pools, however many pods are
  created; updates, deletions, queries and the other goroutines add none.  So with a warm pool configured no
  pod ever gets an instance launched for it, not even when none is ready; the architecture document says
  that one will be launched then.
\<close>

theorem launches_bounded:
  assumes "platform_laws inst pf" and "service_laws inst (Svc (wpm_ec2Client (warmPool prov)))"
    and "sole_run inst pf prov s n k t"
  shows "\<exists>new. finite new \<and> inst (world t) \<subseteq> inst (world s) \<union> new \<and>
    card new \<le> (if wpm_config (warmPool prov) = [] then n else k * pool_size (warmPool prov))"
proof -
  note laws = assms(1,2)
  let ?c = "if wpm_config (warmPool prov) = [] then 1 else 0" and ?p = "pool_size (warmPool prov)"
  have "at_most_more (inst (world s)) (n * ?c + k * ?p) (inst (world t))"
    using assms(3)
  proof (induction rule: sole_run.induct)
    case (sole_start s)
    show ?case by (rule at_most_same) simp
  next
    case (sole_own s n k t u)
    show ?case by (rule at_most_calm [OF sole_own(3) own_step_calm [OF sole_own(2) assms(1)]])
  next
    case (sole_passes s n k t w c cs)
    then show ?case by (simp add: at_most_calm)
  next
    case (sole_check s n k t u)
    show ?case
      using at_most_trans [OF sole_check(3) launchesD [OF launches_depth_tick [OF laws] sole_check(2)]]
      by (simp add: algebra_simps)
  next
    case (sole_refresh s n k t u)
    show ?case by (rule at_most_calm [OF sole_refresh(3) calmD [OF calm_refresh_tick [OF laws(2)] sole_refresh(2)]])
  next
    case (sole_create s n k t r u err)
    show ?case
      using at_most_trans [OF sole_create(3) launchesD [OF launches_creates(1) [OF laws] sole_create(2)]]
      by (simp add: algebra_simps)
  next
    case (sole_recreate s n k t r u)
    show ?case
      using at_most_trans [OF sole_recreate(3) launchesD [OF launches_creates(2) [OF laws] sole_recreate(2)]]
      by (simp add: algebra_simps)
  next
    case (sole_update s n k t r u err)
    show ?case by (rule at_most_calm [OF sole_update(3)]) (rule calmD [OF calm_queries(6) sole_update(2)])
  next
    case (sole_delete s n k t r u err)
    show ?case by (rule at_most_calm [OF sole_delete(3) calmD [OF calm_DeletePod [OF assms(1)] sole_delete(2)]])
  qed
  moreover have "wpm_config (warmPool prov) = [] \<Longrightarrow> ?p = 0" by (simp add: pool_size_def)
  ultimately show ?thesis by (auto simp: at_most_more_def split: if_splits)
qed

section \<open>The sample cloud\<close>

definition vm_ids :: "cloud \<Rightarrow> string set" where
  "vm_ids w = {k. \<exists>i \<in> set (vms w). InstanceId i = Some k}"

lemma cloud_laws: "service_laws vm_ids cloud_service" "platform_laws vm_ids cloud_platform"
proof -
  show laws: "service_laws vm_ids cloud_service"
    unfolding service_laws_def stays_def
    by (auto simp: cloud_service_def cloud_terminate_def cloud_describe_def cloud_status_def cloud_tag_def cloud_run_def
        Let_def vm_ids_def split: if_splits)
  show "platform_laws vm_ids cloud_platform"
    using laws by (simp add: platform_laws_def stays_def cloud_platform_def)
qed

theorem launches_bounded_witness:
  "\<exists>t new. CreatePod cloud_platform (sample_provider []) 0 running_state = (t, Ret None) \<and>
    finite new \<and> card new \<le> 1 \<and> vm_ids (world t) \<subseteq> vm_ids (world running_state) \<union> new"
proof -
  obtain t where t: "CreatePod cloud_platform (sample_provider []) 0 running_state = (t, Ret None)"
    by (rule create_running)
  have "service_laws vm_ids (Svc (wpm_ec2Client (warmPool (sample_provider []))))"
    using cloud_laws by (simp add: sample_wpm_def the_client_def)
  from launches_bounded [OF cloud_laws(2) this sole_create [OF sole_start t]] t show ?thesis by auto
qed

end
