(* ===== verification/Vk_Main.thy ===== *)
theory Vk_Main
  imports Provider_Refinement
begin

text \<open>
  \<open>cmd/virtual-kubelet/main.go\<close>: \<open>main\<close> itself.  Its variables \<open>o\<close> and \<open>p\<close> are shared with the two functions it
  hands to Virtual Kubelet's command line, so they are part of the state.  The command line is an argument;
  of it, what its documentation promises is used: it reads the flags into \<open>o\<close>, runs the callback, and then
  the command.
\<close>

section \<open>The program\<close>

record 'w command = "'w prov" +
  the_opts :: opts
  the_provider :: "'w Ec2Provider option"

text \<open>The options of \<open>cli.New\<close>; the base options are \<open>the_opts\<close> of the state.\<close>

record ('s, 'w) cli_options =
  cli_version :: string
  cli_build_time :: string
  pre_run_callback :: "('s, go_error option) go"
  cli_provider :: "string \<times> ('s, go_error + 'w Ec2Provider option) go"

text \<open>What \<open>main\<close> uses of the environment and of the command line: \<open>opts.FromEnv\<close>, \<open>cli.New\<close> with \<open>Run\<close>, \<open>runtime.GOARCH\<close>.\<close>

record ('s, 'w) cli =
  FromEnv :: "'w \<Rightarrow> (go_error + opts) \<times> 'w"
  New :: "('s, 'w) cli_options \<Rightarrow> ('s, go_error + ('s, go_error option) go) go"
  GOARCH :: string

definition buildVersion :: string where
  "buildVersion = ''N/A''"

definition buildTime :: string where
  "buildTime = ''N/A''"

definition k8sVersion :: string where
  "k8sVersion = ''v1.19.10''"

definition main_opts :: "string \<Rightarrow> opts \<Rightarrow> opts" where
  "main_opts goarch o1 = o1\<lparr>Provider := ''ec2'', ProviderConfigPath := DefaultConfigLocation,
     Version := join ''-'' [k8sVersion, ''vk-aws-ec2'', buildVersion, goarch]\<rparr>"

definition run_callback ::
  "('w, 'e) kube_platform_scheme \<Rightarrow> string list \<Rightarrow> ('w command, go_error option) go" where
  "run_callback pf args =
     andthen (gets the_opts) (\<lambda>o1.
     andthen (pre_run pf args o1) (\<lambda>(err, o2, p).
     andthen (modify (\<lambda>s. s\<lparr>the_opts := o2, the_provider := Some p\<rparr>)) (\<lambda>_. ret err)))"

definition provider_function :: "('w command, go_error + 'w Ec2Provider option) go" where
  "provider_function = andthen (gets the_provider) (\<lambda>p. ret (Inr p))"

definition main_cli_options ::
  "('w, 'e) kube_platform_scheme \<Rightarrow> string list \<Rightarrow> opts \<Rightarrow> ('w command, 'w) cli_options" where
  "main_cli_options pf args o1 = \<lparr>cli_version = Version o1, cli_build_time = buildTime,
     pre_run_callback = run_callback pf args, cli_provider = (''ec2'', provider_function)\<rparr>"

definition fatal_on :: "go_error option \<Rightarrow> ('s, unit) go" where
  "fatal_on err = (case err of Some e \<Rightarrow> die (LogFatal (Error e)) | None \<Rightarrow> ret ())"

definition main ::
  "('w, 'e) kube_platform_scheme \<Rightarrow> ('w command, 'w) cli \<Rightarrow> string list \<Rightarrow> ('w command, unit) go" where
  "main pf c args =
     andthen (call (FromEnv c)) (\<lambda>env. case env of
       Inl err \<Rightarrow> die (LogFatal (Error err))
     | Inr o0 \<Rightarrow>
         (let o1 = main_opts (GOARCH c) o0 in
          andthen (modify (\<lambda>s. s\<lparr>the_opts := o1, the_provider := None\<rparr>)) (\<lambda>_.
          andthen (New c (main_cli_options pf args o1)) (\<lambda>cliCommand. case cliCommand of
            Inl err \<Rightarrow> die (LogFatal (Error err))
          | Inr run \<Rightarrow> andthen run fatal_on))))"

section \<open>Starting Virtual Kubelet\<close>

text \<open>
  The documented behaviour of the command line: \<open>parse\<close> is the effect of the flags on the options, \<open>body\<close> the
  command that the user asked for.
\<close>

definition runs_commands ::
  "(opts \<Rightarrow> opts) \<Rightarrow> (('w command, 'w) cli_options \<Rightarrow> ('w command, go_error option) go) \<Rightarrow> ('w command, 'w) cli \<Rightarrow> bool"
where
  "runs_commands parse body c \<longleftrightarrow> (\<forall>options s. New c options s = (s, Ret (Inr
     (andthen (modify (\<lambda>s. s\<lparr>the_opts := parse (the_opts s)\<rparr>)) (\<lambda>_.
      andthen (pre_run_callback options) (\<lambda>err. case err of
        Some e \<Rightarrow> ret (Some e)
      | None \<Rightarrow> body options))))))"

text \<open>The options and the state with which the callback is called.\<close>

definition parsed :: "(opts \<Rightarrow> opts) \<Rightarrow> ('w command, 'w) cli \<Rightarrow> opts \<Rightarrow> opts" where
  "parsed parse c o0 = parse (main_opts (GOARCH c) o0)"

definition at_callback :: "(opts \<Rightarrow> opts) \<Rightarrow> ('w command, 'w) cli \<Rightarrow> opts \<Rightarrow> 'w \<Rightarrow> 'w command \<Rightarrow> 'w command" where
  "at_callback parse c o0 w s = s\<lparr>world := w, the_provider := None, the_opts := parsed parse c o0\<rparr>"

lemma main_cli_options_fields [simp]:
  "pre_run_callback (main_cli_options pf args o1) = run_callback pf args"
  "cli_provider (main_cli_options pf args o1) = (''ec2'', provider_function)"
  by (simp_all add: main_cli_options_def)

lemma main_run:
  assumes "FromEnv c (world s) = (Inr o0, w)" and "runs_commands parse body c"
  shows "main pf c args s = andthen (andthen (run_callback pf args) (\<lambda>err. case err of
      Some e \<Rightarrow> ret (Some e)
    | None \<Rightarrow> body (main_cli_options pf args (main_opts (GOARCH c) o0)))) fatal_on (at_callback parse c o0 w s)"
  using assms unfolding runs_commands_def
  by (simp add: main_def call_run modify_run andthen_run Let_def at_callback_def parsed_def)

lemma run_callback_run:
  assumes "pre_run pf args (the_opts s) s = (t, Ret (err, o2, p))"
  shows "run_callback pf args s = (t\<lparr>the_opts := o2, the_provider := Some p\<rparr>, Ret err)"
  using assms by (simp add: run_callback_def andthen_run gets_run modify_run ret_run)

lemma cache_ok_command: "cache_ok (t\<lparr>the_opts := o2, the_provider := q\<rparr>) = cache_ok t"
  by (simp add: cache_ok_def fresh_ok_def cache_good_def cache_view_def entry_ok_def podmon_complete_def
      cong: option.case_cong)

lemma pre_run_opts:
  assumes "pre_run pf args o1 s = (t, Ret (None, o2, p))"
  shows "o2 = o1\<lparr>NodeName := ProviderNodeName p\<rparr>"
  using assms unfolding pre_run_split restore_pods_def
  by (elim andthen_RetE) (auto simp: die_run ret_run elim!: andthen_RetE split: sum.splits)

text \<open>
  C15: \<open>main\<close>, once the callback has succeeded: Virtual Kubelet's command runs in a state whose options carry
  the provider's own node name, whatever \<open>--nodename\<close> was given, whose cache is consistent, and in which the
  function registered for ``ec2'' hands over this very provider; an error of the command ends the process.
\<close>

theorem main_hands_over:
  assumes "FromEnv c (world s) = (Inr o0, w)" and "runs_commands parse body c" and "fresh_ok s"
    and "pre_run pf args (parsed parse c o0) (at_callback parse c o0 w s) = (s1, Ret (None, o2, p))"
  shows "\<exists>t options. main pf c args s = andthen (body options) fatal_on t \<and>
    the_opts t = (parsed parse c o0)\<lparr>NodeName := ProviderNodeName p\<rparr> \<and> cache_ok t \<and>
    fst (cli_provider options) = ''ec2'' \<and> snd (cli_provider options) t = (t, Ret (Inr (Some p)))"
proof -
  let ?t = "s1\<lparr>the_opts := o2, the_provider := Some p\<rparr>"
  let ?options = "main_cli_options pf args (main_opts (GOARCH c) o0)"
  have "the_opts (at_callback parse c o0 w s) = parsed parse c o0" by (simp add: at_callback_def)
  with assms(4) have "run_callback pf args (at_callback parse c o0 w s) = (?t, Ret None)"
    by (simp add: run_callback_run)
  then have "main pf c args s = andthen (body ?options) fatal_on ?t"
    by (simp add: main_run [OF assms(1,2)] andthen_assoc andthen_run)
  moreover have "fresh_ok (at_callback parse c o0 w s)" using assms(3) by (simp add: at_callback_def fresh_ok_def)
  then have "cache_ok ?t" using pre_run_ok [OF assms(4)] by (simp add: cache_ok_command)
  moreover have "snd (cli_provider ?options) ?t = (?t, Ret (Inr (Some p)))"
    by (simp add: provider_function_def andthen_run gets_run ret_run)
  ultimately show ?thesis
    using pre_run_opts [OF assms(4)] by (intro exI [of _ ?t] exI [of _ ?options]) simp
qed

text \<open>
  The callback belongs to every command: it makes the provider, and with it the node's interface and the warm
  pool, before a command that only prints something, and its error keeps that command from running.
\<close>

theorem main_callback_error:
  assumes "FromEnv c (world s) = (Inr o0, w)" and "runs_commands parse body c"
    and "pre_run pf args (parsed parse c o0) (at_callback parse c o0 w s) = (s1, Ret (Some e, o2, p))"
  shows "main pf c args s = (s1\<lparr>the_opts := o2, the_provider := Some p\<rparr>, Crash (LogFatal (Error e)))"
proof -
  have "the_opts (at_callback parse c o0 w s) = parsed parse c o0" by (simp add: at_callback_def)
  with assms(3) have "run_callback pf args (at_callback parse c o0 w s) =
      (s1\<lparr>the_opts := o2, the_provider := Some p\<rparr>, Ret (Some e))"
    by (simp add: run_callback_run)
  then show ?thesis by (simp add: main_run [OF assms(1,2)] andthen_run ret_run fatal_on_def die_run)
qed

section \<open>A concrete command line\<close>

definition sample_command :: "cloud command" where
  "sample_command = prov.extend start_state \<lparr>the_opts = start_opts, the_provider = None\<rparr>"

text \<open>A command line with \<open>--nodename mine\<close>, whose command asks for the provider.\<close>

definition ask_provider :: "('s, 'w) cli_options \<Rightarrow> ('s, go_error option) go" where
  "ask_provider options = andthen (snd (cli_provider options)) (\<lambda>p. ret (case p of
     Inr (Some _) \<Rightarrow> None
   | _ \<Rightarrow> Some (ErrorString ''no provider'')))"

definition sample_cli :: "(cloud command, cloud) cli" where
  "sample_cli = \<lparr>FromEnv = (\<lambda>w. (Inr start_opts, w)),
     New = (\<lambda>options. ret (Inr (andthen (modify (\<lambda>s. s\<lparr>the_opts := (the_opts s)\<lparr>NodeName := ''mine''\<rparr>\<rparr>)) (\<lambda>_.
       andthen (pre_run_callback options) (\<lambda>err. case err of
         Some e \<Rightarrow> ret (Some e)
       | None \<Rightarrow> ask_provider options))))),
     GOARCH = ''amd64''\<rparr>"

lemma sample_cli_facts:
  "FromEnv sample_cli (world sample_command) = (Inr start_opts, node_cloud)" "fresh_ok sample_command"
  "runs_commands (\<lambda>o1. o1\<lparr>NodeName := ''mine''\<rparr>) ask_provider sample_cli"
  by (simp_all add: sample_cli_def sample_command_def prov.defs start_state_def sample_prov_def fresh_ok_def
      runs_commands_def ret_run)

theorem main_hands_over_witness:
  "\<exists>t. main (cloud_kube (Inr 4) [sample_pod]) sample_cli [''vk''] sample_command = (t, Ret ()) \<and>
    NodeName (the_opts t) = ''fargate-ip-10-0-0-3'' \<and> cache_ok t"
proof -
  let ?parse = "\<lambda>o1. o1\<lparr>NodeName := ''mine''\<rparr>"
  have "world (at_callback ?parse sample_cli start_opts node_cloud sample_command) = node_cloud"
    by (simp add: at_callback_def)
  from sample_start_at [OF this, where pod = sample_pod and opts = "parsed ?parse sample_cli start_opts"] obtain s1 p where s1:
    "pre_run (cloud_kube (Inr 4) [sample_pod]) [''vk''] (parsed ?parse sample_cli start_opts)
        (at_callback ?parse sample_cli start_opts node_cloud sample_command) =
      (s1, Ret (None, (parsed ?parse sample_cli start_opts)\<lparr>NodeName := ''fargate-ip-10-0-0-3''\<rparr>, p))"
    by blast
  from main_hands_over [OF sample_cli_facts(1,3,2) s1] obtain t options where t:
    "main (cloud_kube (Inr 4) [sample_pod]) sample_cli [''vk''] sample_command =
      andthen (ask_provider options) fatal_on t"
    "the_opts t = (parsed ?parse sample_cli start_opts)\<lparr>NodeName := ProviderNodeName p\<rparr>" "cache_ok t"
    "snd (cli_provider options) t = (t, Ret (Inr (Some p)))"
    by (elim exE conjE)
  have "NodeName (the_opts t) = ''fargate-ip-10-0-0-3''"
    using arg_cong [OF pre_run_opts [OF s1], of NodeName] t(2) by simp
  moreover have "andthen (ask_provider options) fatal_on t = (t, Ret ())"
    by (simp add: ask_provider_def andthen_run t(4) ret_run fatal_on_def)
  ultimately show ?thesis using t(1,3) by auto
qed

end
