(* ===== verification/Spec2Isabelle.thy ===== *)
theory Spec2Isabelle
  imports
    Go_Prelude Go_Strings Go_Map
    Metrics Config Base
    K8s Utils
    Health Health_Loops
    Aws Sample_Cloud Ec2_Utils User_Data
    Warm_Pool Warm_Pool_Facts Warm_Pool_Lock
    Pod_Cache Pod_Cache_Lock Vkvma_Client Eni_Node
    Compute Provider Provider_Frame Provider_Facts Provider_Life Provider_Start
    K8s_Client Command Deployment
    Agent_Health Agent_Lifecycle Bootstrap_Agent
    Go_Time Provider_Invariant Provider_Refinement Provider_Threads Provider_Interleaved Provider_Launches Vk_Main
begin

text \<open>
  A verified model of the AWS provider for Virtual Kubelet.

  The program.  Virtual Kubelet asks a provider to run Kubernetes pods; this provider runs every pod on an
  EC2 instance of its own.  \<open>cmd/virtual-kubelet/main.go\<close> makes the provider and restores its cache of pods
  from Kubernetes.  The provider (\<open>internal/ec2provider/ec2provider.go\<close>) creates, updates and deletes pods:
  it obtains an instance from the compute manager (\<open>compute.go\<close>), which reuses the pod's own instance, takes
  one of the warm pool (\<open>warmpool.go\<close>) or launches one (\<open>internal/awsutils\<close>); it has the agent on the
  instance start the application (\<open>internal/vkvmaclient\<close>), keeps the pod in its cache (\<open>podcache.go\<close>,
  \<open>metapod.go\<close>) and watches it with monitors (\<open>internal/health\<close>), which report to Virtual Kubelet through a
  notifier (\<open>internal/utils/notifier.go\<close>).  \<open>eninode.go\<close> makes the virtual node, \<open>internal/config\<close> holds the
  configuration, \<open>internal/metrics\<close> the counters, and \<open>deploy/vkstack\<close> the policy the provider runs under.

  How it is modelled.  A Go function with effects is a function from the state to a new state and an outcome
  (\<open>go\<close> in \<^theory_text>\<open>Go_Prelude\<close>): the value returned, or the way in which the process died (nil dereference, write
  to a nil map, call of a nil function, index out of range, \<open>panic\<close>, \<open>Fatal\<close>).  Go's \<open>error\<close> results are
  values of type \<open>go_error + 'a\<close>.  The state is one record that every component extends with its variables:
  \<open>base\<close> (outside world, configuration, counters, choices of the runtime, clock), \<open>kube\<close> (pod objects,
  notifications), \<open>health\<close> (monitors, handlers, pod monitors, contexts), \<open>warm\<close> (\<open>VKState\<close>, \<open>nodeName\<close>) and
  \<open>prov\<close> (cache entries, the cache, the provider's notifier); an operation of a component runs on the state
  of any component above it.  What the program shares through pointers (pods, monitors, cache entries) lives
  in heaps indexed by references.  Go maps are association lists with distinct keys, visited in an order that
  is an argument.  The outside world is a type variable: the AWS SDK, gRPC, the Kubernetes client, the file
  system, the environment and JSON decoding are fields of the records \<open>sdk\<close>, \<open>platform\<close> and \<open>kube_platform\<close>,
  about which a theorem assumes only what its hypotheses say; \<open>Sample_Cloud\<close> is a small EC2 on which the
  witnesses run.  Log calls are left out unless evaluating their arguments can crash.

  The theories.
  \<^item> \<^theory_text>\<open>Go_Prelude\<close>, \<^theory_text>\<open>Go_Strings\<close>, \<^theory_text>\<open>Go_Map\<close>, \<^theory_text>\<open>Go_Time\<close>: the part of Go and its standard library that is
    used; the locale of a map (\<open>store\<close>) with its interpretation; durations of 64 bits, which wrap around.
  \<^item> \<^theory_text>\<open>Metrics\<close>, \<^theory_text>\<open>Config\<close>, \<^theory_text>\<open>Base\<close>: \<open>internal/metrics\<close> and \<open>internal/config\<close>; registration of the counters,
    what the endpoint shows, the defaults against tables of the tagged fields (\<open>defaulted\<close>), validation, loading.
  \<^item> \<^theory_text>\<open>K8s\<close>, \<^theory_text>\<open>Utils\<close>: the parts of a pod that are used, and \<open>internal/utils\<close>.
  \<^item> \<^theory_text>\<open>Health\<close>, \<^theory_text>\<open>Health_Loops\<close>: \<open>internal/health\<close>; first the operations with the state of a monitor as a
    function of its history, then the goroutines, the handler's channel and the cancelled context as a step
    relation, with an invariant of all its reachable states, what stopping waits for and leaves behind, and
    when it waits for ever.  The operation \<open>Stop\<close> is the run in which the wait ends (\<open>Stop_leaves_waited_marks\<close>);
    the step relation has the goroutines of one started pod with its one receiver (\<open>started\<close>), while in the
    provider the receivers of all pods share the default handler's channel.
  \<^item> \<^theory_text>\<open>Aws\<close>, \<^theory_text>\<open>Ec2_Utils\<close>, \<^theory_text>\<open>User_Data\<close>: \<open>internal/awsutils\<close>, and the reading of the user data in
    \<open>examples/bootstrap_agent/utils.go\<close>; what each call sends and what each answer leads to, and the round
    trip of the user data through EC2 to the agent.
  \<^item> \<^theory_text>\<open>Warm_Pool\<close>, \<^theory_text>\<open>Warm_Pool_Facts\<close>, \<^theory_text>\<open>Warm_Pool_Lock\<close>: \<open>warmpool.go\<close>; the operations, what a refresh, a
    depth check and a take do to the pool, and the mutex that guards it.  AWS may fail at any call
    (\<open>ec2_answers\<close> says what it answers when it does not); where a theorem needs the tags to be
    writable it says so (\<open>tagging_works\<close>).
  \<^item> \<^theory_text>\<open>Pod_Cache\<close>, \<^theory_text>\<open>Vkvma_Client\<close>, \<^theory_text>\<open>Eni_Node\<close>, \<^theory_text>\<open>Compute\<close>: \<open>podcache.go\<close> and \<open>metapod.go\<close> with the locale
    \<open>pod_store\<close> and its interpretation, \<open>vkvmaclient.go\<close>, \<open>eninode.go\<close>, \<open>compute.go\<close>.
  \<^item> \<^theory_text>\<open>Provider\<close>: every method of \<open>ec2provider.go\<close>.  \<^theory_text>\<open>Provider_Frame\<close> collects what the operations below
    it leave alone (\<open>framed\<close>); \<^theory_text>\<open>Provider_Facts\<close> and \<^theory_text>\<open>Provider_Life\<close> show what creating, updating and deleting
    a pod do on every path; \<^theory_text>\<open>Provider_Start\<close> is about starting up, the status loop and the bounds of its interval.
  \<^item> \<^theory_text>\<open>K8s_Client\<close>, \<^theory_text>\<open>Command\<close>, \<^theory_text>\<open>Vk_Main\<close>: \<open>internal/k8sutils\<close>, the callback of \<open>main.go\<close>, and \<open>main\<close> with the
    command line of Virtual Kubelet as an argument.
  \<^item> \<^theory_text>\<open>Deployment\<close>: \<open>deploy/vkstack\<close> as the list of its declarations, what they grant to the provider's role and
    what the provider does without the rest.
  \<^item> \<^theory_text>\<open>Provider_Invariant\<close>: the life of a provider as a step relation over the calls of Virtual Kubelet, the turns of
    the monitors' goroutines, the handled check results and the ticks of the pool; the invariant that every
    reference in the cache stays valid, from the start in \<open>pre_run\<close> on, and that the queries always return.
  \<^item> \<^theory_text>\<open>Provider_Refinement\<close>: the same life as a refinement of a table of pods, with the calls and their results as
    observations: every run of the provider is a run of the table, whatever AWS, the agents and the goroutines
    do.  The last section shows what the table's keys cannot tell apart.
  \<^item> \<^theory_text>\<open>Pod_Cache_Lock\<close>: the read-write mutex of the pod cache and the write mark of Go's map under any number of
    goroutines; which operations are safe together, and that \<open>UpdatePod\<close> is safe with none.
  \<^item> \<^theory_text>\<open>Provider_Threads\<close>, \<^theory_text>\<open>Provider_Interleaved\<close>: Virtual Kubelet's workers.  Each call is a thread of atomic blocks,
    one for each statement with effects; run in one go a thread is the call.  With any number of calls in flight,
    one for each key as Virtual Kubelet's queue of keys makes them, every interleaving still refines the table.
    The proof is by rely and guarantee, with the locale \<open>interference\<close> interpreted on the provider's cache.  The
    last section shows what two calls at one key can do, which clashing keys allow.
  \<^item> \<^theory_text>\<open>Provider_Launches\<close>: what a run can cost.  AWS is described by what its calls do to a set of instances;
    without a warm pool a run adds at most one for each call that creates or recreates a pod, with one only the
    checks of its depth add any, each at most as many as the pools want.
  \<^item> \<^theory_text>\<open>Agent_Health\<close>, \<^theory_text>\<open>Agent_Lifecycle\<close>, \<^theory_text>\<open>Bootstrap_Agent\<close>: the other end of the connections, the example agents
    \<open>examples/vkvmagent\<close> and \<open>examples/bootstrap_agent\<close>.  The health service with its watching streams is a
    step relation with an invariant, in which a watcher's taking a status and the return of its \<open>Send\<close> are one
    step; what its shutdown and the application service's reports look like to the provider's monitors, and
    whether the bootstrap agent can start from the provider's user data.

  Bounds.  Only the loops over a list, over the pages of an answer and over a count are loops of single
  operations, and they are structural recursions.  The loop of a refresh over the pages has fuel 1, which is
  enough: its condition is false after the first page whatever was read (\<open>refresh_loop_once\<close>).  The background
  loops are modelled as the body they run on each tick, and the goroutines of a monitor as a relation with no
  bound on its length.  Integers are unbounded except for durations: the numbers of seconds in the
  configuration become 64-bit nanoseconds, and \<open>status_interval_bounds\<close> says what becomes of each number.
  Counters and depths of pools stay far below 64 bits in any run that EC2's quotas permit.

  Not modelled.  Interleavings inside one statement of a call, such as two concurrent runs of \<open>GetCompute\<close>, beyond
  the mutexes of the warm pool and of the pod cache and the goroutines of the monitors: a statement is atomic in
  \<^theory_text>\<open>Provider_Threads\<close>, and none of them shows in the table of pods but those that use the cache; time, except
  as the ticks and the results of waiting; generated code and mocks; what AWS makes of the declarations of the
  stack beyond their grants.
\<close>

end
